(* ===== verification/Prelude.thy ===== *)
theory Prelude
  imports Main "HOL-Library.Word"
begin

text \<open>
  Shared vocabulary of the development: the fixed-width types of the Go sources, the
  operations of \<open>math/big\<close> that the program calls (on \<open>int\<close>, since a
  \<open>big.Int\<close> is unbounded), big-endian byte strings, and the generic lemmas the
  component theories use.
\<close>

unbundle bit_operations_syntax

section \<open>Types\<close>

text \<open>
  Go's \<open>byte\<close> and \<open>uint64\<close> are words; \<open>types.Hash\<close> (\<open>[32]byte\<close>) and
  \<open>types.Address\<close> (\<open>[20]byte\<close>) are the words their bytes spell in big-endian order.
\<close>

type_synonym byte = "8 word"
type_synonym u64 = "64 word"
type_synonym hash = "256 word"
type_synonym address = "160 word"

named_theorems big_simps \<open>conversions between math/big values, words and byte strings\<close>
named_theorems vm_simps \<open>record projections of the virtual machine's primitives\<close>

section \<open>Big integers\<close>

text \<open>Number of bits of the absolute value (\<open>(*big.Int).BitLen\<close>).\<close>

fun bitlen_nat :: "nat \<Rightarrow> nat" where
  "bitlen_nat n = (if n = 0 then 0 else Suc (bitlen_nat (n div 2)))"

declare bitlen_nat.simps [simp del]

definition BitLen :: "int \<Rightarrow> nat" where
  "BitLen x = bitlen_nat (nat \<bar>x\<bar>)"

definition IsUint64 :: "int \<Rightarrow> bool" where
  "IsUint64 x \<longleftrightarrow> 0 \<le> x \<and> x < 2 ^ 64"

definition Uint64 :: "int \<Rightarrow> u64" where
  "Uint64 x = word_of_int \<bar>x\<bar>"

definition IsInt64 :: "int \<Rightarrow> bool" where
  "IsInt64 x \<longleftrightarrow> - (2 ^ 63) \<le> x \<and> x < 2 ^ 63"

text \<open>\<open>Int64\<close> keeps the low 64 bits of the magnitude and applies the sign, so it is the
  two's complement reading of the low 64 bits.\<close>

definition Int64 :: "int \<Rightarrow> int" where
  "Int64 x = sint (word_of_int x :: u64)"

text \<open>\<open>(*big.Int).Div\<close> and \<open>Mod\<close> are Euclidean: the remainder is never negative.\<close>

definition big_div :: "int \<Rightarrow> int \<Rightarrow> int" where
  "big_div a b = sgn b * (a div \<bar>b\<bar>)"

definition big_mod :: "int \<Rightarrow> int \<Rightarrow> int" where
  "big_mod a b = a mod \<bar>b\<bar>"

text \<open>The magnitude as little-endian 64-bit words without leading zero word
  (\<open>(*big.Int).Bits\<close> on a 64-bit platform).\<close>

function nat_words :: "nat \<Rightarrow> u64 list" where
  "nat_words n = (if n = 0 then [] else word_of_nat n # nat_words (n div 2 ^ 64))"
  by pat_completeness auto
termination
  by (relation "measure id") auto

declare nat_words.simps [simp del]

definition Bits :: "int \<Rightarrow> u64 list" where
  "Bits x = nat_words (nat \<bar>x\<bar>)"

section \<open>Big-endian byte strings\<close>

fun be_nat :: "byte list \<Rightarrow> nat" where
  "be_nat [] = 0"
| "be_nat (b # bs) = unat b * 256 ^ length bs + be_nat bs"

definition SetBytes :: "byte list \<Rightarrow> int" where
  "SetBytes bs = int (be_nat bs)"

text \<open>The magnitude in exactly \<open>n\<close> bytes, and in as few bytes as possible
  (\<open>(*big.Int).Bytes\<close>).\<close>

fun be_bytes :: "nat \<Rightarrow> nat \<Rightarrow> byte list" where
  "be_bytes 0 x = []"
| "be_bytes (Suc n) x = be_bytes n (x div 256) @ [word_of_nat x]"

function min_bytes :: "nat \<Rightarrow> byte list" where
  "min_bytes n = (if n = 0 then [] else min_bytes (n div 256) @ [word_of_nat n])"
  by pat_completeness auto
termination
  by (relation "measure id") auto

declare min_bytes.simps [simp del]

definition Bytes :: "int \<Rightarrow> byte list" where
  "Bytes x = min_bytes (nat \<bar>x\<bar>)"

text \<open>\<open>types.BytesToHash\<close> and \<open>types.BytesToAddress\<close> keep the last 32 and 20 bytes,
  left-padded with zeros.\<close>

definition BytesToHash :: "byte list \<Rightarrow> hash" where
  "BytesToHash b = word_of_nat (be_nat (drop (length b - min (length b) 32) b))"

definition BytesToAddress :: "byte list \<Rightarrow> address" where
  "BytesToAddress b = word_of_nat (be_nat (drop (length b - min (length b) 20) b))"

definition hash_bytes :: "hash \<Rightarrow> byte list" where
  "hash_bytes h = be_bytes 32 (unat h)"

definition address_bytes :: "address \<Rightarrow> byte list" where
  "address_bytes a = be_bytes 20 (unat a)"

section \<open>Lemmas on big integers\<close>

lemma bitlen_nat_le_iff: "bitlen_nat n \<le> k \<longleftrightarrow> n < 2 ^ k"
proof (induction n arbitrary: k rule: bitlen_nat.induct)
  case (1 n)
  show ?case
  proof (cases "n = 0")
    case True
    then show ?thesis by (simp add: bitlen_nat.simps [of 0])
  next
    case False
    show ?thesis
    proof (cases k)
      case 0
      with False show ?thesis by (simp add: bitlen_nat.simps [of n])
    next
      case (Suc j)
      have "bitlen_nat n \<le> k \<longleftrightarrow> bitlen_nat (n div 2) \<le> j"
        using False Suc by (simp add: bitlen_nat.simps [of n])
      also have "\<dots> \<longleftrightarrow> n div 2 < 2 ^ j"
        using "1.IH" False by simp
      also have "\<dots> \<longleftrightarrow> n < 2 ^ k"
        using Suc by (simp add: div_less_iff_less_mult mult.commute)
      finally show ?thesis .
    qed
  qed
qed

lemma BitLen_le_iff [big_simps]: "BitLen x \<le> k \<longleftrightarrow> \<bar>x\<bar> < 2 ^ k"
proof -
  have "BitLen x \<le> k \<longleftrightarrow> nat \<bar>x\<bar> < 2 ^ k"
    by (simp add: BitLen_def bitlen_nat_le_iff)
  also have "\<dots> \<longleftrightarrow> \<bar>x\<bar> < 2 ^ k"
    by (simp add: nat_less_iff)
  finally show ?thesis .
qed

lemma BitLen_gt_iff [big_simps]: "k < BitLen x \<longleftrightarrow> 2 ^ k \<le> \<bar>x\<bar>"
  using BitLen_le_iff [of x k] by linarith

lemma BitLen_0 [simp]: "BitLen 0 = 0"
  by (simp add: BitLen_def bitlen_nat.simps)

lemma uint_Uint64: "0 \<le> x \<Longrightarrow> x < 2 ^ 64 \<Longrightarrow> uint (Uint64 x) = x"
  by (simp add: Uint64_def uint_word_of_int take_bit_int_eq_self)

lemma unat_Uint64: "IsUint64 x \<Longrightarrow> unat (Uint64 x) = nat x"
  by (metis IsUint64_def uint_Uint64 unat_eq_nat_uint)

lemma Uint64_0 [simp]: "Uint64 0 = 0"
  by (simp add: Uint64_def)

lemma unat_le_iff_uint: "unat (w :: 'a::len word) \<le> n \<longleftrightarrow> uint w \<le> int n"
  by (simp only: nat_uint_eq [symmetric] nat_le_iff)

lemma unat_less_iff_uint: "unat (w :: 'a::len word) < n \<longleftrightarrow> uint w < int n"
  by (simp only: nat_uint_eq [symmetric] nat_less_iff uint_ge_0)

section \<open>Lemmas on byte strings\<close>

lemma unat_lt_2p: "unat (w :: 'a::len word) < 2 ^ LENGTH('a)"
  by (rule unsigned_less)

lemma unat_byte_less [simp]: "unat (b :: byte) < 256"
  using unat_lt_2p [of b] by simp

lemma unat_byte_le [simp]: "unat (b :: byte) \<le> 255"
  using unat_byte_less [of b] by linarith

lemma be_nat_append [simp]:
  "be_nat (xs @ ys) = be_nat xs * 256 ^ length ys + be_nat ys"
  by (induction xs) (simp_all add: power_add algebra_simps)

lemma be_nat_less: "be_nat bs < 256 ^ length bs"
proof (induction bs)
  case (Cons b bs)
  have "unat b * 256 ^ length bs + be_nat bs < (unat b + 1) * 256 ^ length bs"
    using Cons by simp
  also have "\<dots> \<le> 256 * 256 ^ length bs"
    by (intro mult_right_mono) auto
  finally show ?case by simp
qed simp

lemma be_nat_replicate_0 [simp]: "be_nat (replicate n 0) = 0"
  by (induction n) simp_all

lemma length_be_bytes [simp]: "length (be_bytes n x) = n"
  by (induction n arbitrary: x) simp_all

lemma unat_word_of_nat_byte [simp]: "unat (word_of_nat x :: byte) = x mod 256"
  by (simp add: unat_of_nat)

lemma be_nat_be_bytes: "be_nat (be_bytes n x) = x mod 256 ^ n"
proof (induction n arbitrary: x)
  case (Suc n)
  have "be_nat (be_bytes (Suc n) x) = x div 256 mod 256 ^ n * 256 + x mod 256"
    by (simp add: Suc)
  also have "\<dots> = x mod (256 * 256 ^ n)"
    by (metis mod_mult2_eq mult.commute)
  finally show ?case by simp
qed simp

lemma be_bytes_be_nat: "length bs = n \<Longrightarrow> be_bytes n (be_nat bs) = bs"
proof (induction n arbitrary: bs)
  case (Suc n)
  then obtain xs b where bs: "bs = xs @ [b]" and len: "length xs = n"
    by (metis length_Suc_conv_rev)
  have "(be_nat xs * 256 + unat b) div 256 = be_nat xs"
    by simp
  moreover have "word_of_nat (be_nat xs * 256 + unat b) = b"
    by (rule word_unat_eq_iff [THEN iffD2]) (simp only: unat_word_of_nat_byte, simp)
  ultimately show ?case
    using Suc.IH [OF len] by (simp add: bs)
qed simp

lemma be_nat_min_bytes [simp]: "be_nat (min_bytes n) = n"
proof (induction n rule: min_bytes.induct)
  case (1 n)
  then show ?case
    by (cases "n = 0") (simp_all add: min_bytes.simps [of n] min_bytes.simps [of 0])
qed

lemma be_nat_Bytes [simp]: "be_nat (Bytes x) = nat \<bar>x\<bar>"
  by (simp add: Bytes_def)

lemma be_nat_mod_drop:
  "be_nat bs mod 256 ^ k = be_nat (drop (length bs - min (length bs) k) bs)"
proof (cases "length bs \<le> k")
  case True
  have "be_nat bs < 256 ^ k"
    by (rule less_le_trans [OF be_nat_less]) (use True in \<open>simp add: power_increasing\<close>)
  with True show ?thesis by simp
next
  case False
  define ys where "ys = drop (length bs - k) bs"
  have len: "length ys = k" using False by (simp add: ys_def)
  have "bs = take (length bs - k) bs @ ys" by (simp add: ys_def)
  then have "be_nat bs = be_nat (take (length bs - k) bs) * 256 ^ k + be_nat ys"
    by (metis be_nat_append len)
  moreover have "be_nat ys < 256 ^ k" using be_nat_less [of ys] len by simp
  ultimately have "be_nat bs mod 256 ^ k = be_nat ys" by simp
  with False show ?thesis by (simp add: ys_def)
qed

lemma word_of_nat_mod: "2 ^ LENGTH('a) = m \<Longrightarrow> (word_of_nat (x mod m) :: 'a::len word) = word_of_nat x"
  by (rule word_unat_eq_iff [THEN iffD2]) (auto simp: unat_of_nat)

lemma BytesToHash_eq [big_simps]: "BytesToHash b = word_of_nat (be_nat b)"
proof -
  have "(2::nat) ^ LENGTH(256) = 256 ^ 32" by simp
  from word_of_nat_mod [OF this] show ?thesis
    by (simp only: BytesToHash_def be_nat_mod_drop [symmetric])
qed

lemma BytesToAddress_eq [big_simps]: "BytesToAddress b = word_of_nat (be_nat b)"
proof -
  have "(2::nat) ^ LENGTH(160) = 256 ^ 20" by simp
  from word_of_nat_mod [OF this] show ?thesis
    by (simp only: BytesToAddress_def be_nat_mod_drop [symmetric])
qed

lemma length_hash_bytes [simp]: "length (hash_bytes h) = 32"
  by (simp add: hash_bytes_def)

lemma length_address_bytes [simp]: "length (address_bytes a) = 20"
  by (simp add: address_bytes_def)

lemma be_nat_hash_bytes [simp]: "be_nat (hash_bytes h) = unat h"
  using unat_lt_2p [of h] by (simp add: hash_bytes_def be_nat_be_bytes)

lemma be_nat_address_bytes [simp]: "be_nat (address_bytes a) = unat a"
  using unat_lt_2p [of a] by (simp add: address_bytes_def be_nat_be_bytes)

lemma BytesToHash_hash_bytes [simp]: "BytesToHash (hash_bytes h) = h"
  by (simp add: BytesToHash_eq)

lemma BytesToAddress_address_bytes [simp]: "BytesToAddress (address_bytes a) = a"
  by (simp add: BytesToAddress_eq)

lemma SetBytes_nonneg [simp]: "0 \<le> SetBytes bs"
  by (simp add: SetBytes_def)

lemma SetBytes_less: "length bs \<le> n \<Longrightarrow> SetBytes bs < 256 ^ n"
proof -
  assume "length bs \<le> n"
  then have "be_nat bs < 256 ^ n"
    using be_nat_less [of bs] power_increasing [of "length bs" n "256::nat"] by linarith
  then show ?thesis by (simp add: SetBytes_def)
qed

lemma SetBytes_Bytes [simp]: "SetBytes (Bytes x) = \<bar>x\<bar>"
  by (simp add: SetBytes_def)

end
