(* ===== verification/Forks.thy ===== *)
theory Forks
  imports Prelude
begin

text \<open>
  The fork schedule of \<open>chain/params.go\<close>: when each protocol upgrade is active, and the
  set of rules (\<open>ForksInTime\<close>) in force at a block height.
\<close>

section \<open>Data\<close>

type_synonym Fork = u64

record Forks =
  Homestead_fork :: "Fork option"
  Byzantium_fork :: "Fork option"
  Constantinople_fork :: "Fork option"
  Petersburg_fork :: "Fork option"
  Istanbul_fork :: "Fork option"
  EIP150_fork :: "Fork option"
  EIP158_fork :: "Fork option"
  EIP155_fork :: "Fork option"
  Preportland_fork :: "Fork option"
  Portland_fork :: "Fork option"
  Detroit_fork :: "Fork option"

record ForksInTime =
  Homestead :: bool
  Byzantium :: bool
  Constantinople :: bool
  Petersburg :: bool
  Istanbul :: bool
  EIP150 :: bool
  EIP158 :: bool
  EIP155 :: bool
  Preportland :: bool
  Portland :: bool
  Detroit :: bool

section \<open>Operations\<close>

definition Fork_On :: "Fork \<Rightarrow> u64 \<Rightarrow> bool" where
  "Fork_On f block \<longleftrightarrow> block = f"

definition Fork_Active :: "Fork \<Rightarrow> u64 \<Rightarrow> bool" where
  "Fork_Active f block \<longleftrightarrow> f \<le> block"

definition forks_on :: "Fork option \<Rightarrow> u64 \<Rightarrow> bool" where
  "forks_on ff block = (case ff of None \<Rightarrow> False | Some f \<Rightarrow> Fork_On f block)"

definition forks_active :: "Fork option \<Rightarrow> u64 \<Rightarrow> bool" where
  "forks_active ff block = (case ff of None \<Rightarrow> False | Some f \<Rightarrow> Fork_Active f block)"

definition Forks_At :: "Forks \<Rightarrow> u64 \<Rightarrow> ForksInTime" where
  "Forks_At f block =
     \<lparr> Homestead = forks_active (Homestead_fork f) block,
       Byzantium = forks_active (Byzantium_fork f) block,
       Constantinople = forks_active (Constantinople_fork f) block,
       Petersburg = forks_active (Petersburg_fork f) block,
       Istanbul = forks_active (Istanbul_fork f) block,
       EIP150 = forks_active (EIP150_fork f) block,
       EIP158 = forks_active (EIP158_fork f) block,
       EIP155 = forks_active (EIP155_fork f) block,
       Preportland = forks_active (Preportland_fork f) block,
       Portland = forks_active (Portland_fork f) block,
       Detroit = forks_active (Detroit_fork f) block \<rparr>"

definition AllForksEnabled :: Forks where
  "AllForksEnabled =
     \<lparr> Homestead_fork = Some 0,
       Byzantium_fork = Some 0,
       Constantinople_fork = Some 0,
       Petersburg_fork = Some 0,
       Istanbul_fork = Some 0,
       EIP150_fork = Some 0,
       EIP158_fork = Some 0,
       EIP155_fork = Some 0,
       Preportland_fork = Some 10000,
       Portland_fork = Some 10222,
       Detroit_fork = Some 40562 \<rparr>"

section \<open>Properties\<close>

text \<open>A fork that is active stays active at every later height.\<close>

lemma forks_active_mono: "forks_active ff b \<Longrightarrow> b \<le> b' \<Longrightarrow> forks_active ff b'"
  by (auto simp: forks_active_def Fork_Active_def split: option.splits)

text \<open>The activation block is the first active one.\<close>

lemma forks_on_first_active:
  "forks_on ff b \<Longrightarrow> forks_active ff b' \<longleftrightarrow> b \<le> b'"
  by (auto simp: forks_on_def forks_active_def Fork_On_def Fork_Active_def split: option.splits)

lemma AllForksEnabled_EIP150: "EIP150 (Forks_At AllForksEnabled b)"
  by (simp add: Forks_At_def AllForksEnabled_def forks_active_def Fork_Active_def)

end
