(* ===== verification/Runtime.thy ===== *)
theory Runtime
  imports Forks
begin

text \<open>
  The interface between the executor and the runtimes (\<open>state/runtime/runtime.go\<close>): the
  contract being called, the result of a call, the transaction context, and the \<open>Host\<close>
  through which a running contract reaches the world state.
\<close>

section \<open>Data\<close>

datatype StorageStatus =
    StorageUnchanged | StorageModified | StorageModifiedAgain | StorageAdded | StorageDeleted

text \<open>The error values of the runtime package and of the \<open>evm\<close> package.  \<open>errPanic\<close> is the
  error the interpreter reports after recovering from a Go run-time panic, \<open>errContract\<close> any
  other error value a precompiled contract returns, \<open>errNotFound\<close> the executor's error when
  no runtime accepts the contract.\<close>

datatype vm_error =
    ErrOutOfGas | ErrStackOverflow | ErrStackUnderflow | ErrNotEnoughFunds
  | ErrInsufficientBalance | ErrMaxCodeSizeExceeded | ErrContractAddressCollision
  | ErrDepth | ErrExecutionReverted | ErrCodeStoreOutOfGas | ErrCodeEmpty
  | errGasUintOverflow | errWriteProtection | errInvalidJump | errOpCodeNotFound
  | errReturnDataOutOfBounds | errPanic | errContract string | errNotFound

datatype CallType = Call | CallCode | DelegateCall | StaticCall | Create | Create2

definition IsCreateType :: "CallType \<Rightarrow> bool" where
  "IsCreateType typ = (case typ of Create \<Rightarrow> True | Create2 \<Rightarrow> True | _ \<Rightarrow> False)"

definition IsCallType :: "CallType \<Rightarrow> bool" where
  "IsCallType typ = (case typ of Call \<Rightarrow> True | CallCode \<Rightarrow> True | DelegateCall \<Rightarrow> True
     | StaticCall \<Rightarrow> True | _ \<Rightarrow> False)"

record TxContext =
  GasPrice :: hash
  Origin_ctx :: address
  Coinbase :: address
  Number :: int
  Timestamp :: int
  GasLimit :: int
  ChainID :: int
  Difficulty :: hash

record Contract =
  Code :: "byte list"
  CType :: CallType
  CodeAddress :: address
  Address :: address
  Origin :: address
  Caller :: address
  Depth :: int
  Value :: "int option"
  Input :: "byte list"
  Gas :: u64
  Static :: bool

record ExecutionResult =
  ReturnValue :: "byte list"
  GasLeft :: u64
  GasUsed :: u64
  Err :: "vm_error option"

section \<open>Operations on contracts and results\<close>

definition NewContract ::
  "int \<Rightarrow> address \<Rightarrow> address \<Rightarrow> address \<Rightarrow> int option \<Rightarrow> u64 \<Rightarrow> byte list \<Rightarrow> Contract" where
  "NewContract depth orig from to val g cd =
     \<lparr> Code = cd, CType = Call, CodeAddress = to, Address = to, Origin = orig, Caller = from,
       Depth = depth, Value = val, Input = [], Gas = g, Static = False \<rparr>"

definition NewContractCreation ::
  "int \<Rightarrow> address \<Rightarrow> address \<Rightarrow> address \<Rightarrow> int option \<Rightarrow> u64 \<Rightarrow> byte list \<Rightarrow> Contract" where
  "NewContractCreation depth orig from to val g cd = NewContract depth orig from to val g cd"

definition NewContractCall ::
  "int \<Rightarrow> address \<Rightarrow> address \<Rightarrow> address \<Rightarrow> int option \<Rightarrow> u64 \<Rightarrow> byte list \<Rightarrow> byte list \<Rightarrow> Contract" where
  "NewContractCall depth orig from to val g cd inp =
     (NewContract depth orig from to val g cd)\<lparr>Input := inp\<rparr>"

definition Succeeded :: "ExecutionResult \<Rightarrow> bool" where
  "Succeeded r \<longleftrightarrow> Err r = None"

definition Failed :: "ExecutionResult \<Rightarrow> bool" where
  "Failed r \<longleftrightarrow> Err r \<noteq> None"

definition Reverted :: "ExecutionResult \<Rightarrow> bool" where
  "Reverted r \<longleftrightarrow> Err r = Some ErrExecutionReverted"

definition Return_data :: "ExecutionResult \<Rightarrow> byte list" where
  "Return_data r = (if Err r \<noteq> None then [] else ReturnValue r)"

definition Revert_data :: "ExecutionResult \<Rightarrow> byte list" where
  "Revert_data r = (if \<not> Reverted r then [] else ReturnValue r)"

definition UpdateGasUsed :: "u64 \<Rightarrow> u64 \<Rightarrow> ExecutionResult \<Rightarrow> ExecutionResult" where
  "UpdateGasUsed gasLimit refund r =
     (let used = gasLimit - GasLeft r;
          maxRefund = used div 2;
          refund' = (if refund > maxRefund then maxRefund else refund)
      in r\<lparr>GasUsed := used - refund', GasLeft := GasLeft r + refund'\<rparr>)"

section \<open>The host interface\<close>

text \<open>
  The methods of \<open>runtime.Host\<close>, over an abstract host state.  The read-only methods take the
  host state and return a value; the others return the new host state as well.  \<open>Callx\<close> runs
  another contract and may not return (\<open>None\<close>).
\<close>

record 'h Host =
  AccountExists :: "'h \<Rightarrow> address \<Rightarrow> bool"
  GetStorage :: "'h \<Rightarrow> address \<Rightarrow> hash \<Rightarrow> hash"
  SetStorage :: "'h \<Rightarrow> address \<Rightarrow> hash \<Rightarrow> hash \<Rightarrow> ForksInTime \<Rightarrow> StorageStatus \<times> 'h"
  GetBalance :: "'h \<Rightarrow> address \<Rightarrow> int"
  GetCodeSize :: "'h \<Rightarrow> address \<Rightarrow> nat"
  GetCodeHash :: "'h \<Rightarrow> address \<Rightarrow> hash"
  GetCode :: "'h \<Rightarrow> address \<Rightarrow> byte list"
  Selfdestruct :: "'h \<Rightarrow> address \<Rightarrow> address \<Rightarrow> 'h"
  GetTxContext :: "'h \<Rightarrow> TxContext"
  GetBlockHash :: "'h \<Rightarrow> int \<Rightarrow> hash"
  EmitLog :: "'h \<Rightarrow> address \<Rightarrow> hash list \<Rightarrow> byte list \<Rightarrow> 'h"
  Callx :: "'h \<Rightarrow> Contract \<Rightarrow> ('h \<times> ExecutionResult) option"
  Empty :: "'h \<Rightarrow> address \<Rightarrow> bool"
  GetNonce :: "'h \<Rightarrow> address \<Rightarrow> u64"

section \<open>Contract addresses\<close>

text \<open>
  Third-party code behind \<open>crypto/crypto.go\<close>: the Keccak-256 hash, and the RLP encoding of the
  two-element list of an address and a nonce.
\<close>

record Crypto =
  Keccak256 :: "byte list \<Rightarrow> hash"
  rlp_address_nonce :: "address \<Rightarrow> u64 \<Rightarrow> byte list"

definition CreateAddress :: "Crypto \<Rightarrow> address \<Rightarrow> u64 \<Rightarrow> address" where
  "CreateAddress K addr nonce =
     BytesToAddress (drop 12 (hash_bytes (Keccak256 K (rlp_address_nonce K addr nonce))))"

definition CreateAddress2 :: "Crypto \<Rightarrow> address \<Rightarrow> hash \<Rightarrow> byte list \<Rightarrow> address" where
  "CreateAddress2 K addr salt inithash =
     BytesToAddress (drop 12 (hash_bytes (Keccak256 K
       (0xff # address_bytes addr @ hash_bytes salt @ hash_bytes (Keccak256 K inithash)))))"

section \<open>Gas accounting of a result\<close>

lemma unat_sub_half: "unat (w div 2 :: u64) = unat w div 2"
  by (simp add: unat_div)

text \<open>Whatever the refund counter holds, used and remaining gas always add up to the gas limit,
  and at least half of the gas spent is kept.\<close>

lemma UpdateGasUsed_sum:
  assumes "GasLeft r \<le> gasLimit"
  shows "unat (GasUsed (UpdateGasUsed gasLimit refund r))
       + unat (GasLeft (UpdateGasUsed gasLimit refund r)) = unat gasLimit"
    and "unat (GasUsed (UpdateGasUsed gasLimit refund r)) \<ge> (unat gasLimit - unat (GasLeft r) + 1) div 2"
proof -
  define used where "used = gasLimit - GasLeft r"
  define rf where "rf = (if refund > used div 2 then used div 2 else refund)"
  have used: "unat used = unat gasLimit - unat (GasLeft r)"
    using assms by (simp add: used_def unat_sub)
  have rf: "unat rf \<le> unat used div 2"
    by (auto simp: rf_def unat_sub_half word_le_nat_alt [symmetric] word_less_nat_alt split: if_splits)
  have le: "unat (GasLeft r) \<le> unat gasLimit" using assms by (simp add: word_le_nat_alt)
  have u: "unat (used - rf) = unat used - unat rf"
    using rf by (intro unat_sub) (simp add: word_le_nat_alt)
  have "unat (GasLeft r) + unat rf < 2 ^ 64"
    using rf used le unat_lt_2p [of gasLimit] by simp
  then have l: "unat (GasLeft r + rf) = unat (GasLeft r) + unat rf"
    by (simp add: unat_word_ariths)
  show "unat (GasUsed (UpdateGasUsed gasLimit refund r))
       + unat (GasLeft (UpdateGasUsed gasLimit refund r)) = unat gasLimit"
    using u l rf used le
    by (simp add: UpdateGasUsed_def Let_def flip: used_def rf_def)
  show "unat (GasUsed (UpdateGasUsed gasLimit refund r)) \<ge> (unat gasLimit - unat (GasLeft r) + 1) div 2"
    using u rf used by (simp add: UpdateGasUsed_def Let_def flip: used_def rf_def)
qed

end
