(* ===== verification/EVM_State.thy ===== *)
theory EVM_State
  imports Runtime
begin

text \<open>
  The virtual machine state of \<open>state/runtime/evm/state.go\<close> and its primitives: stack, gas,
  memory with its quadratic pricing, and the jump-destination bitmap of \<open>bitmap.go\<close>.

  Representation.  \<open>stack c\<close> is the live part \<open>c.stack[:c.sp]\<close>, top first, so \<open>c.sp\<close> is its
  length; slots above \<open>c.sp\<close> are never read before they are overwritten.  A Go byte slice whose
  capacity matters is a pair: the visible bytes and the hidden bytes up to its capacity
  (\<open>memory\<close>/\<open>memtail\<close>, \<open>bitbuf\<close>/\<open>bittail\<close>).  How much capacity \<open>append\<close> adds beyond the
  requested length is left to the Go runtime; \<open>growcap\<close> stands for that choice.  \<open>ip\<close> is a Go
  \<open>int\<close>: a jump to 0 sets it to \<open>-1\<close> before the increment of the main loop.  \<open>panicked\<close> records
  a Go run-time panic, which unwinds to the \<open>recover\<close> in \<open>Run\<close>.  \<open>tmp\<close> is scratch space that is
  always written before it is read, so it is not part of the state.
\<close>

section \<open>State\<close>

record 'h state =
  ip :: int
  code :: "byte list"
  host :: 'h
  msg :: Contract
  config :: ForksInTime
  memory :: "byte list"
  memtail :: "byte list"
  growcap :: "nat \<Rightarrow> nat \<Rightarrow> nat"
  lastGasCost :: u64
  stack :: "int list"
  err :: "vm_error option"
  stop :: bool
  gas :: u64
  bitbuf :: "byte list"
  bittail :: "byte list"
  returnData :: "byte list"
  ret :: "byte list"
  panicked :: bool

abbreviation sp :: "'h state \<Rightarrow> nat" where
  "sp c \<equiv> length (stack c)"

definition stackSize :: nat where
  "stackSize = 1024"

section \<open>Control primitives\<close>

definition halt :: "'h state \<Rightarrow> 'h state" where
  "halt c = c\<lparr>stop := True\<rparr>"

definition exit_with :: "vm_error \<Rightarrow> 'h state \<Rightarrow> 'h state" where
  "exit_with e c = c\<lparr>stop := True, err := Some e\<rparr>"

definition go_panic :: "'h state \<Rightarrow> 'h state" where
  "go_panic c = c\<lparr>panicked := True\<rparr>"

text \<open>\<open>guard (ok, c) k\<close> is the idiom \<open>if !ok { return }\<close> followed by the rest \<open>k\<close>.\<close>

definition guard :: "bool \<times> 'h state \<Rightarrow> ('h state \<Rightarrow> 'h state) \<Rightarrow> 'h state" where
  "guard r k = (if fst r then k (snd r) else snd r)"

definition consumeGas :: "u64 \<Rightarrow> 'h state \<Rightarrow> bool \<times> 'h state" where
  "consumeGas g c =
     (if gas c < g then (False, exit_with ErrOutOfGas c)
      else (True, c\<lparr>gas := gas c - g\<rparr>))"

definition inStaticCall :: "'h state \<Rightarrow> bool" where
  "inStaticCall c = Static (msg c)"

definition resetReturnData :: "'h state \<Rightarrow> 'h state" where
  "resetReturnData c = c\<lparr>returnData := []\<rparr>"

section \<open>Stack\<close>

definition push :: "int \<Rightarrow> 'h state \<Rightarrow> 'h state" where
  "push v c = c\<lparr>stack := v # stack c\<rparr>"

definition pop :: "'h state \<Rightarrow> int option \<times> 'h state" where
  "pop c = (case stack c of [] \<Rightarrow> (None, c) | v # st \<Rightarrow> (Some v, c\<lparr>stack := st\<rparr>))"

definition top :: "'h state \<Rightarrow> int option" where
  "top c = (case stack c of [] \<Rightarrow> None | v # st \<Rightarrow> Some v)"

definition stackAtLeast :: "nat \<Rightarrow> 'h state \<Rightarrow> bool" where
  "stackAtLeast n c \<longleftrightarrow> n \<le> sp c"

text \<open>\<open>peekAt\<close> and \<open>swap\<close> index the slice and panic out of range; their callers check the depth
  first.\<close>

definition peekAt :: "nat \<Rightarrow> 'h state \<Rightarrow> int option" where
  "peekAt n c = (if 1 \<le> n \<and> n \<le> sp c then Some (stack c ! (n - 1)) else None)"

definition swap :: "nat \<Rightarrow> 'h state \<Rightarrow> 'h state" where
  "swap n c =
     (if n < sp c
      then c\<lparr>stack := (stack c)[0 := stack c ! n, n := stack c ! 0]\<rparr>
      else go_panic c)"

text \<open>\<open>pop\<close> and \<open>top\<close> return a nil pointer on an empty stack, whose use panics; \<open>popThen\<close> and
  \<open>topThen\<close> are a pop (or top) whose result is used.  \<open>setTop\<close> writes through the pointer
  \<open>top\<close> returned.\<close>

definition popThen :: "'h state \<Rightarrow> (int \<Rightarrow> 'h state \<Rightarrow> 'h state) \<Rightarrow> 'h state" where
  "popThen c k = (case pop c of (None, c') \<Rightarrow> go_panic c' | (Some v, c') \<Rightarrow> k v c')"

definition topThen :: "'h state \<Rightarrow> (int \<Rightarrow> 'h state) \<Rightarrow> 'h state" where
  "topThen c k = (case top c of None \<Rightarrow> go_panic c | Some v \<Rightarrow> k v)"

definition setTop :: "int \<Rightarrow> 'h state \<Rightarrow> 'h state" where
  "setTop v c = c\<lparr>stack := v # tl (stack c)\<rparr>"

definition bigToHash :: "int \<Rightarrow> hash" where
  "bigToHash b = BytesToHash (Bytes b)"

definition popHashThen :: "'h state \<Rightarrow> (hash \<Rightarrow> 'h state \<Rightarrow> 'h state) \<Rightarrow> 'h state" where
  "popHashThen c k = popThen c (\<lambda>v. k (BytesToHash (Bytes v)))"

definition popAddr :: "'h state \<Rightarrow> (address \<times> bool) \<times> 'h state" where
  "popAddr c =
     (case pop c of
        (None, c') \<Rightarrow> ((0, False), c')
      | (Some b, c') \<Rightarrow> ((BytesToAddress (Bytes b), True), c'))"

text \<open>\<open>addr, _ := c.popAddr()\<close>: the flag is ignored by every caller.\<close>

definition popAddrThen :: "'h state \<Rightarrow> (address \<Rightarrow> 'h state \<Rightarrow> 'h state) \<Rightarrow> 'h state" where
  "popAddrThen c k = (case popAddr c of ((a, _), c') \<Rightarrow> k a c')"

section \<open>Memory\<close>

definition extendByteSlice ::
  "(nat \<Rightarrow> nat \<Rightarrow> nat) \<Rightarrow> byte list \<times> byte list \<Rightarrow> nat \<Rightarrow> byte list \<times> byte list" where
  "extendByteSlice grow b needLen =
     (let full = fst b @ snd b; cap = length full;
          full' = (if cap < needLen
                   then full @ replicate (needLen - cap) 0 @ replicate (grow cap needLen) 0
                   else full)
      in (take needLen full', drop needLen full'))"

definition memLimit :: u64 where
  "memLimit = 0xffffffffe0"

definition memGasCost :: "u64 \<Rightarrow> u64" where
  "memGasCost w = 3 * w + w * w div 512"

definition extendMemory :: "int \<Rightarrow> int \<Rightarrow> 'h state \<Rightarrow> bool \<times> 'h state" where
  "extendMemory offset sz c =
     (if \<not> IsUint64 offset \<or> \<not> IsUint64 sz then (False, exit_with errGasUintOverflow c)
      else if sz = 0 then (True, c)
      else
        (let off = Uint64 offset; s = Uint64 sz in
         if off > memLimit \<or> s > memLimit then (False, exit_with errGasUintOverflow c)
         else
           (let newSize = off + s; mCap = word_of_nat (length (memory c)) in
            if mCap < newSize then
              (let w = (newSize + 31) div 32;
                   newCost = memGasCost w;
                   cost = newCost - lastGasCost c
               in case consumeGas cost (c\<lparr>lastGasCost := newCost\<rparr>) of
                    (False, c') \<Rightarrow> (False, exit_with ErrOutOfGas c')
                  | (True, c') \<Rightarrow>
                      (let m = extendByteSlice (growcap c') (memory c', memtail c') (unat (w * 32))
                       in (True, c'\<lparr>memory := fst m, memtail := snd m\<rparr>)))
            else (True, c))))"

text \<open>\<open>get2\<close> copies a memory range; an empty range needs no memory at all.\<close>

definition get2 :: "int \<Rightarrow> int \<Rightarrow> 'h state \<Rightarrow> (byte list \<times> bool) \<times> 'h state" where
  "get2 offset len c =
     (if len = 0 then (([], True), c)
      else case extendMemory offset len c of
             (False, c') \<Rightarrow> (([], False), c')
           | (True, c') \<Rightarrow>
               ((take (unat (Uint64 len)) (drop (unat (Uint64 offset)) (memory c')), True), c'))"

definition get2Then :: "int \<Rightarrow> int \<Rightarrow> 'h state \<Rightarrow> (byte list \<Rightarrow> 'h state \<Rightarrow> 'h state) \<Rightarrow> 'h state" where
  "get2Then offset len c k =
     (case get2 offset len c of ((_, False), c') \<Rightarrow> c' | ((d, True), c') \<Rightarrow> k d c')"

text \<open>\<open>copy(c.memory[o:], data)\<close> for a range that lies inside the memory.\<close>

definition copyInto :: "nat \<Rightarrow> byte list \<Rightarrow> byte list \<Rightarrow> byte list" where
  "copyInto off dat m =
     take off m @ take (length m - off) dat @ drop (off + length (take (length m - off) dat)) m"

text \<open>\<open>setBytes\<close>: \<open>size\<close> bytes of \<open>input\<close> from \<open>dataOffset\<close>, zero beyond its end.\<close>

definition setBytesData :: "byte list \<Rightarrow> u64 \<Rightarrow> int \<Rightarrow> byte list" where
  "setBytesData input sz dataOffset =
     (if \<not> IsUint64 dataOffset then replicate (unat sz) 0
      else
        (let inputSize = word_of_nat (length input) :: u64;
             start = min (Uint64 dataOffset) inputSize;
             copySize = min sz (inputSize - start)
         in take (unat copySize) (drop (unat start) input) @ replicate (unat (sz - copySize)) 0))"

definition setBytes :: "nat \<Rightarrow> byte list \<Rightarrow> u64 \<Rightarrow> int \<Rightarrow> byte list \<Rightarrow> byte list" where
  "setBytes off input sz dataOffset m = copyInto off (setBytesData input sz dataOffset) m"

section \<open>Jump destinations\<close>

definition bitmapSize :: nat where
  "bitmapSize = 8"

definition isPushOp :: "byte \<Rightarrow> bool" where
  "isPushOp i \<longleftrightarrow> drop_bit 5 i = 3"

definition bitmap_isSet :: "byte list \<Rightarrow> nat \<Rightarrow> bool" where
  "bitmap_isSet buf i \<longleftrightarrow> buf ! (i div bitmapSize) AND push_bit (i mod bitmapSize) 1 \<noteq> 0"

definition bitmap_set :: "nat \<Rightarrow> byte list \<Rightarrow> byte list" where
  "bitmap_set i buf =
     buf[i div bitmapSize := buf ! (i div bitmapSize) OR push_bit (i mod bitmapSize) 1]"

definition bitmap_reset :: "byte list \<times> byte list \<Rightarrow> byte list \<times> byte list" where
  "bitmap_reset b = ([], map (\<lambda>_. 0) (fst b) @ snd b)"

lemma isPushOp_iff: "isPushOp b \<longleftrightarrow> 96 \<le> unat b \<and> unat b < 128"
proof -
  have "isPushOp b \<longleftrightarrow> unat (drop_bit 5 b) = unat (3 :: byte)"
    by (simp only: isPushOp_def word_unat_eq_iff)
  also have "\<dots> \<longleftrightarrow> unat b div 32 = 3"
    by (simp only: unat_drop_bit_eq) (simp add: drop_bit_eq_div)
  also have "\<dots> \<longleftrightarrow> 96 \<le> unat b \<and> unat b < 128" by arith
  finally show ?thesis .
qed

lemma unat_push_skip: "isPushOp b \<Longrightarrow> unat (b - 94) = unat b - 94"
  by (subst unat_sub) (auto simp: isPushOp_iff word_le_nat_alt)

function setCode_loop :: "byte list \<Rightarrow> nat \<Rightarrow> byte list \<Rightarrow> byte list" where
  "setCode_loop cd i buf =
     (if i < length cd then
        (let b = cd ! i in
         if isPushOp b then setCode_loop cd (i + unat (b - 0x60 + 2)) buf
         else setCode_loop cd (i + 1) (if b = 0x5B then bitmap_set i buf else buf))
      else buf)"
  by pat_completeness auto
termination
proof (relation "measure (\<lambda>(cd, i, buf). length cd - i)", goal_cases)
  case (2 cd i buf b)
  then have "0 < unat (b - 0x60 + 2)"
    by (auto simp: unat_push_skip isPushOp_iff)
  with 2 show ?case by auto
qed auto

declare setCode_loop.simps [simp del]

definition bitmap_setCode ::
  "(nat \<Rightarrow> nat \<Rightarrow> nat) \<Rightarrow> byte list \<Rightarrow> byte list \<times> byte list \<Rightarrow> byte list \<times> byte list" where
  "bitmap_setCode grow cd b =
     (let b' = extendByteSlice grow b (length cd div bitmapSize + 1)
      in (setCode_loop cd 0 (fst b'), snd b'))"

definition validJumpdest :: "int \<Rightarrow> 'h state \<Rightarrow> bool" where
  "validJumpdest dest c =
     (let udest = Uint64 dest in
      if BitLen dest \<ge> 63 \<or> unat udest \<ge> length (code c) then False
      else bitmap_isSet (bitbuf c) (unat udest))"

section \<open>Pooled states\<close>

text \<open>\<open>new_state\<close> is the zero value the pool makes; its nil host, message and configuration, which
  \<open>EVM.Run\<close> always sets, are arguments here.\<close>

definition new_state :: "(nat \<Rightarrow> nat \<Rightarrow> nat) \<Rightarrow> 'h \<Rightarrow> Contract \<Rightarrow> ForksInTime \<Rightarrow> 'h state" where
  "new_state grow h ct cfg =
     \<lparr> ip = 0, code = [], host = h, msg = ct, config = cfg, memory = [], memtail = [], growcap = grow,
       lastGasCost = 0, stack = [], err = None, stop = False, gas = 0, bitbuf = [], bittail = [],
       returnData = [], ret = [], panicked = False \<rparr>"

text \<open>A fresh machine with the forks of the genesis block, for concrete instances.\<close>

definition idle_state :: "unit state" where
  "idle_state = new_state (\<lambda>_ _. 0) () (NewContract 0 0 0 0 None 0 []) (Forks_At AllForksEnabled 0)"

lemma idle_state_simps [simp]:
  "stack idle_state = []" "memory idle_state = []" "memtail idle_state = []" "gas idle_state = 0"
  "config idle_state = Forks_At AllForksEnabled 0" "lastGasCost idle_state = 0"
  by (simp_all add: idle_state_def new_state_def)

text \<open>\<open>reset\<close> prepares a state for reuse: every buffer is zeroed and emptied, keeping its
  capacity.  \<open>returnData\<close> is left as it is.\<close>

definition reset :: "'h state \<Rightarrow> 'h state" where
  "reset c =
     (let b = bitmap_reset (bitbuf c, bittail c) in
      c\<lparr>stack := [], ip := 0, gas := 0, lastGasCost := 0, stop := False, err := None,
        bitbuf := fst b, bittail := snd b,
        memtail := map (\<lambda>_. 0) (memory c) @ memtail c, memory := [],
        ret := [], code := []\<rparr>)"

section \<open>Lemmas: byte slices\<close>

lemma length_fst_extendByteSlice [simp]: "length (fst (extendByteSlice grow b n)) = n"
  by (simp add: extendByteSlice_def Let_def)

lemma fst_extendByteSlice:
  assumes "length (fst b) \<le> n" and "\<forall>x \<in> set (snd b). x = 0"
  shows "fst (extendByteSlice grow b n) = fst b @ replicate (n - length (fst b)) 0"
proof -
  have "snd b = replicate (length (snd b)) 0"
    using assms(2) by (simp add: replicate_length_same)
  then obtain k where k: "snd b = replicate k 0" by blast
  show ?thesis
  proof (cases "length (fst b @ snd b) < n")
    case True
    with assms k show ?thesis
      by (simp add: extendByteSlice_def Let_def replicate_add [symmetric])
  next
    case False
    with assms(1) k show ?thesis
      by (auto simp: extendByteSlice_def Let_def min_def)
  qed
qed

lemma snd_extendByteSlice:
  assumes "length (fst b) \<le> n" and "\<forall>x \<in> set (snd b). x = 0"
  shows "\<forall>x \<in> set (snd (extendByteSlice grow b n)). x = 0"
  using assms by (auto simp: extendByteSlice_def Let_def dest!: in_set_dropD split: if_splits)

section \<open>Lemmas: jump destinations\<close>

text \<open>\<open>instr_at cd i j\<close>: decoding \<open>cd\<close> instruction by instruction from position \<open>i\<close>, skipping
  the immediate bytes of \<open>PUSH\<close> instructions, an instruction starts at position \<open>j\<close>.\<close>

inductive instr_at :: "byte list \<Rightarrow> nat \<Rightarrow> nat \<Rightarrow> bool" for cd where
  here: "instr_at cd i i"
| skip_push: "isPushOp (cd ! i) \<Longrightarrow> i < length cd \<Longrightarrow>
     instr_at cd (i + (unat (cd ! i) - 94)) j \<Longrightarrow> instr_at cd i j"
| skip_op: "\<not> isPushOp (cd ! i) \<Longrightarrow> i < length cd \<Longrightarrow> instr_at cd (i + 1) j \<Longrightarrow> instr_at cd i j"

lemma instr_at_ge: "instr_at cd i j \<Longrightarrow> i \<le> j"
  by (induction rule: instr_at.induct) auto

lemma instr_at_unfold:
  "instr_at cd i j \<longleftrightarrow> i = j \<or> (i < length cd \<and>
     (if isPushOp (cd ! i) then instr_at cd (i + (unat (cd ! i) - 94)) j else instr_at cd (i + 1) j))"
  by (subst instr_at.simps) auto

lemma bitmap_isSet_set:
  assumes "i div 8 < length buf"
  shows "bitmap_isSet (bitmap_set i buf) j \<longleftrightarrow> i = j \<or> bitmap_isSet buf j"
proof -
  have bit: "x AND 2 ^ (k mod 8) = 0 \<longleftrightarrow> \<not> bit x (k mod 8)" for x :: byte and k
    by (rule and_exp_eq_0_iff_not_bit)
  have "i = j \<longleftrightarrow> i div 8 = j div 8 \<and> i mod 8 = j mod 8"
    by (metis div_mult_mod_eq)
  moreover have "bit (2 ^ (i mod 8) :: byte) (j mod 8) \<longleftrightarrow> i mod 8 = j mod 8"
    by (auto simp: bit_exp_iff)
  ultimately show ?thesis
    using assms
    by (cases "i div 8 = j div 8")
       (auto simp: bitmap_isSet_def bitmap_set_def bitmapSize_def bit bit_or_iff)
qed

lemma length_bitmap_set [simp]: "length (bitmap_set i buf) = length buf"
  by (simp add: bitmap_set_def)

lemma setCode_loop_isSet:
  assumes "length cd div 8 < length buf"
  shows "bitmap_isSet (setCode_loop cd i buf) j \<longleftrightarrow>
         bitmap_isSet buf j \<or> (instr_at cd i j \<and> j < length cd \<and> cd ! j = 0x5B)"
  using assms
proof (induction cd i buf rule: setCode_loop.induct)
  case (1 cd i buf)
  show ?case
  proof (cases "i < length cd")
    case False
    then show ?thesis
      by (auto simp: setCode_loop.simps [of cd i] dest: instr_at_ge)
  next
    case True
    show ?thesis
    proof (cases "isPushOp (cd ! i)")
      case push: True
      then have "cd ! i \<noteq> 0x5B" by (auto simp: isPushOp_iff)
      with True push "1.prems" "1.IH"(1) show ?thesis
        by (subst instr_at_unfold) (auto simp: setCode_loop.simps [of cd i] Let_def unat_push_skip)
    next
      case op: False
      from True have "i div 8 \<le> length cd div 8" by (simp add: div_le_mono)
      then have "i div 8 < length buf" using "1.prems" by linarith
      with True op "1.prems" "1.IH"(2) show ?thesis
        by (subst instr_at_unfold)
           (auto simp: setCode_loop.simps [of cd i] Let_def bitmap_isSet_set)
    qed
  qed
qed

lemma bitmap_isSet_zeros: "j div 8 < n \<Longrightarrow> \<not> bitmap_isSet (replicate n 0) j"
  by (simp add: bitmap_isSet_def bitmapSize_def)


section \<open>Lemmas: memory\<close>

definition mem_inv :: "'h state \<Rightarrow> bool" where
  "mem_inv c \<longleftrightarrow>
     length (memory c) mod 32 = 0 \<and> length (memory c) < 2 ^ 42 \<and>
     lastGasCost c = memGasCost (word_of_nat (length (memory c) div 32)) \<and>
     (\<forall>x \<in> set (memtail c). x = 0)"

lemma memLimit_le_iff: "w \<le> memLimit \<longleftrightarrow> unat w \<le> 0xffffffffe0"
  by (simp add: memLimit_def word_le_nat_alt)

text \<open>The number of words a memory of \<open>newSize\<close> bytes needs, as computed in \<open>uint64\<close>.\<close>

lemma mem_words:
  assumes "off \<le> memLimit" and "s \<le> memLimit"
  shows "unat (off + s) = unat off + unat s"
    and "unat ((off + s + 31) div 32) = (unat off + unat s + 31) div 32"
    and "unat ((off + s + 31) div 32 * 32) = (unat off + unat s + 31) div 32 * 32"
proof -
  have o: "unat off \<le> 0xffffffffe0" and s: "unat s \<le> 0xffffffffe0"
    using assms by (simp_all add: memLimit_le_iff)
  show 1: "unat (off + s) = unat off + unat s"
    using o s by (subst unat_add_lem [THEN iffD1]) simp_all
  have 2: "unat (off + s + 31) = unat off + unat s + 31"
    using o s 1 by (subst unat_add_lem [THEN iffD1]) simp_all
  show 3: "unat ((off + s + 31) div 32) = (unat off + unat s + 31) div 32"
    by (simp add: unat_div 2)
  show "unat ((off + s + 31) div 32 * 32) = (unat off + unat s + 31) div 32 * 32"
    using o s 3 by (subst unat_mult_lem [THEN iffD1]) simp_all
qed

text \<open>The four ways \<open>extendMemory\<close> can end.\<close>

lemma extendMemory_cases:
  assumes ext: "extendMemory offset sz c = (ok, c')"
  obtains
    (overflow) "\<not> ok" "c' = exit_with errGasUintOverflow c"
  | (out_of_gas) l where "\<not> ok" "c' = exit_with ErrOutOfGas (c\<lparr>lastGasCost := l\<rparr>)"
  | (nothing) "ok" "c' = c" "IsUint64 offset" "IsUint64 sz"
      "sz = 0 \<or> unat (word_of_nat (length (memory c)) :: u64) \<ge> nat offset + nat sz"
  | (grow) w where "ok" "IsUint64 offset" "IsUint64 sz" "sz \<noteq> 0"
      "unat w = (nat offset + nat sz + 31) div 32"
      "nat offset + nat sz \<le> 32 * unat w" "unat w * 32 < 2 ^ 42"
      "unat (word_of_nat (length (memory c)) :: u64) < nat offset + nat sz"
      "memGasCost w - lastGasCost c \<le> gas c"
      "c' = c\<lparr>gas := gas c - (memGasCost w - lastGasCost c), lastGasCost := memGasCost w,
              memory := fst (extendByteSlice (growcap c) (memory c, memtail c) (unat w * 32)),
              memtail := snd (extendByteSlice (growcap c) (memory c, memtail c) (unat w * 32))\<rparr>"
proof -
  let ?off = "Uint64 offset" and ?s = "Uint64 sz"
  let ?w = "(?off + ?s + 31) div 32"
  let ?mc = "word_of_nat (length (memory c)) :: u64"
  consider "\<not> IsUint64 offset \<or> \<not> IsUint64 sz"
    | "IsUint64 offset" "IsUint64 sz" "sz = 0"
    | "IsUint64 offset" "IsUint64 sz" "sz \<noteq> 0" "?off > memLimit \<or> ?s > memLimit"
    | "IsUint64 offset" "IsUint64 sz" "sz \<noteq> 0" "\<not> ?off > memLimit" "\<not> ?s > memLimit"
    by fastforce
  then show thesis
  proof cases
    case 1 with ext show ?thesis by (auto simp: extendMemory_def intro: overflow)
  next
    case 2
    with ext have "ok" "c' = c" by (auto simp: extendMemory_def)
    then show ?thesis by (rule nothing) (use 2 in simp_all)
  next
    case 3 with ext show ?thesis by (auto simp: extendMemory_def Let_def intro: overflow)
  next
    case 4
    note lims = 4(4,5) [unfolded not_less]
    note words = mem_words [OF lims]
    have u: "unat ?off = nat offset" "unat ?s = nat sz"
      using 4 by (simp_all add: unat_Uint64)
    show ?thesis
    proof (cases "?mc < ?off + ?s")
      case False
      with 4 ext have same: "ok" "c' = c" by (auto simp: extendMemory_def Let_def)
      from False have fits: "nat offset + nat sz \<le> unat ?mc"
        by (simp add: not_less word_le_nat_alt words u)
      show ?thesis by (rule nothing) (use 4 same fits in simp_all)
    next
      case True
      show ?thesis
      proof (cases "gas c < memGasCost ?w - lastGasCost c")
        case oog: True
        with True 4 ext have "\<not> ok \<and> c' = exit_with ErrOutOfGas (c\<lparr>lastGasCost := memGasCost ?w\<rparr>)"
          by (auto simp: extendMemory_def Let_def consumeGas_def exit_with_def)
        then show ?thesis using out_of_gas by blast
      next
        case enough: False
        have lim: "nat offset \<le> 0xffffffffe0" "nat sz \<le> 0xffffffffe0"
          using lims u by (simp_all add: memLimit_le_iff)
        show ?thesis
        proof (rule grow [of ?w])
          show "ok" "c' = c\<lparr>gas := gas c - (memGasCost ?w - lastGasCost c), lastGasCost := memGasCost ?w,
              memory := fst (extendByteSlice (growcap c) (memory c, memtail c) (unat ?w * 32)),
              memtail := snd (extendByteSlice (growcap c) (memory c, memtail c) (unat ?w * 32))\<rparr>"
            using True 4 ext enough
            by (auto simp: extendMemory_def Let_def consumeGas_def words)
          show "unat ?mc < nat offset + nat sz"
            using True by (simp add: word_less_nat_alt words u)
          show "unat ?w * 32 < 2 ^ 42" using lim by (simp add: words u)
          show "nat offset + nat sz \<le> 32 * unat ?w" by (simp add: words u)
        qed (use 4 enough in \<open>simp_all add: words u not_less\<close>)
      qed
    qed
  qed
qed


lemma unat_length_memory: "mem_inv c \<Longrightarrow> unat (word_of_nat (length (memory c)) :: u64) = length (memory c)"
  by (auto simp: mem_inv_def unat_of_nat)

text \<open>A successful extension covers the requested range, only appends zero bytes, never
  returns gas and keeps the memory invariant.\<close>

lemma extendMemory_success:
  assumes ext: "extendMemory offset sz c = (True, c')" and inv: "mem_inv c"
  shows "mem_inv c'"
    and "memory c' = memory c @ replicate (length (memory c') - length (memory c)) 0"
    and "length (memory c) \<le> length (memory c')"
    and "sz \<noteq> 0 \<Longrightarrow> nat offset + nat sz \<le> length (memory c')"
proof -
  have "mem_inv c' \<and> memory c' = memory c @ replicate (length (memory c') - length (memory c)) 0
        \<and> length (memory c) \<le> length (memory c')
        \<and> (sz \<noteq> 0 \<longrightarrow> nat offset + nat sz \<le> length (memory c'))"
    using ext
  proof (cases rule: extendMemory_cases)
    case nothing
    with inv show ?thesis by (auto simp: unat_length_memory)
  next
    case (grow w)
    have tail: "\<forall>x\<in>set (snd (memory c, memtail c)). x = 0" using inv by (simp add: mem_inv_def)
    have len: "length (fst (memory c, memtail c)) \<le> unat w * 32"
      using grow inv by (simp add: unat_length_memory)
    have mem: "memory c' = memory c @ replicate (unat w * 32 - length (memory c)) 0"
      using grow(10) fst_extendByteSlice [OF len tail] by simp
    have "mem_inv c'"
      using grow(7,10) snd_extendByteSlice [OF len tail] by (simp add: mem_inv_def)
    with mem len grow(6) show ?thesis by simp
  qed simp_all
  then show "mem_inv c'"
    and "memory c' = memory c @ replicate (length (memory c') - length (memory c)) 0"
    and "length (memory c) \<le> length (memory c')"
    and "sz \<noteq> 0 \<Longrightarrow> nat offset + nat sz \<le> length (memory c')"
    by auto
qed

lemma extendMemory_gas: "extendMemory offset sz c = (ok, c') \<Longrightarrow> gas c' \<le> gas c"
proof (erule extendMemory_cases, goal_cases)
  case (4 w)
  from 4(9) have "gas c - (memGasCost w - lastGasCost c) \<le> gas c" by (rule word_sub_le)
  with 4(10) show ?case by simp
qed (simp_all add: exit_with_def)

lemma extendMemory_stop: "extendMemory offset sz c = (False, c') \<Longrightarrow> stop c'"
  by (erule extendMemory_cases) (simp_all add: exit_with_def)

text \<open>What an extension leaves alone.\<close>

lemma extendMemory_frame:
  assumes "extendMemory offset sz c = (ok, c')"
  shows "ip c' = ip c" "code c' = code c" "host c' = host c" "msg c' = msg c" "config c' = config c"
    "stack c' = stack c" "bitbuf c' = bitbuf c" "bittail c' = bittail c"
    "returnData c' = returnData c" "ret c' = ret c" "panicked c' = panicked c" "growcap c' = growcap c"
    "ok \<Longrightarrow> stop c' = stop c" "ok \<Longrightarrow> err c' = err c" "\<not> ok \<Longrightarrow> memory c' = memory c"
  using assms
  by (auto simp: extendMemory_def consumeGas_def exit_with_def Let_def split: if_splits)

lemma bitmap_setCode_isSet:
  assumes "\<forall>x \<in> set (snd b). x = 0" and "fst b = []" and "j < length cd"
  shows "bitmap_isSet (fst (bitmap_setCode grow cd b)) j \<longleftrightarrow> instr_at cd 0 j \<and> cd ! j = 0x5B"
proof -
  let ?n = "Suc (length cd div 8)"
  have z: "fst (extendByteSlice grow b ?n) = replicate ?n 0"
    using fst_extendByteSlice [of b ?n grow] assms by simp
  have "j div 8 < ?n" using assms(3) by (simp add: div_le_mono le_imp_less_Suc)
  then have "\<not> bitmap_isSet (replicate ?n 0) j" by (rule bitmap_isSet_zeros)
  with assms(3) show ?thesis
    by (simp add: bitmap_setCode_def Let_def bitmapSize_def z setCode_loop_isSet del: replicate_Suc)
qed

section \<open>Properties\<close>

text \<open>C11: After \<open>bitmap.setCode\<close> on a cleared bitmap, \<open>validJumpdest\<close> accepts exactly the
  destinations inside the code at which decoding from the start of the code, stepping over the
  immediate bytes of \<open>PUSH\<close> instructions, finds an instruction that is a \<open>JUMPDEST\<close>; data bytes
  that look like one are never accepted, and neither is any oversized destination.\<close>

theorem validJumpdest_correct:
  assumes "bitbuf c = fst (bitmap_setCode grow (code c) ([], tl0))" and "\<forall>x \<in> set tl0. x = 0"
    and "length (code c) \<le> 2 ^ 62" and "0 \<le> dest"
  shows "validJumpdest dest c \<longleftrightarrow>
         dest < int (length (code c)) \<and> instr_at (code c) 0 (nat dest) \<and> code c ! nat dest = 0x5B"
proof (cases "dest < int (length (code c))")
  case True
  with assms(3) have small: "dest < 2 ^ 62" by (simp add: order_less_le_trans)
  then have "BitLen dest \<le> 62" using assms(4) by (simp add: BitLen_le_iff)
  moreover have "IsUint64 dest" using small assms(4) by (simp add: IsUint64_def)
  moreover have "nat dest < length (code c)" using True assms(4) by linarith
  ultimately show ?thesis
    using True assms(1,2) bitmap_setCode_isSet [of "([], tl0)" "nat dest" "code c" grow]
    by (auto simp: validJumpdest_def Let_def unat_Uint64)
next
  case False
  have "\<not> validJumpdest dest c"
  proof (cases "BitLen dest \<ge> 63")
    case True
    then show ?thesis by (simp add: validJumpdest_def Let_def)
  next
    case small: False
    then have "\<bar>dest\<bar> < 2 ^ 62" using BitLen_le_iff [of dest 62] by simp
    then have "IsUint64 dest" using assms(4) by (simp add: IsUint64_def)
    moreover have "length (code c) \<le> nat dest" using False by linarith
    ultimately show ?thesis
      by (simp add: validJumpdest_def Let_def unat_Uint64)
  qed
  with False show ?thesis by simp
qed

theorem validJumpdest_correct_witness:
  "validJumpdest 3 (idle_state\<lparr>code := [0x60, 0x5B, 0x56, 0x5B],
       bitbuf := fst (bitmap_setCode (\<lambda>_ _. 0) [0x60, 0x5B, 0x56, 0x5B] ([], []))\<rparr>)
   \<longleftrightarrow> instr_at [0x60, 0x5B, 0x56, 0x5B] 0 3"
  using validJumpdest_correct [of "idle_state\<lparr>code := [0x60, 0x5B, 0x56, 0x5B],
       bitbuf := fst (bitmap_setCode (\<lambda>_ _. 0) [0x60, 0x5B, 0x56, 0x5B] ([], []))\<rparr>" "\<lambda>_ _. 0" "[]" 3]
  by simp

end
