(* ===== verification/EVM_Arith.thy ===== *)
theory EVM_Arith
  imports EVM_State "HOL-Library.Signed_Division"
begin

text \<open>
  The arithmetic, comparison, bitwise and shift instructions of
  \<open>state/runtime/evm/instructions.go\<close>.  The source computes on \<open>big.Int\<close> values in place and
  truncates with \<open>toU256\<close>; the lemmas show that each instruction computes the operation of
  256-bit words the virtual machine specifies, and that \<open>EXP\<close>'s square-and-multiply loop is
  exponentiation.
\<close>

section \<open>Instructions\<close>

definition tt256 :: int where
  "tt256 = push_bit 256 1"

definition tt256m1 :: int where
  "tt256m1 = tt256 - 1"

definition toU256 :: "int \<Rightarrow> int" where
  "toU256 x = (if x < 0 \<or> BitLen x > 256 then x AND tt256m1 else x)"

definition to256 :: "int \<Rightarrow> int" where
  "to256 x = (if BitLen x > 255 then x - tt256 else x)"

definition opAdd :: "'h state \<Rightarrow> 'h state" where
  "opAdd c = popThen c (\<lambda>a c. topThen c (\<lambda>b. setTop (toU256 (a + b)) c))"

definition opMul :: "'h state \<Rightarrow> 'h state" where
  "opMul c = popThen c (\<lambda>a c. topThen c (\<lambda>b. setTop (toU256 (a * b)) c))"

definition opSub :: "'h state \<Rightarrow> 'h state" where
  "opSub c = popThen c (\<lambda>a c. topThen c (\<lambda>b. setTop (toU256 (a - b)) c))"

definition opDiv :: "'h state \<Rightarrow> 'h state" where
  "opDiv c = popThen c (\<lambda>a c. topThen c (\<lambda>b.
     if sgn b = 0 then setTop 0 c else setTop (toU256 (big_div a b)) c))"

definition opSDiv :: "'h state \<Rightarrow> 'h state" where
  "opSDiv c = popThen c (\<lambda>a0 c. topThen c (\<lambda>b0.
     let a = to256 a0; b = to256 b0 in
     if sgn b = 0 then setTop 0 c
     else
       (let neg = sgn a \<noteq> sgn b; q = big_div \<bar>a\<bar> \<bar>b\<bar>
        in setTop (toU256 (if neg then - q else q)) c)))"

definition opMod :: "'h state \<Rightarrow> 'h state" where
  "opMod c = popThen c (\<lambda>a c. topThen c (\<lambda>b.
     if sgn b = 0 then setTop 0 c else setTop (toU256 (big_mod a b)) c))"

definition opSMod :: "'h state \<Rightarrow> 'h state" where
  "opSMod c = popThen c (\<lambda>a0 c. topThen c (\<lambda>b0.
     let a = to256 a0; b = to256 b0 in
     if sgn b = 0 then setTop 0 c
     else
       (let neg = a < 0; r = big_mod \<bar>a\<bar> \<bar>b\<bar>
        in setTop (toU256 (if neg then - r else r)) c)))"

text \<open>The inner loop of \<open>EXP\<close> over the bits of one 64-bit word of the exponent, and the outer
  loop over its words; the pair is \<open>(z, x)\<close>.  The dynamic price is per byte of the exponent.\<close>

fun opExp_word :: "nat \<Rightarrow> u64 \<Rightarrow> int \<times> int \<Rightarrow> int \<times> int" where
  "opExp_word 0 d zx = zx"
| "opExp_word (Suc i) d (z, x) =
     opExp_word i (drop_bit 1 d) (if d AND 1 = 1 then toU256 (z * x) else z, toU256 (x * x))"

fun opExp_loop :: "u64 list \<Rightarrow> int \<times> int \<Rightarrow> int \<times> int" where
  "opExp_loop [] zx = zx"
| "opExp_loop (d # ds) zx = opExp_loop ds (opExp_word 64 d zx)"

definition expGas :: "ForksInTime \<Rightarrow> int \<Rightarrow> u64" where
  "expGas cfg y = word_of_nat ((BitLen y + 7) div 8) * (if EIP158 cfg then 50 else 10)"

definition opExp :: "'h state \<Rightarrow> 'h state" where
  "opExp c = popThen c (\<lambda>x c. topThen c (\<lambda>y.
     guard (consumeGas (expGas (config c) y) c)
       (\<lambda>c. setTop (fst (opExp_loop (Bits y) (1, x))) c)))"

definition opAddMod :: "'h state \<Rightarrow> 'h state" where
  "opAddMod c = popThen c (\<lambda>a c. popThen c (\<lambda>b c. topThen c (\<lambda>z.
     if sgn z = 0 then setTop 0 c else setTop (toU256 (big_mod (a + b) z)) c)))"

definition opMulMod :: "'h state \<Rightarrow> 'h state" where
  "opMulMod c = popThen c (\<lambda>a c. popThen c (\<lambda>b c. topThen c (\<lambda>z.
     if sgn z = 0 then setTop 0 c else setTop (toU256 (big_mod (a * b) z)) c)))"

definition opAnd :: "'h state \<Rightarrow> 'h state" where
  "opAnd c = popThen c (\<lambda>a c. topThen c (\<lambda>b. setTop (a AND b) c))"

definition opOr :: "'h state \<Rightarrow> 'h state" where
  "opOr c = popThen c (\<lambda>a c. topThen c (\<lambda>b. setTop (a OR b) c))"

definition opXor :: "'h state \<Rightarrow> 'h state" where
  "opXor c = popThen c (\<lambda>a c. topThen c (\<lambda>b. setTop (a XOR b) c))"

text \<open>\<open>sh := (31 - indx) * 8\<close> is \<open>int64\<close> arithmetic, converted to \<open>uint\<close> for the shift.\<close>

definition opByte :: "'h state \<Rightarrow> 'h state" where
  "opByte c = popThen c (\<lambda>x c. topThen c (\<lambda>y.
     let indx = Int64 x in
     if indx > 31 then setTop 0 c
     else
       (let sh = (31 - word_of_int indx) * 8 :: u64
        in setTop (drop_bit (unat sh) y AND 255) c)))"

definition opNot :: "'h state \<Rightarrow> 'h state" where
  "opNot c = topThen c (\<lambda>a. setTop (toU256 (NOT a)) c)"

definition opIsZero :: "'h state \<Rightarrow> 'h state" where
  "opIsZero c = topThen c (\<lambda>a. setTop (if sgn a = 0 then 1 else 0) c)"

definition opEq :: "'h state \<Rightarrow> 'h state" where
  "opEq c = popThen c (\<lambda>a c. topThen c (\<lambda>b. setTop (if a = b then 1 else 0) c))"

definition opLt :: "'h state \<Rightarrow> 'h state" where
  "opLt c = popThen c (\<lambda>a c. topThen c (\<lambda>b. setTop (if a < b then 1 else 0) c))"

definition opGt :: "'h state \<Rightarrow> 'h state" where
  "opGt c = popThen c (\<lambda>a c. topThen c (\<lambda>b. setTop (if a > b then 1 else 0) c))"

definition opSlt :: "'h state \<Rightarrow> 'h state" where
  "opSlt c = popThen c (\<lambda>a c. topThen c (\<lambda>b.
     setTop (if to256 a < to256 b then 1 else 0) c))"

definition opSgt :: "'h state \<Rightarrow> 'h state" where
  "opSgt c = popThen c (\<lambda>a c. topThen c (\<lambda>b.
     setTop (if to256 a > to256 b then 1 else 0) c))"

text \<open>The handler is registered with a stack requirement of one, so \<open>top\<close> may be nil here; the
  source checks for it and returns.\<close>

definition opSignExtension :: "'h state \<Rightarrow> 'h state" where
  "opSignExtension c = popThen c (\<lambda>ext c.
     if ext > 32 then c
     else case top c of
       None \<Rightarrow> c
     | Some x \<Rightarrow>
         (let bt = unat (Uint64 ext * 8 + 7);
              m = push_bit bt 1 - 1
          in setTop (toU256 (if bit x bt then x OR NOT m else x AND m)) c))"

definition equalOrOverflowsUint256 :: "int \<Rightarrow> bool" where
  "equalOrOverflowsUint256 b \<longleftrightarrow> BitLen b > 8"

definition opShl :: "'h state \<Rightarrow> 'h state" where
  "opShl c =
     (if \<not> Constantinople (config c) then exit_with errOpCodeNotFound c
      else popThen c (\<lambda>shift c. topThen c (\<lambda>v.
        if equalOrOverflowsUint256 shift then setTop 0 c
        else setTop (toU256 (push_bit (unat (Uint64 shift)) v)) c)))"

definition opShr :: "'h state \<Rightarrow> 'h state" where
  "opShr c =
     (if \<not> Constantinople (config c) then exit_with errOpCodeNotFound c
      else popThen c (\<lambda>shift c. topThen c (\<lambda>v.
        if equalOrOverflowsUint256 shift then setTop 0 c
        else setTop (toU256 (drop_bit (unat (Uint64 shift)) v)) c)))"

definition opSar :: "'h state \<Rightarrow> 'h state" where
  "opSar c =
     (if \<not> Constantinople (config c) then exit_with errOpCodeNotFound c
      else popThen c (\<lambda>shift c. topThen c (\<lambda>v0.
        let v = to256 v0 in
        if equalOrOverflowsUint256 shift then (if v \<ge> 0 then setTop 0 c else setTop tt256m1 c)
        else setTop (toU256 (drop_bit (unat (Uint64 shift)) v)) c)))"

section \<open>Truncation and sign\<close>

definition u256 :: "int \<Rightarrow> bool" where
  "u256 x \<longleftrightarrow> 0 \<le> x \<and> x < 2 ^ 256"

lemmas stack_defs = popThen_def topThen_def pop_def top_def setTop_def

lemma and_ones: "(y::int) AND (2 ^ n - 1) = y mod 2 ^ n"
  by (simp only: take_bit_eq_mod [symmetric] mask_eq_exp_minus_1 [symmetric] take_bit_eq_mask)

lemma tt256_eq: "tt256 = 2 ^ 256" "tt256m1 = 2 ^ 256 - 1"
  by (simp_all only: tt256m1_def tt256_def push_bit_eq_mult mult_1_left)

lemma bit_top_iff:
  assumes "0 \<le> x" and "x < 2 ^ Suc n"
  shows "bit (x::int) n \<longleftrightarrow> 2 ^ n \<le> x"
proof -
  obtain m where m: "x = int m" using assms(1) nonneg_int_cases by blast
  have "int m < int (2 ^ Suc n)" using assms(2) m by simp
  then have "m < 2 ^ Suc n" by (simp only: of_nat_less_iff)
  then have "m div 2 ^ n < 2" by (simp add: div_less_iff_less_mult)
  then have "odd (m div 2 ^ n) \<longleftrightarrow> 1 \<le> m div 2 ^ n" by (cases "m div 2 ^ n") auto
  also have "\<dots> \<longleftrightarrow> 2 ^ n \<le> m" by (simp add: less_eq_div_iff_mult_less_eq)
  also have "\<dots> \<longleftrightarrow> int (2 ^ n) \<le> int m" by (simp only: of_nat_le_iff)
  finally have "bit m n \<longleftrightarrow> 2 ^ n \<le> x"
    by (simp add: m bit_iff_odd)
  then show ?thesis by (simp add: m bit_of_nat_iff_bit)
qed

lemma toU256_mod [big_simps]: "toU256 x = x mod 2 ^ 256"
proof (cases "x < 0 \<or> BitLen x > 256")
  case True
  then show ?thesis by (simp only: toU256_def tt256_eq and_ones if_True)
next
  case False
  then have "0 \<le> x" "x < 2 ^ 256" by (auto simp: BitLen_gt_iff)
  with False show ?thesis by (simp add: toU256_def)
qed

lemma toU256_uint: "toU256 x = uint (word_of_int x :: 256 word)"
  by (simp add: toU256_mod uint_word_of_int take_bit_eq_mod)

lemma u256_toU256 [simp]: "u256 (toU256 x)"
  by (simp add: u256_def toU256_mod)

lemma u256_uint [simp]: "u256 (uint (a :: 256 word))"
  using uint_lt2p [of a] by (simp add: u256_def)

lemma u256_uint_iff: "u256 x \<longleftrightarrow> (\<exists>a :: 256 word. x = uint a)"
  by (metis u256_uint u256_def toU256_uint toU256_mod mod_pos_pos_trivial)

lemma toU256_of_uint [simp]: "toU256 (uint (w :: 256 word)) = uint w"
  by (simp add: toU256_uint)

lemma to256_0 [simp]: "to256 0 = 0"
  by (simp add: to256_def)

lemma to256_uint: "to256 (uint (a :: 256 word)) = sint a"
proof -
  have s: "sint a = signed_take_bit 255 (uint a)" by (simp add: sint_uint)
  have b: "bit (uint a) 255 \<longleftrightarrow> 2 ^ 255 \<le> uint a"
    using u256_uint [of a] by (intro bit_top_iff) (simp_all add: u256_def)
  show ?thesis
  proof (cases "2 ^ 255 \<le> uint a")
    case True
    have "signed_take_bit 255 (uint a) = take_bit 256 (uint a) - 2 ^ 256"
      using True b by (simp add: signed_take_bit_eq_take_bit_minus)
    also have "take_bit 256 (uint a) = uint a"
      using u256_uint [of a] by (simp only: u256_def take_bit_int_eq_self)
    finally show ?thesis
      using True by (simp add: s to256_def BitLen_gt_iff tt256_eq)
  next
    case False
    have "signed_take_bit 255 (uint a) = take_bit 256 (uint a)"
      using False b by (simp add: signed_take_bit_eq_take_bit_minus)
    also have "take_bit 256 (uint a) = uint a"
      using u256_uint [of a] by (simp only: u256_def take_bit_int_eq_self)
    finally show ?thesis
      using False by (simp add: s to256_def BitLen_gt_iff)
  qed
qed

lemma big_div_nonneg: "0 \<le> a \<Longrightarrow> 0 < b \<Longrightarrow> big_div a b = a div b"
  by (simp add: big_div_def)

lemma sgn_zero_iff [simp]: "sgn (x::int) = 0 \<longleftrightarrow> x = 0"
  by (simp add: sgn_if)

lemma uint_word_of_int_self: "u256 x \<Longrightarrow> uint (word_of_int x :: 256 word) = x"
  by (metis u256_uint_iff word_of_int_uint)

lemma binary_ops:
  fixes a b :: "256 word"
  assumes st: "stack c = uint a # uint b # st"
  shows "opAdd c = c\<lparr>stack := uint (a + b) # st\<rparr>"
    and "opMul c = c\<lparr>stack := uint (a * b) # st\<rparr>"
    and "opSub c = c\<lparr>stack := uint (a - b) # st\<rparr>"
    and "opDiv c = c\<lparr>stack := uint (a div b) # st\<rparr>"
    and "opMod c = c\<lparr>stack := uint (if b = 0 then 0 else a mod b) # st\<rparr>"
    and "opSDiv c = c\<lparr>stack := uint (word_of_int (sint a sdiv sint b) :: 256 word) # st\<rparr>"
    and "opSMod c = c\<lparr>stack := uint (if b = 0 then 0 else word_of_int (sint a smod sint b) :: 256 word) # st\<rparr>"
    and "opAnd c = c\<lparr>stack := uint (a AND b) # st\<rparr>"
    and "opOr c = c\<lparr>stack := uint (a OR b) # st\<rparr>"
    and "opXor c = c\<lparr>stack := uint (a XOR b) # st\<rparr>"
    and "opLt c = c\<lparr>stack := (if a < b then 1 else 0) # st\<rparr>"
    and "opGt c = c\<lparr>stack := (if a > b then 1 else 0) # st\<rparr>"
    and "opSlt c = c\<lparr>stack := (if a <s b then 1 else 0) # st\<rparr>"
    and "opSgt c = c\<lparr>stack := (if b <s a then 1 else 0) # st\<rparr>"
    and "opEq c = c\<lparr>stack := (if a = b then 1 else 0) # st\<rparr>"
proof -
  have b0: "uint b = 0 \<longleftrightarrow> b = 0" by (simp add: uint_0_iff)
  have sb0: "sint b = 0 \<longleftrightarrow> b = 0" by (simp add: signed_eq_0_iff)
  show "opAdd c = c\<lparr>stack := uint (a + b) # st\<rparr>"
    using st by (simp add: opAdd_def stack_defs toU256_uint)
  show "opMul c = c\<lparr>stack := uint (a * b) # st\<rparr>"
    using st by (simp add: opMul_def stack_defs toU256_uint)
  show "opSub c = c\<lparr>stack := uint (a - b) # st\<rparr>"
    using st by (simp add: opSub_def stack_defs toU256_uint)
  show "opDiv c = c\<lparr>stack := uint (a div b) # st\<rparr>"
    using st b0 by (auto simp: opDiv_def stack_defs big_div_def simp flip: uint_div)
  show "opMod c = c\<lparr>stack := uint (if b = 0 then 0 else a mod b) # st\<rparr>"
    using st b0 by (auto simp: opMod_def stack_defs big_mod_def simp flip: uint_mod)
  show "opSDiv c = c\<lparr>stack := uint (word_of_int (sint a sdiv sint b) :: 256 word) # st\<rparr>"
  proof (cases "b = 0")
    case True
    then show ?thesis using st sb0 by (simp add: opSDiv_def stack_defs to256_uint Let_def)
  next
    case False
    then have "(if sgn (sint a) \<noteq> sgn (sint b) then - big_div \<bar>sint a\<bar> \<bar>sint b\<bar>
                else big_div \<bar>sint a\<bar> \<bar>sint b\<bar>) = sint a sdiv sint b"
      using sb0 by (auto simp: big_div_def signed_divide_int_def sgn_if)
    with st sb0 False show ?thesis
      by (simp add: opSDiv_def stack_defs to256_uint Let_def toU256_uint)
  qed
  show "opSMod c = c\<lparr>stack := uint (if b = 0 then 0 else word_of_int (sint a smod sint b) :: 256 word) # st\<rparr>"
  proof (cases "b = 0")
    case True
    then show ?thesis using st sb0 by (simp add: opSMod_def stack_defs to256_uint Let_def)
  next
    case False
    then have "(if sint a < 0 then - big_mod \<bar>sint a\<bar> \<bar>sint b\<bar>
                else big_mod \<bar>sint a\<bar> \<bar>sint b\<bar>) = sint a smod sint b"
      using sb0 by (auto simp: big_mod_def signed_modulo_int_def sgn_if)
    with st sb0 False show ?thesis
      by (simp add: opSMod_def stack_defs to256_uint Let_def toU256_uint)
  qed
  show "opAnd c = c\<lparr>stack := uint (a AND b) # st\<rparr>"
    using st by (simp add: opAnd_def stack_defs uint_and)
  show "opOr c = c\<lparr>stack := uint (a OR b) # st\<rparr>"
    using st by (simp add: opOr_def stack_defs uint_or)
  show "opXor c = c\<lparr>stack := uint (a XOR b) # st\<rparr>"
    using st by (simp add: opXor_def stack_defs uint_xor)
  show "opLt c = c\<lparr>stack := (if a < b then 1 else 0) # st\<rparr>"
    using st by (simp add: opLt_def stack_defs word_less_def)
  show "opGt c = c\<lparr>stack := (if a > b then 1 else 0) # st\<rparr>"
    using st by (simp add: opGt_def stack_defs word_less_def)
  show "opSlt c = c\<lparr>stack := (if a <s b then 1 else 0) # st\<rparr>"
    using st by (simp add: opSlt_def stack_defs to256_uint word_sless_alt)
  show "opSgt c = c\<lparr>stack := (if b <s a then 1 else 0) # st\<rparr>"
    using st by (simp add: opSgt_def stack_defs to256_uint word_sless_alt)
  show "opEq c = c\<lparr>stack := (if a = b then 1 else 0) # st\<rparr>"
    using st by (simp add: opEq_def stack_defs word_uint_eq_iff)
qed


section \<open>Exponentiation\<close>

lemma word_of_int_toU256 [simp]: "word_of_int (toU256 x) = (word_of_int x :: 256 word)"
  by (simp add: toU256_uint)

lemma word_odd_iff: "(d :: u64) AND 1 = 1 \<longleftrightarrow> odd (unat d)"
  by (simp add: and_one_eq odd_iff_mod_2_eq_one word_unat_eq_iff unat_mod)

lemma opExp_word_eq:
  "word_of_int (fst (opExp_word n d zx)) =
     (word_of_int (fst zx) * word_of_int (snd zx) ^ take_bit n (unat d) :: 256 word)"
  "word_of_int (snd (opExp_word n d zx)) = (word_of_int (snd zx) ^ (2 ^ n) :: 256 word)"
proof (induction n d zx rule: opExp_word.induct)
  case (2 i d z x)
  have split: "take_bit (Suc i) (unat d) = unat d mod 2 + 2 * take_bit i (unat (drop_bit 1 d))"
    by (simp add: take_bit_Suc drop_bit_Suc unat_div)
  show "word_of_int (fst (opExp_word (Suc i) d (z, x))) =
     (word_of_int (fst (z, x)) * word_of_int (snd (z, x)) ^ take_bit (Suc i) (unat d) :: 256 word)"
    unfolding split using "2.IH"(1)
    by (simp add: word_odd_iff power_add power_mult power2_eq_square odd_iff_mod_2_eq_one
        even_iff_mod_2_eq_zero mult.assoc)
  show "word_of_int (snd (opExp_word (Suc i) d (z, x))) = (word_of_int (snd (z, x)) ^ 2 ^ Suc i :: 256 word)"
    using "2.IH"(2) by (simp add: power_mult power2_eq_square)
qed simp_all

lemma opExp_loop_eq:
  "word_of_int (fst (opExp_loop (nat_words y) zx)) =
     (word_of_int (fst zx) * word_of_int (snd zx) ^ y :: 256 word)"
proof (induction y arbitrary: zx rule: nat_words.induct)
  case (1 y)
  show ?case
  proof (cases "y = 0")
    case True
    then show ?thesis by (simp add: nat_words.simps [of 0])
  next
    case False
    let ?d = "word_of_nat y :: u64"
    have d: "take_bit 64 (unat ?d) = y mod 2 ^ 64" by (simp add: unat_of_nat take_bit_eq_mod)
    have y: "y = y mod 2 ^ 64 + 2 ^ 64 * (y div 2 ^ 64)" by simp
    have "word_of_int (fst (opExp_loop (nat_words y) zx))
        = (word_of_int (fst zx) * word_of_int (snd zx) ^ (y mod 2 ^ 64)
           * (word_of_int (snd zx) ^ (2 ^ 64)) ^ (y div 2 ^ 64) :: 256 word)"
      using False "1.IH" [OF False]
      by (simp only: nat_words.simps [of y] if_False opExp_loop.simps opExp_word_eq d)
    also have "\<dots> = word_of_int (fst zx) * word_of_int (snd zx) ^ (y mod 2 ^ 64 + 2 ^ 64 * (y div 2 ^ 64))"
      by (simp only: power_add power_mult mult.assoc)
    finally show ?thesis by (simp only: y [symmetric])
  qed
qed

lemma opExp_word_u256: "u256 (fst zx) \<Longrightarrow> u256 (fst (opExp_word n d zx))"
  by (induction n d zx rule: opExp_word.induct) simp_all

lemma opExp_loop_u256: "u256 (fst zx) \<Longrightarrow> u256 (fst (opExp_loop ds zx))"
  by (induction ds zx rule: opExp_loop.induct) (simp_all add: opExp_word_u256)

lemma opExp_correct:
  fixes a b :: "256 word"
  assumes st: "stack c = uint a # uint b # st" and g: "expGas (config c) (uint b) \<le> gas c"
  shows "opExp c = c\<lparr>gas := gas c - expGas (config c) (uint b), stack := uint (a ^ unat b) # st\<rparr>"
proof -
  let ?z = "fst (opExp_loop (Bits (uint b)) (1, uint a))"
  have "word_of_int ?z = (1 * a ^ unat b :: 256 word)"
    by (simp only: Bits_def opExp_loop_eq fst_conv snd_conv) simp
  moreover have "u256 ?z" by (rule opExp_loop_u256) (simp add: u256_def)
  ultimately have "?z = uint (a ^ unat b)"
    by (metis mult_1 uint_word_of_int_self)
  with st g show ?thesis
    by (simp add: opExp_def stack_defs guard_def consumeGas_def Let_def not_less flip: expGas_def)
qed


section \<open>Modular, unary, shift and byte instructions\<close>

lemma big_mod_uint: "z \<noteq> 0 \<Longrightarrow> toU256 (big_mod x (uint (z :: 256 word))) = x mod uint z"
proof -
  assume "z \<noteq> 0"
  then have "0 < uint z" by (simp add: uint_0_iff order_less_le)
  then have "0 \<le> x mod uint z" "x mod uint z < uint z" by simp_all
  moreover have "uint z < 2 ^ 256" using u256_uint [of z] by (simp only: u256_def)
  ultimately have "0 \<le> x mod uint z" "x mod uint z < 2 ^ 256" by linarith+
  then show ?thesis by (simp add: big_mod_def toU256_mod)
qed

lemma modular_ops:
  fixes a b z :: "256 word"
  assumes st: "stack c = uint a # uint b # uint z # st"
  shows "opAddMod c = c\<lparr>stack := (if z = 0 then 0 else (uint a + uint b) mod uint z) # st\<rparr>"
    and "opMulMod c = c\<lparr>stack := (if z = 0 then 0 else (uint a * uint b) mod uint z) # st\<rparr>"
  using st by (auto simp: opAddMod_def opMulMod_def stack_defs uint_0_iff big_mod_uint)

lemma uint_not: "toU256 (NOT (uint a)) = uint (NOT a :: 256 word)"
  by (simp add: toU256_uint of_int_not_eq)

lemma unary_ops:
  fixes a :: "256 word"
  assumes st: "stack c = uint a # st"
  shows "opNot c = c\<lparr>stack := uint (NOT a) # st\<rparr>"
    and "opIsZero c = c\<lparr>stack := (if a = 0 then 1 else 0) # st\<rparr>"
  using st by (simp_all add: opNot_def opIsZero_def stack_defs uint_not uint_0_iff)

lemma signextend_eq:
  "bit x n \<Longrightarrow> (x::int) OR NOT (2 ^ n - 1) = signed_take_bit n x"
  "\<not> bit x n \<Longrightarrow> (x::int) AND (2 ^ n - 1) = signed_take_bit n x"
  by (rule bit_eqI; simp add: bit_signed_take_bit_iff bit_or_iff bit_and_iff bit_not_iff bit_mask_iff
      min_def flip: mask_eq_exp_minus_1; metis le_eq_less_or_eq linorder_not_le)+

lemma opSignExtension_correct:
  fixes k x :: "256 word"
  assumes st: "stack c = uint k # uint x # st"
  shows "opSignExtension c = c\<lparr>stack := uint (if 31 < k then x
           else word_of_int (signed_take_bit (8 * unat k + 7) (uint x)) :: 256 word) # st\<rparr>"
proof (cases "32 < uint k")
  case True
  then have "31 < k" by (simp add: word_less_def)
  with True st show ?thesis by (simp add: opSignExtension_def stack_defs)
next
  case False
  have k: "unat k \<le> 32" using False by (simp add: unat_le_iff_uint)
  have "unat (Uint64 (uint k)) = unat k"
    using False by (subst unat_Uint64) (simp_all add: IsUint64_def)
  with k have bt: "unat (Uint64 (uint k) * 8 + 7) = 8 * unat k + 7"
    by (simp add: unat_word_ariths)
  have self: "signed_take_bit (8 * unat k + 7) (uint x) = uint x" if "31 < k"
  proof (rule signed_take_bit_int_eq_self)
    have "uint x < 2 ^ 256" using u256_uint [of x] by (simp only: u256_def)
    also have "(2::int) ^ 256 \<le> 2 ^ (8 * unat k + 7)"
      using that by (intro power_increasing) (simp_all add: word_less_nat_alt)
    finally show "uint x < 2 ^ (8 * unat k + 7)" .
    show "- (2 ^ (8 * unat k + 7)) \<le> uint x"
      by (rule order_trans [of _ 0]) simp_all
  qed
  from False st self show ?thesis
    by (auto simp: opSignExtension_def stack_defs bt Let_def signextend_eq toU256_uint)
qed

lemma unat_Uint64_small: "unat (s :: 256 word) < 256 \<Longrightarrow> unat (Uint64 (uint s)) = unat s"
proof -
  assume "unat s < 256"
  then have "uint s < 256" by (simp add: unat_less_iff_uint)
  then show ?thesis by (subst unat_Uint64) (simp_all add: IsUint64_def)
qed

lemma overflows_iff: "equalOrOverflowsUint256 (uint (s :: 256 word)) \<longleftrightarrow> 256 \<le> unat s"
proof -
  have "equalOrOverflowsUint256 (uint s) \<longleftrightarrow> 256 \<le> nat (uint s)"
    by (simp add: equalOrOverflowsUint256_def BitLen_gt_iff le_nat_iff del: nat_uint_eq)
  then show ?thesis by (simp only: nat_uint_eq)
qed

lemma drop_bit_sint_large:
  "256 \<le> n \<Longrightarrow> drop_bit n (sint (v :: 256 word)) = (if 0 \<le> sint v then 0 else - 1)"
proof -
  assume n: "256 \<le> n"
  have lo: "- (2 ^ 255) \<le> sint v" and hi: "sint v < 2 ^ 255"
    using sint_greater_eq [of v] sint_less [of v] by simp_all
  have p: "(2::int) ^ 255 < 2 ^ n" using n by (intro power_strict_increasing) simp_all
  show ?thesis
  proof (cases "0 \<le> sint v")
    case True
    with hi p show ?thesis by (simp add: drop_bit_eq_div)
  next
    case False
    then have "sint v div 2 ^ n = - 1"
      using lo p by (intro int_div_pos_eq [where r = "sint v + 2 ^ n"]) auto
    with False show ?thesis by (simp add: drop_bit_eq_div)
  qed
qed

lemma drop_bit_uint: "drop_bit n (uint (v :: 256 word)) = uint (drop_bit n v)"
  by (rule bit_eqI) (auto simp: bit_unsigned_iff bit_drop_bit_eq dest: bit_imp_le_length)

lemma sar_word: "word_of_int (drop_bit n (sint (v :: 256 word))) = signed_drop_bit n v"
  by (simp only: sint_signed_drop_bit_eq [symmetric] of_int_sint scast_id)

lemma uint_sar_large:
  assumes "256 \<le> n"
  shows "uint (signed_drop_bit n (v :: 256 word)) = (if 0 \<le> sint v then 0 else tt256m1)"
proof -
  have "uint (signed_drop_bit n v) = toU256 (drop_bit n (sint v))"
    by (simp only: sar_word toU256_uint)
  also have "drop_bit n (sint v) = (if 0 \<le> sint v then 0 else - 1)"
    using assms by (rule drop_bit_sint_large)
  also have "toU256 (if 0 \<le> sint v then 0 else - 1) = (if 0 \<le> sint v then 0 else tt256m1)"
    by (simp add: toU256_def)
  finally show ?thesis .
qed

lemma shift_ops:
  fixes s v :: "256 word"
  assumes st: "stack c = uint s # uint v # st" and cfg: "Constantinople (config c)"
  shows "opShl c = c\<lparr>stack := uint (push_bit (unat s) v) # st\<rparr>"
    and "opShr c = c\<lparr>stack := uint (drop_bit (unat s) v) # st\<rparr>"
    and "opSar c = c\<lparr>stack := uint (signed_drop_bit (unat s) v) # st\<rparr>"
proof -
  have large: "push_bit (unat s) v = 0" "drop_bit (unat s) v = 0" if "256 \<le> unat s"
    using that by (auto intro!: bit_eqI simp: bit_simps dest: bit_imp_le_length)
  show "opShl c = c\<lparr>stack := uint (push_bit (unat s) v) # st\<rparr>"
    using st cfg large(1)
    by (cases "256 \<le> unat s")
       (simp_all add: opShl_def stack_defs overflows_iff unat_Uint64_small toU256_uint of_int_push_bit)
  show "opShr c = c\<lparr>stack := uint (drop_bit (unat s) v) # st\<rparr>"
    using st cfg large(2)
    by (cases "256 \<le> unat s")
       (simp_all add: opShr_def stack_defs overflows_iff unat_Uint64_small drop_bit_uint)
  show "opSar c = c\<lparr>stack := uint (signed_drop_bit (unat s) v) # st\<rparr>"
  proof (cases "256 \<le> unat s")
    case True
    with st cfg show ?thesis
      by (simp add: opSar_def stack_defs overflows_iff to256_uint uint_sar_large Let_def)
  next
    case False
    with st cfg show ?thesis
      by (simp add: opSar_def stack_defs overflows_iff unat_Uint64_small to256_uint toU256_uint
          sar_word Let_def)
  qed
qed


lemma Int64_small: "0 \<le> x \<Longrightarrow> x < 2 ^ 63 \<Longrightarrow> Int64 x = x"
  by (simp add: Int64_def signed_of_int signed_take_bit_int_eq_self)

lemma byte_shift: "n \<le> 31 \<Longrightarrow> unat ((31 - word_of_nat n) * 8 :: u64) = 8 * (31 - n)"
proof -
  assume "n \<le> 31"
  then have "(31 - word_of_nat n) * 8 = (word_of_nat (8 * (31 - n)) :: u64)"
    by (simp add: of_nat_diff)
  then have "unat ((31 - word_of_nat n) * 8 :: u64) = unat (word_of_nat (8 * (31 - n)) :: u64)"
    by (rule arg_cong)
  also have "\<dots> = 8 * (31 - n)" unfolding unat_of_nat by simp
  finally show ?thesis .
qed

lemma byte_mask: "x AND (255 :: 256 word) = take_bit 8 x"
  by (simp add: take_bit_eq_mask mask_eq_exp_minus_1)

lemma opByte_correct:
  fixes i y :: "256 word"
  assumes st: "stack c = uint i # uint y # st" and small: "uint i < 2 ^ 63"
  shows "opByte c = c\<lparr>stack := uint (if 31 < i then 0
           else drop_bit (8 * (31 - unat i)) y AND 255) # st\<rparr>"
proof -
  have i64: "Int64 (uint i) = uint i" using small by (intro Int64_small) simp_all
  show ?thesis
  proof (cases "31 < i")
    case True
    then have "31 < uint i" by (simp add: word_less_def)
    with True st i64 show ?thesis by (simp add: opByte_def stack_defs)
  next
    case False
    then have le: "unat i \<le> 31" by (simp add: word_less_nat_alt)
    have i: "(word_of_int (uint i) :: u64) = word_of_nat (unat i)" by simp
    have "unat ((31 - word_of_nat (unat i)) * 8 :: u64) = 8 * (31 - unat i)"
      using le by (rule byte_shift)
    moreover have "\<not> 31 < uint i" using False by (simp add: word_less_def)
    ultimately show ?thesis
      using st False i64 i by (simp add: opByte_def stack_defs drop_bit_uint Let_def uint_and)
  qed
qed

lemma opByte_wide_index:
  fixes y :: "256 word"
  assumes st: "stack c = 2 ^ 64 # uint y # st"
  shows "opByte c = c\<lparr>stack := uint (drop_bit 248 y) # st\<rparr>"
proof -
  have "drop_bit 248 y AND 255 = drop_bit 248 y"
    unfolding byte_mask by (rule bit_eqI) (auto simp: bit_simps dest: bit_imp_le_length)
  moreover have "uint (drop_bit 248 y AND 255) = drop_bit 248 (uint y) AND 255"
    by (simp add: uint_and drop_bit_uint)
  ultimately have "drop_bit 248 (uint y) AND 255 = uint (drop_bit 248 y)" by simp
  with st show ?thesis by (simp add: opByte_def stack_defs Int64_def Let_def)
qed

section \<open>Properties\<close>



text \<open>C15: On 256-bit words, \<open>ADDMOD\<close> and \<open>MULMOD\<close> reduce the exact sum and product (not the
  truncated ones) modulo the third operand, \<open>NOT\<close> is the bitwise complement and \<open>ISZERO\<close> tests
  for zero.\<close>

theorem modular_and_unary_instructions_correct:
  fixes a b z :: "256 word"
  assumes "stack c = uint a # uint b # uint z # st"
  shows "opAddMod c = c\<lparr>stack := (if z = 0 then 0 else (uint a + uint b) mod uint z) # st\<rparr>
    \<and> opMulMod c = c\<lparr>stack := (if z = 0 then 0 else (uint a * uint b) mod uint z) # st\<rparr>
    \<and> opNot c = c\<lparr>stack := uint (NOT a) # uint b # uint z # st\<rparr>
    \<and> opIsZero c = c\<lparr>stack := (if a = 0 then 1 else 0) # uint b # uint z # st\<rparr>"
  by (intro conjI modular_ops [OF assms] unary_ops [OF assms])

theorem modular_and_unary_instructions_correct_witness:
  "opAddMod (idle_state\<lparr>stack := [uint (- 1 :: 256 word), uint (2 :: 256 word), uint (7 :: 256 word)]\<rparr>)
   = idle_state\<lparr>stack := [(uint (- 1 :: 256 word) + 2) mod 7]\<rparr>"
  using modular_and_unary_instructions_correct
    [of "idle_state\<lparr>stack := [uint (- 1 :: 256 word), uint (2 :: 256 word), uint (7 :: 256 word)]\<rparr>" "- 1" 2 7 "[]"]
  by simp

text \<open>C13: The square-and-multiply loop of \<open>EXP\<close> computes the power modulo 2 to the 256 and costs
  10 gas (50 after EIP-158) per byte of the exponent.\<close>

theorem exp_instruction_correct:
  fixes a b :: "256 word"
  assumes "stack c = uint a # uint b # st" and "expGas (config c) (uint b) \<le> gas c"
  shows "opExp c = c\<lparr>gas := gas c - expGas (config c) (uint b), stack := uint (a ^ unat b) # st\<rparr>"
  by (rule opExp_correct [OF assms])

theorem exp_instruction_correct_witness:
  "opExp (idle_state\<lparr>stack := [uint (3 :: 256 word), uint (0 :: 256 word)], gas := 7\<rparr>)
   = idle_state\<lparr>stack := [uint (3 ^ 0 :: 256 word)], gas := 7\<rparr>"
  using exp_instruction_correct
    [of "idle_state\<lparr>stack := [uint (3 :: 256 word), uint (0 :: 256 word)], gas := 7\<rparr>" 3 0 "[]"]
  by (simp add: expGas_def)

text \<open>C14: From Constantinople on, \<open>SHL\<close>, \<open>SHR\<close> and \<open>SAR\<close> are the shifts of 256-bit words for
  every shift count, including counts of 256 and more; \<open>SIGNEXTEND\<close> extends the sign from the
  indicated byte and leaves the value alone from byte 31 on.\<close>

theorem shift_instructions_correct:
  fixes s v :: "256 word"
  assumes "stack c = uint s # uint v # st" and "Constantinople (config c)"
  shows "opShl c = c\<lparr>stack := uint (push_bit (unat s) v) # st\<rparr>
    \<and> opShr c = c\<lparr>stack := uint (drop_bit (unat s) v) # st\<rparr>
    \<and> opSar c = c\<lparr>stack := uint (signed_drop_bit (unat s) v) # st\<rparr>
    \<and> opSignExtension c = c\<lparr>stack := uint (if 31 < s then v
         else word_of_int (signed_take_bit (8 * unat s + 7) (uint v)) :: 256 word) # st\<rparr>"
  by (intro conjI shift_ops [OF assms] opSignExtension_correct [OF assms(1)])

theorem shift_instructions_correct_witness:
  "opSar (idle_state\<lparr>stack := [uint (300 :: 256 word), uint (- 5 :: 256 word)]\<rparr>)
   = idle_state\<lparr>stack := [uint (signed_drop_bit 300 (- 5) :: 256 word)]\<rparr>"
  using shift_instructions_correct
    [of "idle_state\<lparr>stack := [uint (300 :: 256 word), uint (- 5 :: 256 word)]\<rparr>" 300 "- 5" "[]"]
  by (simp add: Forks_At_def AllForksEnabled_def forks_active_def Fork_Active_def)

text \<open>C16: For an index below 2 to the 63, \<open>BYTE\<close> returns the indexed byte counted from the most
  significant one, and zero from index 32 on.  The source reads only the low 64 bits of the
  index, as a signed number: the index 2 to the 64 gives the most significant byte, although it
  lies far beyond the 32 bytes of a word.\<close>

theorem byte_instruction:
  fixes i y :: "256 word"
  assumes "stack c = uint i # uint y # st"
  shows "(uint i < 2 ^ 63 \<longrightarrow> opByte c = c\<lparr>stack := uint (if 31 < i then 0
           else drop_bit (8 * (31 - unat i)) y AND 255) # st\<rparr>)
    \<and> (uint i = 2 ^ 64 \<longrightarrow> opByte c = c\<lparr>stack := uint (drop_bit 248 y) # st\<rparr>)"
proof (intro conjI impI)
  assume "uint i < 2 ^ 63"
  with assms show "opByte c = c\<lparr>stack := uint (if 31 < i then 0
           else drop_bit (8 * (31 - unat i)) y AND 255) # st\<rparr>" by (rule opByte_correct)
next
  assume "uint i = 2 ^ 64"
  with assms have "stack c = 2 ^ 64 # uint y # st" by (simp only:)
  then show "opByte c = c\<lparr>stack := uint (drop_bit 248 y) # st\<rparr>" by (rule opByte_wide_index)
qed

theorem byte_instruction_witness:
  "opByte (idle_state\<lparr>stack := [uint (2 ^ 64 :: 256 word), uint (- 1 :: 256 word)]\<rparr>)
   = idle_state\<lparr>stack := [uint (drop_bit 248 (- 1) :: 256 word)]\<rparr>"
  using byte_instruction
    [of "idle_state\<lparr>stack := [uint (2 ^ 64 :: 256 word), uint (- 1 :: 256 word)]\<rparr>" "2 ^ 64" "- 1" "[]"]
  by simp

end
