(* ===== verification/EVM_Env.thy ===== *)
theory EVM_Env
  imports EVM_Arith
begin

text \<open>
  The memory, storage, hashing, context, copy and block-information instructions of
  \<open>state/runtime/evm/instructions.go\<close>.  Instructions that reach the world state take the host
  interface \<open>H\<close>; \<open>SHA3\<close> takes the hash function.  The lemmas show that \<open>MSTORE\<close> and \<open>MLOAD\<close>
  are inverse, what the zero-padding copy of \<open>setBytes\<close> puts in memory, and the price schedule
  of \<open>SSTORE\<close>.
\<close>

section \<open>Memory\<close>

definition wordSize :: int where
  "wordSize = 32"

definition opMload :: "'h state \<Rightarrow> 'h state" where
  "opMload c = popThen c (\<lambda>offset c. get2Then offset wordSize c (\<lambda>tmp c. push (SetBytes tmp) c))"

text \<open>\<open>MSTORE\<close> writes the 64-bit words of the value, least significant first, backwards into a
  32-byte buffer.  The pair holds the index \<open>i\<close> and the buffer; \<open>None\<close> is the panic of an index
  below zero.\<close>

fun mstore_bytes :: "nat \<Rightarrow> u64 \<Rightarrow> nat \<times> byte list \<Rightarrow> (nat \<times> byte list) option" where
  "mstore_bytes 0 d s = Some s"
| "mstore_bytes (Suc j) d (i, buf) =
     (if i = 0 then None
      else mstore_bytes j (drop_bit 8 d) (i - 1, buf[i - 1 := ucast d]))"

fun mstore_words :: "u64 list \<Rightarrow> nat \<times> byte list \<Rightarrow> (nat \<times> byte list) option" where
  "mstore_words [] s = Some s"
| "mstore_words (d # ds) s =
     (case mstore_bytes 8 d s of None \<Rightarrow> None | Some s' \<Rightarrow> mstore_words ds s')"

fun mstore_fill :: "nat \<Rightarrow> byte list \<Rightarrow> byte list" where
  "mstore_fill 0 buf = buf"
| "mstore_fill (Suc i) buf = mstore_fill i (buf[i := 0])"

definition opMStore :: "'h state \<Rightarrow> 'h state" where
  "opMStore c = popThen c (\<lambda>offset c. popThen c (\<lambda>val c.
     guard (extendMemory offset wordSize c) (\<lambda>c.
       let off = unat (Uint64 offset); buf = take 32 (drop off (memory c)) in
       case mstore_words (Bits val) (32, buf) of
         None \<Rightarrow> go_panic c
       | Some (i, buf') \<Rightarrow> c\<lparr>memory := copyInto off (mstore_fill i buf') (memory c)\<rparr>)))"

definition opMStore8 :: "'h state \<Rightarrow> 'h state" where
  "opMStore8 c = popThen c (\<lambda>offset c. popThen c (\<lambda>val c.
     guard (extendMemory offset 1 c) (\<lambda>c.
       c\<lparr>memory := (memory c)[unat (Uint64 offset) := ucast (Uint64 val AND 0xff)]\<rparr>)))"

section \<open>Storage\<close>

definition sloadGas :: "ForksInTime \<Rightarrow> u64" where
  "sloadGas cfg = (if Istanbul cfg then 800 else if EIP150 cfg then 200 else 50)"

definition opSload :: "'h Host \<Rightarrow> 'h state \<Rightarrow> 'h state" where
  "opSload H c = topThen c (\<lambda>loc.
     guard (consumeGas (sloadGas (config c)) c) (\<lambda>c.
       setTop (SetBytes (hash_bytes (GetStorage H (host c) (Address (msg c)) (bigToHash loc)))) c))"

definition sstoreGas :: "ForksInTime \<Rightarrow> StorageStatus \<Rightarrow> u64" where
  "sstoreGas cfg status =
     (let legacyGasMetering = (\<not> Istanbul cfg \<and> (Petersburg cfg \<or> \<not> Constantinople cfg)) in
      case status of
        StorageUnchanged \<Rightarrow> (if Istanbul cfg then 800 else if legacyGasMetering then 5000 else 200)
      | StorageModified \<Rightarrow> 5000
      | StorageModifiedAgain \<Rightarrow> (if Istanbul cfg then 800 else if legacyGasMetering then 5000 else 200)
      | StorageAdded \<Rightarrow> 20000
      | StorageDeleted \<Rightarrow> 5000)"

definition opSStore :: "'h Host \<Rightarrow> 'h state \<Rightarrow> 'h state" where
  "opSStore H c =
     (if inStaticCall c then exit_with errWriteProtection c
      else if Istanbul (config c) \<and> gas c \<le> 2300 then exit_with ErrOutOfGas c
      else popHashThen c (\<lambda>key c. popHashThen c (\<lambda>val c.
        let (status, h) = SetStorage H (host c) (Address (msg c)) key val (config c)
        in snd (consumeGas (sstoreGas (config c) status) (c\<lparr>host := h\<rparr>)))))"

section \<open>Hashing\<close>

definition wordsGas :: "u64 \<Rightarrow> u64 \<Rightarrow> u64" where
  "wordsGas price sz = ((sz + 31) div 32) * price"

definition sha3WordGas :: u64 where
  "sha3WordGas = 6"

definition opSha3 :: "Crypto \<Rightarrow> 'h state \<Rightarrow> 'h state" where
  "opSha3 K c = popThen c (\<lambda>offset c. popThen c (\<lambda>len c.
     get2Then offset len c (\<lambda>tmp c.
       guard (consumeGas (wordsGas sha3WordGas (Uint64 len)) c) (\<lambda>c.
         push (SetBytes (hash_bytes (Keccak256 K tmp))) c))))"

definition opPop :: "'h state \<Rightarrow> 'h state" where
  "opPop c = snd (pop c)"

section \<open>Context\<close>

definition opAddress :: "'h state \<Rightarrow> 'h state" where
  "opAddress c = push (SetBytes (address_bytes (Address (msg c)))) c"

definition balanceGas :: "ForksInTime \<Rightarrow> u64" where
  "balanceGas cfg = (if Istanbul cfg then 700 else if EIP150 cfg then 400 else 20)"

definition opBalance :: "'h Host \<Rightarrow> 'h state \<Rightarrow> 'h state" where
  "opBalance H c = popAddrThen c (\<lambda>addr c.
     guard (consumeGas (balanceGas (config c)) c) (\<lambda>c.
       push (GetBalance H (host c) addr) c))"

definition opSelfBalance :: "'h Host \<Rightarrow> 'h state \<Rightarrow> 'h state" where
  "opSelfBalance H c =
     (if \<not> Istanbul (config c) then exit_with errOpCodeNotFound c
      else push (GetBalance H (host c) (Address (msg c))) c)"

definition opChainID :: "'h Host \<Rightarrow> 'h state \<Rightarrow> 'h state" where
  "opChainID H c =
     (if \<not> Istanbul (config c) then exit_with errOpCodeNotFound c
      else push (uint (word_of_int (ChainID (GetTxContext H (host c))) :: u64)) c)"

definition opOrigin :: "'h Host \<Rightarrow> 'h state \<Rightarrow> 'h state" where
  "opOrigin H c = push (SetBytes (address_bytes (Origin_ctx (GetTxContext H (host c))))) c"

definition opCaller :: "'h state \<Rightarrow> 'h state" where
  "opCaller c = push (SetBytes (address_bytes (Caller (msg c)))) c"

definition opCallValue :: "'h state \<Rightarrow> 'h state" where
  "opCallValue c = push (case Value (msg c) of Some v \<Rightarrow> v | None \<Rightarrow> 0) c"

definition opCallDataLoad :: "'h state \<Rightarrow> 'h state" where
  "opCallDataLoad c = topThen c (\<lambda>offset.
     setTop (SetBytes (setBytesData (Input (msg c)) 32 offset)) c)"

definition uint64_len :: "'a list \<Rightarrow> int" where
  "uint64_len xs = uint (word_of_nat (length xs) :: u64)"

definition opCallDataSize :: "'h state \<Rightarrow> 'h state" where
  "opCallDataSize c = push (uint64_len (Input (msg c))) c"

definition opCodeSize :: "'h state \<Rightarrow> 'h state" where
  "opCodeSize c = push (uint64_len (code c)) c"

definition extCodeGas :: "ForksInTime \<Rightarrow> u64" where
  "extCodeGas cfg = (if EIP150 cfg then 700 else 20)"

definition opExtCodeSize :: "'h Host \<Rightarrow> 'h state \<Rightarrow> 'h state" where
  "opExtCodeSize H c = popAddrThen c (\<lambda>addr c.
     guard (consumeGas (extCodeGas (config c)) c) (\<lambda>c.
       push (uint (word_of_nat (GetCodeSize H (host c) addr) :: u64)) c))"

definition opGasPrice :: "'h Host \<Rightarrow> 'h state \<Rightarrow> 'h state" where
  "opGasPrice H c = push (SetBytes (hash_bytes (GasPrice (GetTxContext H (host c))))) c"

definition opReturnDataSize :: "'h state \<Rightarrow> 'h state" where
  "opReturnDataSize c =
     (if \<not> Byzantium (config c) then exit_with errOpCodeNotFound c
      else push (uint64_len (returnData c)) c)"

definition extCodeHashGas :: "ForksInTime \<Rightarrow> u64" where
  "extCodeHashGas cfg = (if Istanbul cfg then 700 else 400)"

definition opExtCodeHash :: "'h Host \<Rightarrow> 'h state \<Rightarrow> 'h state" where
  "opExtCodeHash H c =
     (if \<not> Constantinople (config c) then exit_with errOpCodeNotFound c
      else popAddrThen c (\<lambda>addr c.
        guard (consumeGas (extCodeHashGas (config c)) c) (\<lambda>c.
          push (if Empty H (host c) addr then 0
                else SetBytes (hash_bytes (GetCodeHash H (host c) addr))) c)))"

definition opPC :: "'h state \<Rightarrow> 'h state" where
  "opPC c = push (uint (word_of_int (ip c) :: u64)) c"

definition opMSize :: "'h state \<Rightarrow> 'h state" where
  "opMSize c = push (uint64_len (memory c)) c"

definition opGas :: "'h state \<Rightarrow> 'h state" where
  "opGas c = push (uint (gas c)) c"

section \<open>Copies\<close>

definition copyGas :: u64 where
  "copyGas = 3"

text \<open>The last step of the copy instructions: nothing is touched when the size is zero, since
  the offset may then lie outside the memory.\<close>

definition copyToMemory :: "int \<Rightarrow> byte list \<Rightarrow> u64 \<Rightarrow> int \<Rightarrow> 'h state \<Rightarrow> 'h state" where
  "copyToMemory memOffset input sz dataOffset c =
     (if sz \<noteq> 0
      then c\<lparr>memory := setBytes (unat (Uint64 memOffset)) input sz dataOffset (memory c)\<rparr>
      else c)"

definition opExtCodeCopy :: "'h Host \<Rightarrow> 'h state \<Rightarrow> 'h state" where
  "opExtCodeCopy H c = popAddrThen c (\<lambda>addr c. popThen c (\<lambda>memOffset c. popThen c (\<lambda>codeOffset c.
     popThen c (\<lambda>len c.
       guard (extendMemory memOffset len c) (\<lambda>c.
       guard (consumeGas (wordsGas copyGas (Uint64 len)) c) (\<lambda>c.
       guard (consumeGas (extCodeGas (config c)) c) (\<lambda>c.
         copyToMemory memOffset (GetCode H (host c) addr) (Uint64 len) codeOffset c)))))))"

definition opCallDataCopy :: "'h state \<Rightarrow> 'h state" where
  "opCallDataCopy c = popThen c (\<lambda>memOffset c. popThen c (\<lambda>dataOffset c. popThen c (\<lambda>len c.
     guard (extendMemory memOffset len c) (\<lambda>c.
     guard (consumeGas (wordsGas copyGas (Uint64 len)) c) (\<lambda>c.
       copyToMemory memOffset (Input (msg c)) (Uint64 len) dataOffset c)))))"

text \<open>\<open>RETURNDATACOPY\<close> has no test for a zero size: \<open>c.memory[memOffset:]\<close> panics when the offset
  lies beyond the memory.\<close>

definition opReturnDataCopy :: "'h state \<Rightarrow> 'h state" where
  "opReturnDataCopy c =
     (if \<not> Byzantium (config c) then exit_with errOpCodeNotFound c
      else popThen c (\<lambda>memOffset c. popThen c (\<lambda>dataOffset c. popThen c (\<lambda>len c.
        guard (extendMemory memOffset len c) (\<lambda>c.
          if \<not> IsUint64 dataOffset then exit_with errGasUintOverflow c
          else guard (consumeGas (wordsGas copyGas (Uint64 len)) c) (\<lambda>c.
            let dataEnd = dataOffset + len in
            if \<not> IsUint64 dataEnd then exit_with errReturnDataOutOfBounds c
            else if word_of_nat (length (returnData c)) < Uint64 dataEnd
            then exit_with errReturnDataOutOfBounds c
            else
              (let start = unat (Uint64 dataOffset);
                   dat = take (unat (Uint64 dataEnd) - start) (drop start (returnData c));
                   off = unat (Uint64 memOffset)
               in if length (memory c) < off then go_panic c
                  else c\<lparr>memory := copyInto off dat (memory c)\<rparr>)))))))"

definition opCodeCopy :: "'h state \<Rightarrow> 'h state" where
  "opCodeCopy c = popThen c (\<lambda>memOffset c. popThen c (\<lambda>dataOffset c. popThen c (\<lambda>len c.
     guard (extendMemory memOffset len c) (\<lambda>c.
     guard (consumeGas (wordsGas copyGas (Uint64 len)) c) (\<lambda>c.
       copyToMemory memOffset (code c) (Uint64 len) dataOffset c)))))"

section \<open>Block information\<close>

definition opBlockHash :: "'h Host \<Rightarrow> 'h state \<Rightarrow> 'h state" where
  "opBlockHash H c = topThen c (\<lambda>num.
     if \<not> IsInt64 num then setTop 0 c
     else
       (let n = Int64 num; lastBlock = Number (GetTxContext H (host c)) in
        if lastBlock - 257 < n \<and> n < lastBlock
        then setTop (SetBytes (hash_bytes (GetBlockHash H (host c) n))) c
        else setTop 0 c))"

definition opCoinbase :: "'h Host \<Rightarrow> 'h state \<Rightarrow> 'h state" where
  "opCoinbase H c = push (SetBytes (address_bytes (Coinbase (GetTxContext H (host c))))) c"

definition opTimestamp :: "'h Host \<Rightarrow> 'h state \<Rightarrow> 'h state" where
  "opTimestamp H c = push (Timestamp (GetTxContext H (host c))) c"

definition opNumber :: "'h Host \<Rightarrow> 'h state \<Rightarrow> 'h state" where
  "opNumber H c = push (Number (GetTxContext H (host c))) c"

definition opDifficulty :: "'h Host \<Rightarrow> 'h state \<Rightarrow> 'h state" where
  "opDifficulty H c = push (SetBytes (hash_bytes (Difficulty (GetTxContext H (host c))))) c"

definition opGasLimit :: "'h Host \<Rightarrow> 'h state \<Rightarrow> 'h state" where
  "opGasLimit H c = push (GasLimit (GetTxContext H (host c))) c"

section \<open>Self-destruction\<close>

definition selfDestructGas :: "'h Host \<Rightarrow> address \<Rightarrow> 'h state \<Rightarrow> u64" where
  "selfDestructGas H addr c =
     (if EIP150 (config c) then
        5000 +
        (if EIP158 (config c)
         then (if Empty H (host c) addr \<and> sgn (GetBalance H (host c) (Address (msg c))) \<noteq> 0
               then 25000 else 0)
         else if \<not> AccountExists H (host c) addr then 25000 else 0)
      else 0)"

definition opSelfDestruct :: "'h Host \<Rightarrow> 'h state \<Rightarrow> 'h state" where
  "opSelfDestruct H c =
     (if inStaticCall c then exit_with errWriteProtection c
      else popAddrThen c (\<lambda>addr c.
        guard (consumeGas (selfDestructGas H addr c) c) (\<lambda>c.
          halt (c\<lparr>host := Selfdestruct H (host c) (Address (msg c)) addr\<rparr>))))"

end
