(* ===== verification/EVM_Opcodes.thy ===== *)
theory EVM_Opcodes
  imports Runtime
begin

text \<open>
  Operation codes (\<open>state/runtime/evm/opcodes.go\<close>).  \<open>OpCode\<close> is a Go \<open>int\<close> that only takes
  the values of a byte; the constants carry the prefix \<open>OP_\<close>.
\<close>

type_synonym OpCode = nat

section \<open>Constants\<close>

abbreviation (input) OP_STOP :: OpCode where "OP_STOP \<equiv> 0x0"
abbreviation (input) OP_ADD :: OpCode where "OP_ADD \<equiv> 0x1"
abbreviation (input) OP_MUL :: OpCode where "OP_MUL \<equiv> 0x2"
abbreviation (input) OP_SUB :: OpCode where "OP_SUB \<equiv> 0x3"
abbreviation (input) OP_DIV :: OpCode where "OP_DIV \<equiv> 0x4"
abbreviation (input) OP_SDIV :: OpCode where "OP_SDIV \<equiv> 0x5"
abbreviation (input) OP_MOD :: OpCode where "OP_MOD \<equiv> 0x6"
abbreviation (input) OP_SMOD :: OpCode where "OP_SMOD \<equiv> 0x7"
abbreviation (input) OP_ADDMOD :: OpCode where "OP_ADDMOD \<equiv> 0x8"
abbreviation (input) OP_MULMOD :: OpCode where "OP_MULMOD \<equiv> 0x9"
abbreviation (input) OP_EXP :: OpCode where "OP_EXP \<equiv> 0xA"
abbreviation (input) OP_SIGNEXTEND :: OpCode where "OP_SIGNEXTEND \<equiv> 0xB"
abbreviation (input) OP_LT :: OpCode where "OP_LT \<equiv> 0x10"
abbreviation (input) OP_GT :: OpCode where "OP_GT \<equiv> 0x11"
abbreviation (input) OP_SLT :: OpCode where "OP_SLT \<equiv> 0x12"
abbreviation (input) OP_SGT :: OpCode where "OP_SGT \<equiv> 0x13"
abbreviation (input) OP_EQ :: OpCode where "OP_EQ \<equiv> 0x14"
abbreviation (input) OP_ISZERO :: OpCode where "OP_ISZERO \<equiv> 0x15"
abbreviation (input) OP_AND :: OpCode where "OP_AND \<equiv> 0x16"
abbreviation (input) OP_OR :: OpCode where "OP_OR \<equiv> 0x17"
abbreviation (input) OP_XOR :: OpCode where "OP_XOR \<equiv> 0x18"
abbreviation (input) OP_NOT :: OpCode where "OP_NOT \<equiv> 0x19"
abbreviation (input) OP_BYTE :: OpCode where "OP_BYTE \<equiv> 0x1A"
abbreviation (input) OP_SHL :: OpCode where "OP_SHL \<equiv> 0x1B"
abbreviation (input) OP_SHR :: OpCode where "OP_SHR \<equiv> 0x1C"
abbreviation (input) OP_SAR :: OpCode where "OP_SAR \<equiv> 0x1D"
abbreviation (input) OP_SHA3 :: OpCode where "OP_SHA3 \<equiv> 0x20"
abbreviation (input) OP_ADDRESS :: OpCode where "OP_ADDRESS \<equiv> 0x30"
abbreviation (input) OP_BALANCE :: OpCode where "OP_BALANCE \<equiv> 0x31"
abbreviation (input) OP_ORIGIN :: OpCode where "OP_ORIGIN \<equiv> 0x32"
abbreviation (input) OP_CALLER :: OpCode where "OP_CALLER \<equiv> 0x33"
abbreviation (input) OP_CALLVALUE :: OpCode where "OP_CALLVALUE \<equiv> 0x34"
abbreviation (input) OP_CALLDATALOAD :: OpCode where "OP_CALLDATALOAD \<equiv> 0x35"
abbreviation (input) OP_CALLDATASIZE :: OpCode where "OP_CALLDATASIZE \<equiv> 0x36"
abbreviation (input) OP_CALLDATACOPY :: OpCode where "OP_CALLDATACOPY \<equiv> 0x37"
abbreviation (input) OP_CODESIZE :: OpCode where "OP_CODESIZE \<equiv> 0x38"
abbreviation (input) OP_CODECOPY :: OpCode where "OP_CODECOPY \<equiv> 0x39"
abbreviation (input) OP_GASPRICE :: OpCode where "OP_GASPRICE \<equiv> 0x3A"
abbreviation (input) OP_EXTCODESIZE :: OpCode where "OP_EXTCODESIZE \<equiv> 0x3B"
abbreviation (input) OP_EXTCODECOPY :: OpCode where "OP_EXTCODECOPY \<equiv> 0x3C"
abbreviation (input) OP_RETURNDATASIZE :: OpCode where "OP_RETURNDATASIZE \<equiv> 0x3D"
abbreviation (input) OP_RETURNDATACOPY :: OpCode where "OP_RETURNDATACOPY \<equiv> 0x3E"
abbreviation (input) OP_EXTCODEHASH :: OpCode where "OP_EXTCODEHASH \<equiv> 0x3F"
abbreviation (input) OP_BLOCKHASH :: OpCode where "OP_BLOCKHASH \<equiv> 0x40"
abbreviation (input) OP_COINBASE :: OpCode where "OP_COINBASE \<equiv> 0x41"
abbreviation (input) OP_TIMESTAMP :: OpCode where "OP_TIMESTAMP \<equiv> 0x42"
abbreviation (input) OP_NUMBER :: OpCode where "OP_NUMBER \<equiv> 0x43"
abbreviation (input) OP_DIFFICULTY :: OpCode where "OP_DIFFICULTY \<equiv> 0x44"
abbreviation (input) OP_GASLIMIT :: OpCode where "OP_GASLIMIT \<equiv> 0x45"
abbreviation (input) OP_CHAINID :: OpCode where "OP_CHAINID \<equiv> 0x46"
abbreviation (input) OP_SELFBALANCE :: OpCode where "OP_SELFBALANCE \<equiv> 0x47"
abbreviation (input) OP_POP :: OpCode where "OP_POP \<equiv> 0x50"
abbreviation (input) OP_MLOAD :: OpCode where "OP_MLOAD \<equiv> 0x51"
abbreviation (input) OP_MSTORE :: OpCode where "OP_MSTORE \<equiv> 0x52"
abbreviation (input) OP_MSTORE8 :: OpCode where "OP_MSTORE8 \<equiv> 0x53"
abbreviation (input) OP_SLOAD :: OpCode where "OP_SLOAD \<equiv> 0x54"
abbreviation (input) OP_SSTORE :: OpCode where "OP_SSTORE \<equiv> 0x55"
abbreviation (input) OP_JUMP :: OpCode where "OP_JUMP \<equiv> 0x56"
abbreviation (input) OP_JUMPI :: OpCode where "OP_JUMPI \<equiv> 0x57"
abbreviation (input) OP_PC :: OpCode where "OP_PC \<equiv> 0x58"
abbreviation (input) OP_MSIZE :: OpCode where "OP_MSIZE \<equiv> 0x59"
abbreviation (input) OP_GAS :: OpCode where "OP_GAS \<equiv> 0x5A"
abbreviation (input) OP_JUMPDEST :: OpCode where "OP_JUMPDEST \<equiv> 0x5B"
abbreviation (input) OP_PUSH1 :: OpCode where "OP_PUSH1 \<equiv> 0x60"
abbreviation (input) OP_PUSH32 :: OpCode where "OP_PUSH32 \<equiv> 0x7F"
abbreviation (input) OP_DUP1 :: OpCode where "OP_DUP1 \<equiv> 0x80"
abbreviation (input) OP_DUP16 :: OpCode where "OP_DUP16 \<equiv> 0x8F"
abbreviation (input) OP_SWAP1 :: OpCode where "OP_SWAP1 \<equiv> 0x90"
abbreviation (input) OP_SWAP16 :: OpCode where "OP_SWAP16 \<equiv> 0x9F"
abbreviation (input) OP_LOG0 :: OpCode where "OP_LOG0 \<equiv> 0xA0"
abbreviation (input) OP_LOG1 :: OpCode where "OP_LOG1 \<equiv> 0xA1"
abbreviation (input) OP_LOG2 :: OpCode where "OP_LOG2 \<equiv> 0xA2"
abbreviation (input) OP_LOG3 :: OpCode where "OP_LOG3 \<equiv> 0xA3"
abbreviation (input) OP_LOG4 :: OpCode where "OP_LOG4 \<equiv> 0xA4"
abbreviation (input) OP_CREATE :: OpCode where "OP_CREATE \<equiv> 0xF0"
abbreviation (input) OP_CALL :: OpCode where "OP_CALL \<equiv> 0xF1"
abbreviation (input) OP_CALLCODE :: OpCode where "OP_CALLCODE \<equiv> 0xF2"
abbreviation (input) OP_RETURN :: OpCode where "OP_RETURN \<equiv> 0xF3"
abbreviation (input) OP_DELEGATECALL :: OpCode where "OP_DELEGATECALL \<equiv> 0xF4"
abbreviation (input) OP_CREATE2 :: OpCode where "OP_CREATE2 \<equiv> 0xF5"
abbreviation (input) OP_STATICCALL :: OpCode where "OP_STATICCALL \<equiv> 0xFA"
abbreviation (input) OP_REVERT :: OpCode where "OP_REVERT \<equiv> 0xFD"
abbreviation (input) OP_SELFDESTRUCT :: OpCode where "OP_SELFDESTRUCT \<equiv> 0xFF"

section \<open>Names\<close>

text \<open>The literal of \<open>var opCodeToString\<close>, to which \<open>init\<close> adds the numbered families.\<close>

definition opCodeToString_literal :: "(OpCode \<times> string) list" where
  "opCodeToString_literal = [
     (OP_STOP, ''STOP''), (OP_ADD, ''ADD''), (OP_MUL, ''MUL''), (OP_SUB, ''SUB''),
     (OP_DIV, ''DIV''), (OP_SDIV, ''SDIV''), (OP_MOD, ''MOD''), (OP_SMOD, ''SMOD''),
     (OP_EXP, ''EXP''), (OP_NOT, ''NOT''), (OP_LT, ''LT''), (OP_GT, ''GT''), (OP_SLT, ''SLT''),
     (OP_SGT, ''SGT''), (OP_EQ, ''EQ''), (OP_ISZERO, ''ISZERO''), (OP_SIGNEXTEND, ''SIGNEXTEND''),
     (OP_AND, ''AND''), (OP_OR, ''OR''), (OP_XOR, ''XOR''), (OP_BYTE, ''BYTE''), (OP_SHL, ''SHL''),
     (OP_SHR, ''SHR''), (OP_SAR, ''SAR''), (OP_ADDMOD, ''ADDMOD''), (OP_MULMOD, ''MULMOD''),
     (OP_SHA3, ''SHA3''), (OP_ADDRESS, ''ADDRESS''), (OP_BALANCE, ''BALANCE''),
     (OP_ORIGIN, ''ORIGIN''), (OP_CALLER, ''CALLER''), (OP_CALLVALUE, ''CALLVALUE''),
     (OP_CALLDATALOAD, ''CALLDATALOAD''), (OP_CALLDATASIZE, ''CALLDATASIZE''),
     (OP_CALLDATACOPY, ''CALLDATACOPY''), (OP_CODESIZE, ''CODESIZE''), (OP_CODECOPY, ''CODECOPY''),
     (OP_GASPRICE, ''GASPRICE''), (OP_EXTCODESIZE, ''EXTCODESIZE''),
     (OP_EXTCODECOPY, ''EXTCODECOPY''), (OP_RETURNDATASIZE, ''RETURNDATASIZE''),
     (OP_RETURNDATACOPY, ''RETURNDATACOPY''), (OP_EXTCODEHASH, ''EXTCODEHASH''),
     (OP_BLOCKHASH, ''BLOCKHASH''), (OP_COINBASE, ''COINBASE''), (OP_TIMESTAMP, ''TIMESTAMP''),
     (OP_NUMBER, ''NUMBER''), (OP_DIFFICULTY, ''DIFFICULTY''), (OP_GASLIMIT, ''GASLIMIT''),
     (OP_POP, ''POP''), (OP_MLOAD, ''MLOAD''), (OP_MSTORE, ''MSTORE''), (OP_MSTORE8, ''MSTORE8''),
     (OP_SLOAD, ''SLOAD''), (OP_SSTORE, ''SSTORE''), (OP_JUMP, ''JUMP''), (OP_JUMPI, ''JUMPI''),
     (OP_PC, ''PC''), (OP_MSIZE, ''MSIZE''), (OP_GAS, ''GAS''), (OP_JUMPDEST, ''JUMPDEST''),
     (OP_CREATE, ''CREATE''), (OP_CALL, ''CALL''), (OP_RETURN, ''RETURN''),
     (OP_CALLCODE, ''CALLCODE''), (OP_DELEGATECALL, ''DELEGATECALL''), (OP_CREATE2, ''CREATE2''),
     (OP_STATICCALL, ''STATICCALL''), (OP_REVERT, ''REVERT''), (OP_SELFDESTRUCT, ''SELFDESTRUCT''),
     (OP_CHAINID, ''CHAINID''), (OP_SELFBALANCE, ''SELFBALANCE'')]"

function decimal :: "nat \<Rightarrow> string" where
  "decimal n = (if n < 10 then [char_of (48 + n)] else decimal (n div 10) @ [char_of (48 + n mod 10)])"
  by pat_completeness auto
termination by (relation "measure id") auto

fun opCodesToString_loop ::
  "nat \<Rightarrow> OpCode \<Rightarrow> string \<Rightarrow> nat \<Rightarrow> (OpCode \<rightharpoonup> string) \<Rightarrow> (OpCode \<rightharpoonup> string)" where
  "opCodesToString_loop 0 i str c m = m"
| "opCodesToString_loop (Suc k) i str c m =
     opCodesToString_loop k (i + 1) str (c + 1) (m(i \<mapsto> str @ decimal c))"

definition opCodesToString ::
  "OpCode \<Rightarrow> OpCode \<Rightarrow> string \<Rightarrow> (OpCode \<rightharpoonup> string) \<Rightarrow> (OpCode \<rightharpoonup> string)" where
  "opCodesToString from to str m =
     opCodesToString_loop (to + 1 - from) from str (if from = OP_LOG0 then 0 else 1) m"

definition opCodeToString :: "OpCode \<rightharpoonup> string" where
  "opCodeToString =
     opCodesToString OP_SWAP1 OP_SWAP16 ''SWAP''
       (opCodesToString OP_LOG0 OP_LOG4 ''LOG''
         (opCodesToString OP_DUP1 OP_DUP16 ''DUP''
           (opCodesToString OP_PUSH1 OP_PUSH32 ''PUSH'' (map_of opCodeToString_literal))))"

definition OpCode_String :: "OpCode \<Rightarrow> string" where
  "OpCode_String op = (case opCodeToString op of Some s \<Rightarrow> s | None \<Rightarrow> [])"

section \<open>Call types\<close>

definition RuntimeType2OpCode :: "CallType \<Rightarrow> OpCode" where
  "RuntimeType2OpCode typ =
     (case typ of Call \<Rightarrow> OP_CALL | CallCode \<Rightarrow> OP_CALLCODE | DelegateCall \<Rightarrow> OP_DELEGATECALL
      | StaticCall \<Rightarrow> OP_STATICCALL | Create \<Rightarrow> OP_CREATE | Create2 \<Rightarrow> OP_CREATE2)"

text \<open>\<open>None\<close> is the panic on any other operation code.\<close>

definition OpCode2RuntimeType :: "OpCode \<Rightarrow> CallType option" where
  "OpCode2RuntimeType op =
     (if op = OP_CALL then Some Call
      else if op = OP_CALLCODE then Some CallCode
      else if op = OP_DELEGATECALL then Some DelegateCall
      else if op = OP_STATICCALL then Some StaticCall
      else if op = OP_CREATE then Some Create
      else if op = OP_CREATE2 then Some Create2
      else None)"

lemma OpCode2RuntimeType_inverse [simp]: "OpCode2RuntimeType (RuntimeType2OpCode ct) = Some ct"
  by (cases ct) (simp_all add: OpCode2RuntimeType_def RuntimeType2OpCode_def)

end
