(* ===== verification/EVM_Control.thy ===== *)
theory EVM_Control
  imports EVM_Env EVM_Opcodes "HOL-Library.Monad_Syntax"
begin

text \<open>
  The control-flow, logging, halting, call and create instructions of
  \<open>state/runtime/evm/instructions.go\<close>.  \<open>CALL\<close> and \<open>CREATE\<close> run another contract through the
  host, which may not return; their result is \<open>None\<close> then.
\<close>

section \<open>Jumps, pushes, duplication and exchange\<close>

definition jumpTo :: "int \<Rightarrow> 'h state \<Rightarrow> 'h state" where
  "jumpTo dest c =
     (if validJumpdest dest c then c\<lparr>ip := sint (Uint64 dest - 1)\<rparr>
      else exit_with errInvalidJump c)"

definition opJump :: "'h state \<Rightarrow> 'h state" where
  "opJump c = popThen c (\<lambda>dest c. jumpTo dest c)"

definition opJumpi :: "'h state \<Rightarrow> 'h state" where
  "opJumpi c = popThen c (\<lambda>dest c. popThen c (\<lambda>cond c.
     if sgn cond \<noteq> 0 then jumpTo dest c else c))"

definition opJumpDest :: "'h state \<Rightarrow> 'h state" where
  "opJumpDest c = c"

text \<open>An immediate operand cut off by the end of the code is followed by \<open>n\<close> zero bytes.\<close>

definition pushData :: "nat \<Rightarrow> byte list \<Rightarrow> nat \<Rightarrow> byte list" where
  "pushData n ins i =
     (if i + 1 + n > length ins then drop (i + 1) ins @ replicate n 0
      else take n (drop (i + 1) ins))"

definition opPush :: "nat \<Rightarrow> 'h state \<Rightarrow> 'h state" where
  "opPush n c =
     (push (SetBytes (pushData n (code c) (nat (ip c)))) c)\<lparr>ip := ip c + int n\<rparr>"

definition opDup :: "nat \<Rightarrow> 'h state \<Rightarrow> 'h state" where
  "opDup n c =
     (if \<not> stackAtLeast n c then exit_with ErrStackUnderflow c
      else case peekAt n c of Some val \<Rightarrow> push val c | None \<Rightarrow> go_panic c)"

definition opSwap :: "nat \<Rightarrow> 'h state \<Rightarrow> 'h state" where
  "opSwap n c =
     (if \<not> stackAtLeast (n + 1) c then exit_with ErrStackUnderflow c else swap n c)"

section \<open>Logs and halting\<close>

fun popTopicsThen :: "nat \<Rightarrow> 'h state \<Rightarrow> (hash list \<Rightarrow> 'h state \<Rightarrow> 'h state) \<Rightarrow> 'h state" where
  "popTopicsThen 0 c k = k [] c"
| "popTopicsThen (Suc n) c k =
     popThen c (\<lambda>v c. popTopicsThen n c (\<lambda>topics c. k (bigToHash v # topics) c))"

definition opLog :: "'h Host \<Rightarrow> nat \<Rightarrow> 'h state \<Rightarrow> 'h state" where
  "opLog H n c =
     (let sz = n - 1 in
      if inStaticCall c then exit_with errWriteProtection c
      else if \<not> stackAtLeast (2 + sz) c then exit_with ErrStackUnderflow c
      else popThen c (\<lambda>mStart c. popThen c (\<lambda>mSize c. popTopicsThen sz c (\<lambda>topics c.
        get2Then mStart mSize c (\<lambda>tmp c.
          guard (consumeGas (word_of_nat sz * 375)
                   (c\<lparr>host := EmitLog H (host c) (Address (msg c)) topics tmp\<rparr>)) (\<lambda>c.
            snd (consumeGas (Uint64 mSize * 8) c)))))))"

definition opStop :: "'h state \<Rightarrow> 'h state" where
  "opStop c = halt c"

definition opHalt :: "OpCode \<Rightarrow> 'h state \<Rightarrow> 'h state" where
  "opHalt op c =
     (if op = OP_REVERT \<and> \<not> Byzantium (config c) then exit_with errOpCodeNotFound c
      else popThen c (\<lambda>offset c. popThen c (\<lambda>sz c.
        case get2 offset sz c of
          ((_, False), c) \<Rightarrow> c\<lparr>ret := []\<rparr>
        | ((d, True), c) \<Rightarrow>
            if op = OP_REVERT then exit_with ErrExecutionReverted (c\<lparr>ret := d\<rparr>)
            else halt (c\<lparr>ret := d\<rparr>))))"

section \<open>Contract creation\<close>

text \<open>\<open>popOr c k\<close> is a pop whose result is used later; \<open>None\<close> is the panic on a nil operand.  The
  handlers are only entered with enough operands on the stack.\<close>

definition popOr :: "'h state \<Rightarrow> (int \<Rightarrow> 'h state \<Rightarrow> 'r option) \<Rightarrow> 'r option" where
  "popOr c k = (case pop c of (None, _) \<Rightarrow> None | (Some v, c') \<Rightarrow> k v c')"

text \<open>The result of building a contract: the contract (or nil), whether an error is returned,
  and the state.\<close>

definition allButOne64th :: "u64 \<Rightarrow> u64" where
  "allButOne64th g = g - g div 64"

definition buildCreate_checked ::
  "'h Host \<Rightarrow> Crypto \<Rightarrow> OpCode \<Rightarrow> int \<Rightarrow> int \<Rightarrow> int \<Rightarrow> int \<Rightarrow> 'h state \<Rightarrow>
   ((Contract option \<times> bool) \<times> 'h state) option" where
  "buildCreate_checked H K op val offset len salt c =
     (case get2 offset len c of
       ((_, False), c) \<Rightarrow> Some ((None, False), c)
     | ((input, True), c) \<Rightarrow>
     case consumeGas 0 c of
       (False, c) \<Rightarrow> Some ((None, False), c)
     | (True, c) \<Rightarrow>
     if sgn val \<noteq> 0 \<and> GetBalance H (host c) (Address (msg c)) < val
     then Some ((None, True), c)
     else
     case (if op = OP_CREATE2 then consumeGas (wordsGas sha3WordGas (Uint64 len)) c else (True, c)) of
       (False, c) \<Rightarrow> Some ((None, False), c)
     | (True, c) \<Rightarrow>
     let g = (if EIP150 (config c) \<or> op = OP_CREATE2 then allButOne64th (gas c) else gas c) in
     case consumeGas g c of
       (False, c) \<Rightarrow> Some ((None, False), c)
     | (True, c) \<Rightarrow>
     let addr = (if op = OP_CREATE
                 then CreateAddress K (Address (msg c)) (GetNonce H (host c) (Address (msg c)))
                 else CreateAddress2 K (Address (msg c)) (bigToHash salt) input)
     in Some ((Some (NewContractCreation (Depth (msg c) + 1) (Origin (msg c)) (Address (msg c))
                       addr (Some val) g input), False), c))"

definition buildCreateContract ::
  "'h Host \<Rightarrow> Crypto \<Rightarrow> OpCode \<Rightarrow> 'h state \<Rightarrow> ((Contract option \<times> bool) \<times> 'h state) option" where
  "buildCreateContract H K op c =
     popOr c (\<lambda>val c. popOr c (\<lambda>offset c. popOr c (\<lambda>len c.
     if op = OP_CREATE2
     then popOr c (\<lambda>salt c. buildCreate_checked H K op val offset len salt c)
     else buildCreate_checked H K op val offset len 0 c)))"

text \<open>Both handlers push zero and give the gas back when building the contract fails with an error.\<close>

definition refundContract :: "Contract option \<Rightarrow> 'h state \<Rightarrow> 'h state" where
  "refundContract contract c =
     (case contract of None \<Rightarrow> push 0 c | Some ct \<Rightarrow> (push 0 c)\<lparr>gas := gas c + Gas ct\<rparr>)"

definition finishCreate :: "OpCode \<Rightarrow> address \<Rightarrow> 'h \<Rightarrow> ExecutionResult \<Rightarrow> 'h state \<Rightarrow> 'h state" where
  "finishCreate op addr h result c =
     (let v = (if op = OP_CREATE \<and> Homestead (config c)
                  \<and> Err result = Some ErrCodeStoreOutOfGas then 0
               else if Failed result \<and> Err result \<noteq> Some ErrCodeStoreOutOfGas then 0
               else SetBytes (address_bytes addr));
          c = push v (c\<lparr>host := h\<rparr>);
          c = c\<lparr>gas := gas c + GasLeft result\<rparr>
      in if Reverted result then c\<lparr>returnData := ReturnValue result\<rparr> else c)"

definition opCreate :: "'h Host \<Rightarrow> Crypto \<Rightarrow> OpCode \<Rightarrow> 'h state \<Rightarrow> 'h state option" where
  "opCreate H K op c =
     (if inStaticCall c then Some (exit_with errWriteProtection c)
      else if op = OP_CREATE2 \<and> \<not> Constantinople (config c) then Some (exit_with errOpCodeNotFound c)
      else
        let c = resetReturnData c in
        case buildCreateContract H K op c of
          None \<Rightarrow> Some (go_panic c)
        | Some ((contract, True), c) \<Rightarrow> Some (refundContract contract c)
        | Some ((None, False), c) \<Rightarrow> Some c
        | Some ((Some contract, False), c) \<Rightarrow>
            Callx H (host c) (contract\<lparr>CType := Create\<rparr>) \<bind> (\<lambda>(h, result).
              Some (finishCreate op (Address contract) h result c)))"

section \<open>Calls\<close>

definition callBaseGas :: "'h Host \<Rightarrow> OpCode \<Rightarrow> address \<Rightarrow> bool \<Rightarrow> 'h state \<Rightarrow> u64" where
  "callBaseGas H op addr transfersValue c =
     (if EIP150 (config c) then 700 else 40)
     + (if op = OP_CALL
        then (if EIP158 (config c)
              then (if transfersValue \<and> Empty H (host c) addr then 25000 else 0)
              else if \<not> AccountExists H (host c) addr then 25000 else 0)
        else 0)
     + (if transfersValue then 9000 else 0)"

text \<open>The gas handed to the callee; \<open>None\<close> is the out-of-gas exit before EIP-150.\<close>

definition callGas :: "'h state \<Rightarrow> int \<Rightarrow> u64 \<Rightarrow> u64 option" where
  "callGas c initialGas gasCost =
     (if EIP150 (config c) then
        (let availableGas = allButOne64th (gas c - gasCost) in
         Some (if \<not> IsUint64 initialGas \<or> availableGas < Uint64 initialGas
               then availableGas else Uint64 initialGas))
      else if \<not> IsUint64 initialGas then None
      else Some (Uint64 initialGas))"

definition callContract ::
  "'h Host \<Rightarrow> OpCode \<Rightarrow> address \<Rightarrow> int option \<Rightarrow> u64 \<Rightarrow> byte list \<Rightarrow> 'h state \<Rightarrow> Contract" where
  "callContract H op addr val g args c =
     (let parent = msg c;
          contract = NewContractCall (Depth parent + 1) (Origin parent) (Address parent) addr val g
                       (GetCode H (host c) addr) args;
          contract = (if op = OP_STATICCALL \<or> Static parent then contract\<lparr>Static := True\<rparr> else contract)
      in if op = OP_CALLCODE \<or> op = OP_DELEGATECALL then
           (let contract = contract\<lparr>Address := Address parent\<rparr> in
            if op = OP_DELEGATECALL
            then contract\<lparr>Value := Value parent, Caller := Caller parent\<rparr> else contract)
         else contract)"

text \<open>\<open>buildCallContract\<close> once its operands are popped.\<close>

definition buildCall_checked ::
  "'h Host \<Rightarrow> OpCode \<Rightarrow> int \<Rightarrow> address \<Rightarrow> int option \<Rightarrow> int \<times> int \<Rightarrow> int \<times> int \<Rightarrow> 'h state \<Rightarrow>
   ((Contract option \<times> u64 \<times> u64 \<times> bool) \<times> 'h state) option" where
  "buildCall_checked H op initialGas addr val inRange retRange c =
     (case get2 (fst inRange) (snd inRange) c of
       ((_, False), c) \<Rightarrow> Some ((None, 0, 0, False), c)
     | ((args, True), c) \<Rightarrow>
     case extendMemory (fst retRange) (snd retRange) c of
       (False, c) \<Rightarrow> Some ((None, 0, 0, False), c)
     | (True, c) \<Rightarrow>
     let transfersValue = ((op = OP_CALL \<or> op = OP_CALLCODE) \<and> val \<noteq> None \<and> sgn (the val) \<noteq> 0);
         gasCost = callBaseGas H op addr transfersValue c in
     case callGas c initialGas gasCost of
       None \<Rightarrow> Some ((None, 0, 0, False), exit_with ErrOutOfGas c)
     | Some g \<Rightarrow>
     case consumeGas (gasCost + g) c of
       (False, c) \<Rightarrow> Some ((None, 0, 0, False), c)
     | (True, c) \<Rightarrow>
     let g = (if transfersValue then g + 2300 else g);
         contract = callContract H op addr val g args c in
     if transfersValue \<and> GetBalance H (host c) (Address (msg c)) < the val
     then Some ((Some contract, 0, 0, True), c)
     else Some ((Some contract, Uint64 (fst retRange), Uint64 (snd retRange), False), c))"

definition buildCallContract ::
  "'h Host \<Rightarrow> OpCode \<Rightarrow> 'h state \<Rightarrow> ((Contract option \<times> u64 \<times> u64 \<times> bool) \<times> 'h state) option" where
  "buildCallContract H op c =
     popOr c (\<lambda>initialGas c. popOr c (\<lambda>b c.
     (if op = OP_CALL \<or> op = OP_CALLCODE then popOr c (\<lambda>val c. Some (Some val, c)) else Some (None, c))
       \<bind> (\<lambda>(val, c).
     popOr c (\<lambda>inOffset c. popOr c (\<lambda>inSize c. popOr c (\<lambda>retOffset c. popOr c (\<lambda>retSize c.
       buildCall_checked H op initialGas (BytesToAddress (Bytes b)) val
         (inOffset, inSize) (retOffset, retSize) c)))))))"

text \<open>\<open>copy(c.memory[offset:offset+size], result.ReturnValue)\<close>: slicing panics beyond the capacity
  of the memory.\<close>

definition copyReturn :: "u64 \<Rightarrow> u64 \<Rightarrow> byte list \<Rightarrow> 'h state \<Rightarrow> 'h state" where
  "copyReturn offset sz d c =
     (if offset + sz < offset \<or> length (memory c @ memtail c) < unat (offset + sz) then go_panic c
      else c\<lparr>memory := copyInto (unat offset) (take (unat sz) d) (memory c)\<rparr>)"

definition finishCall :: "u64 \<Rightarrow> u64 \<Rightarrow> 'h \<Rightarrow> ExecutionResult \<Rightarrow> 'h state \<Rightarrow> 'h state" where
  "finishCall offset sz h result c =
     (let c = push (if Succeeded result then 1 else 0) (c\<lparr>host := h\<rparr>);
          c = (if (Succeeded result \<or> Reverted result) \<and> ReturnValue result \<noteq> []
               then copyReturn offset sz (ReturnValue result) c else c)
      in c\<lparr>gas := gas c + GasLeft result, returnData := ReturnValue result\<rparr>)"

text \<open>The checks before a call: value transfer in a static call, and calls of a later fork.\<close>

definition callForbidden :: "OpCode \<Rightarrow> 'h state \<Rightarrow> vm_error option" where
  "callForbidden op c =
     (if op = OP_CALL \<and> inStaticCall c
         \<and> (case peekAt 3 c of Some val \<Rightarrow> BitLen val > 0 | None \<Rightarrow> False)
      then Some errWriteProtection
      else if op = OP_DELEGATECALL \<and> \<not> Homestead (config c) then Some errOpCodeNotFound
      else if op = OP_STATICCALL \<and> \<not> Byzantium (config c) then Some errOpCodeNotFound
      else None)"

definition opCall :: "'h Host \<Rightarrow> OpCode \<Rightarrow> 'h state \<Rightarrow> 'h state option" where
  "opCall H op c =
     (let c = resetReturnData c in
      case callForbidden op c of
        Some e \<Rightarrow> Some (exit_with e c)
      | None \<Rightarrow>
        case buildCallContract H op c of
          None \<Rightarrow> Some (go_panic c)
        | Some ((contract, _, _, True), c) \<Rightarrow> Some (refundContract contract c)
        | Some ((None, _, _, False), c) \<Rightarrow> Some c
        | Some ((Some contract, offset, sz, False), c) \<Rightarrow>
            (case OpCode2RuntimeType op of
               None \<Rightarrow> Some (go_panic c)
             | Some ct \<Rightarrow>
                 Callx H (host c) (contract\<lparr>CType := ct\<rparr>) \<bind> (\<lambda>(h, result).
                   Some (finishCall offset sz h result c))))"

end
