(* ===== verification/EVM_Run.thy ===== *)
theory EVM_Run
  imports EVM_Control
begin

text \<open>
  The dispatch table (\<open>dispatch_table.go\<close>), the interpreter loop (\<open>state.Run\<close> in \<open>state.go\<close>)
  and the entry point of the virtual machine (\<open>EVM.Run\<close> in \<open>evm.go\<close>).
\<close>

section \<open>Dispatch table\<close>

record 'h handler =
  inst :: "'h state \<Rightarrow> 'h state option"
  hstack :: nat
  hgas :: u64

type_synonym 'h table = "OpCode \<rightharpoonup> 'h handler"

text \<open>\<open>register\<close> panics (\<open>None\<close>) when the operation code already has a handler.\<close>

definition register :: "OpCode \<Rightarrow> 'h handler \<Rightarrow> 'h table \<Rightarrow> 'h table option" where
  "register op h t = (if t op \<noteq> None then None else Some (t(op \<mapsto> h)))"

text \<open>\<open>op1\<close> makes a handler of an instruction that always returns, \<open>opx\<close> of one that may not.\<close>

definition op1 :: "('h state \<Rightarrow> 'h state) \<Rightarrow> nat \<Rightarrow> u64 \<Rightarrow> 'h handler" where
  "op1 f st g = \<lparr>inst = (\<lambda>c. Some (f c)), hstack = st, hgas = g\<rparr>"

definition opx :: "('h state \<Rightarrow> 'h state option) \<Rightarrow> nat \<Rightarrow> u64 \<Rightarrow> 'h handler" where
  "opx f st g = \<lparr>inst = f, hstack = st, hgas = g\<rparr>"

definition registerRange ::
  "OpCode \<Rightarrow> OpCode \<Rightarrow> (nat \<Rightarrow> 'h state \<Rightarrow> 'h state) \<Rightarrow> u64 \<Rightarrow> (OpCode \<times> 'h handler) list" where
  "registerRange from to factory g =
     map (\<lambda>i. (i, op1 (factory (i - from + 1)) 0 g)) [from..<to + 1]"

text \<open>The handlers in the order in which \<open>init\<close> registers them.\<close>

definition registrations :: "'h Host \<Rightarrow> Crypto \<Rightarrow> (OpCode \<times> 'h handler) list" where
  "registrations H K =
    [(OP_STOP, op1 opStop 0 0),
     (OP_ADD, op1 opAdd 2 3), (OP_SUB, op1 opSub 2 3), (OP_MUL, op1 opMul 2 5),
     (OP_DIV, op1 opDiv 2 5), (OP_SDIV, op1 opSDiv 2 5), (OP_MOD, op1 opMod 2 5),
     (OP_SMOD, op1 opSMod 2 5), (OP_EXP, op1 opExp 2 10)]
    @ registerRange OP_PUSH1 OP_PUSH32 opPush 3
    @ registerRange OP_DUP1 OP_DUP16 opDup 3
    @ registerRange OP_SWAP1 OP_SWAP16 opSwap 3
    @ registerRange OP_LOG0 OP_LOG4 (opLog H) 375
    @ [(OP_ADDMOD, op1 opAddMod 3 8), (OP_MULMOD, op1 opMulMod 3 8),
     (OP_AND, op1 opAnd 2 3), (OP_OR, op1 opOr 2 3), (OP_XOR, op1 opXor 2 3),
     (OP_BYTE, op1 opByte 2 3), (OP_NOT, op1 opNot 1 3), (OP_ISZERO, op1 opIsZero 1 3),
     (OP_EQ, op1 opEq 2 3), (OP_LT, op1 opLt 2 3), (OP_GT, op1 opGt 2 3),
     (OP_SLT, op1 opSlt 2 3), (OP_SGT, op1 opSgt 2 3),
     (OP_SIGNEXTEND, op1 opSignExtension 1 5),
     (OP_SHL, op1 opShl 2 3), (OP_SHR, op1 opShr 2 3), (OP_SAR, op1 opSar 2 3),
     (OP_CREATE, opx (opCreate H K OP_CREATE) 3 32000),
     (OP_CREATE2, opx (opCreate H K OP_CREATE2) 4 32000),
     (OP_CALL, opx (opCall H OP_CALL) 7 0), (OP_CALLCODE, opx (opCall H OP_CALLCODE) 7 0),
     (OP_DELEGATECALL, opx (opCall H OP_DELEGATECALL) 6 0),
     (OP_STATICCALL, opx (opCall H OP_STATICCALL) 6 0),
     (OP_REVERT, op1 (opHalt OP_REVERT) 2 0), (OP_RETURN, op1 (opHalt OP_RETURN) 2 0),
     (OP_MLOAD, op1 opMload 1 3), (OP_MSTORE, op1 opMStore 2 3), (OP_MSTORE8, op1 opMStore8 2 3),
     (OP_SLOAD, op1 (opSload H) 1 0), (OP_SSTORE, op1 (opSStore H) 2 0),
     (OP_SHA3, op1 (opSha3 K) 2 30), (OP_POP, op1 opPop 1 2),
     (OP_EXTCODEHASH, op1 (opExtCodeHash H) 1 0),
     (OP_ADDRESS, op1 opAddress 0 2), (OP_BALANCE, op1 (opBalance H) 1 0),
     (OP_SELFBALANCE, op1 (opSelfBalance H) 0 5), (OP_ORIGIN, op1 (opOrigin H) 0 2),
     (OP_CALLER, op1 opCaller 0 2), (OP_CALLVALUE, op1 opCallValue 0 2),
     (OP_CALLDATALOAD, op1 opCallDataLoad 1 3), (OP_CALLDATASIZE, op1 opCallDataSize 0 2),
     (OP_CODESIZE, op1 opCodeSize 0 2), (OP_EXTCODESIZE, op1 (opExtCodeSize H) 1 0),
     (OP_GASPRICE, op1 (opGasPrice H) 0 2), (OP_RETURNDATASIZE, op1 opReturnDataSize 0 2),
     (OP_CHAINID, op1 (opChainID H) 0 2), (OP_PC, op1 opPC 0 2), (OP_MSIZE, op1 opMSize 0 2),
     (OP_GAS, op1 opGas 0 2), (OP_EXTCODECOPY, op1 (opExtCodeCopy H) 4 0),
     (OP_CALLDATACOPY, op1 opCallDataCopy 3 3), (OP_RETURNDATACOPY, op1 opReturnDataCopy 3 3),
     (OP_CODECOPY, op1 opCodeCopy 3 3),
     (OP_BLOCKHASH, op1 (opBlockHash H) 1 20), (OP_COINBASE, op1 (opCoinbase H) 0 2),
     (OP_TIMESTAMP, op1 (opTimestamp H) 0 2), (OP_NUMBER, op1 (opNumber H) 0 2),
     (OP_DIFFICULTY, op1 (opDifficulty H) 0 2), (OP_GASLIMIT, op1 (opGasLimit H) 0 2),
     (OP_SELFDESTRUCT, op1 (opSelfDestruct H) 1 0),
     (OP_JUMP, op1 opJump 1 8), (OP_JUMPI, op1 opJumpi 2 10), (OP_JUMPDEST, op1 opJumpDest 0 1)]"

fun registerAll :: "(OpCode \<times> 'h handler) list \<Rightarrow> 'h table \<Rightarrow> 'h table option" where
  "registerAll [] t = Some t"
| "registerAll ((op, h) # hs) t = register op h t \<bind> registerAll hs"

definition dispatchTable :: "'h Host \<Rightarrow> Crypto \<Rightarrow> 'h table" where
  "dispatchTable H K = map_of (registrations H K)"

section \<open>The interpreter loop\<close>

text \<open>One iteration of the loop of \<open>state.Run\<close>; \<open>None\<close> when a called contract does not return.\<close>

definition run_step :: "'h Host \<Rightarrow> Crypto \<Rightarrow> 'h state \<Rightarrow> 'h state option" where
  "run_step H K c =
     (if ip c \<ge> int (length (code c)) then Some (halt c)
      else
        case dispatchTable H K (unat (code c ! nat (ip c))) of
          None \<Rightarrow> Some (exit_with errOpCodeNotFound c)
        | Some h \<Rightarrow>
            if sp c < hstack h then Some (exit_with ErrStackUnderflow c)
            else
              case consumeGas (hgas h) c of
                (False, c) \<Rightarrow> Some (exit_with ErrOutOfGas c)
              | (True, c) \<Rightarrow>
                  inst h c \<bind> (\<lambda>c. Some
                    (if panicked c then c
                     else if sp c > stackSize then exit_with ErrStackOverflow c
                     else c\<lparr>ip := ip c + 1\<rparr>)))"

partial_function (option) run_loop :: "'h Host \<Rightarrow> Crypto \<Rightarrow> 'h state \<Rightarrow> 'h state option" where
  "run_loop H K c =
     (if stop c \<or> panicked c then Some c else run_step H K c \<bind> run_loop H K)"

text \<open>\<open>state.Run\<close>: the return data, the error and the final state.  A panic is recovered by the
  deferred function, which sets the error; the return data is nil then.\<close>

definition state_Run ::
  "'h Host \<Rightarrow> Crypto \<Rightarrow> 'h state \<Rightarrow> ((byte list \<times> vm_error option) \<times> 'h state) option" where
  "state_Run H K c = run_loop H K c \<bind> (\<lambda>c. Some
     (if panicked c then (([], Some errPanic), c) else ((ret c, err c), c)))"

section \<open>Entry point\<close>

text \<open>\<open>EVM.Run\<close> on a state \<open>s\<close> taken from the pool: the host state, the result, and the state given
  back to the pool.\<close>

definition prepare :: "'h state \<Rightarrow> Contract \<Rightarrow> 'h \<Rightarrow> ForksInTime \<Rightarrow> 'h state" where
  "prepare s ct h cfg =
     (let c = resetReturnData s;
          b = bitmap_setCode (growcap s) (Code ct) (bitbuf s, bittail s)
      in c\<lparr>msg := ct, code := Code ct, gas := Gas ct, host := h, config := cfg,
           bitbuf := fst b, bittail := snd b, panicked := False\<rparr>)"

definition EVM_Run ::
  "'h Host \<Rightarrow> Crypto \<Rightarrow> 'h state \<Rightarrow> Contract \<Rightarrow> 'h \<Rightarrow> ForksInTime \<Rightarrow>
   ('h \<times> ExecutionResult \<times> 'h state) option" where
  "EVM_Run H K s ct h cfg =
     state_Run H K (prepare s ct h cfg) \<bind> (\<lambda>((r, e), c).
       let gasLeft = (if e \<noteq> None \<and> e \<noteq> Some ErrExecutionReverted then 0 else gas c)
       in Some (host c, \<lparr>ReturnValue = r, GasLeft = gasLeft, GasUsed = 0, Err = e\<rparr>, reset c))"

definition EVM_CanRun :: "Contract \<Rightarrow> 'h \<Rightarrow> ForksInTime \<Rightarrow> bool" where
  "EVM_CanRun ct h cfg = True"

end
