(* ===== verification/EVM_Step.thy ===== *)
theory EVM_Step
  imports EVM_Run
begin

text \<open>
  What every instruction keeps: the relation \<open>vm_le\<close> between the state before and after says that
  gas never grows, that code, message, configuration and jump bitmap stay, that the memory
  invariant is kept (unless the machine stops), and that the host state only changes within a
  relation \<open>rel\<close>, which may be stricter in a static call.  Starting from a \<open>sound\<close> state it stays sound, and the
  host state only changes within a second relation \<open>keeps\<close>.  The laws of \<open>rel\<close> for the host operations
  an instruction uses directly are the locale \<open>host_rel\<close>.  There is one lemma per primitive and per instruction, the
  latter obtained by backwards chaining with the collection \<open>step_intros\<close>.  \<open>progress\<close> says that
  a step stops the machine or consumes gas.
\<close>

named_theorems step_intros

section \<open>The step relation\<close>

text \<open>In a \<open>sound\<close> state everything an instruction can read as a number is non-negative, by the predicate
  \<open>fine\<close> for the host, so that no instruction can make a negative value to transfer.\<close>

definition valueOf :: "Contract \<Rightarrow> int" where
  "valueOf ct = (case Value ct of Some v \<Rightarrow> v | None \<Rightarrow> 0)"

definition sound :: "('h \<Rightarrow> bool) \<Rightarrow> 'h state \<Rightarrow> bool" where
  "sound fine c \<longleftrightarrow> fine (host c) \<and> 0 \<le> valueOf (msg c) \<and> list_all ((\<le>) 0) (stack c)"

lemma sound_update [simp]:
  "sound fine (c\<lparr>gas := g\<rparr>) = sound fine c" "sound fine (c\<lparr>ip := i\<rparr>) = sound fine c" "sound fine (c\<lparr>ret := d\<rparr>) = sound fine c"
  "sound fine (c\<lparr>returnData := d\<rparr>) = sound fine c" "sound fine (c\<lparr>memory := d\<rparr>) = sound fine c"
  "sound fine (halt c) = sound fine c" "sound fine (exit_with e c) = sound fine c" "sound fine (go_panic c) = sound fine c"
  by (simp_all add: sound_def halt_def exit_with_def go_panic_def)

definition vm_le :: "(bool \<Rightarrow> 'h \<Rightarrow> 'h \<Rightarrow> bool) \<Rightarrow> ('h \<Rightarrow> bool) \<Rightarrow> ('h \<Rightarrow> 'h \<Rightarrow> bool) \<Rightarrow> 'h state \<Rightarrow> 'h state \<Rightarrow> bool" where
  "vm_le rel fine keeps c c' \<longleftrightarrow>
     gas c' \<le> gas c \<and> msg c' = msg c \<and> config c' = config c \<and> code c' = code c \<and>
     bitbuf c' = bitbuf c \<and> bittail c' = bittail c \<and> growcap c' = growcap c \<and>
     (mem_inv c \<longrightarrow> mem_inv c' \<or> stop c') \<and> (stop c \<longrightarrow> stop c') \<and>
     rel (Static (msg c)) (host c) (host c') \<and>
     (sound fine c \<longrightarrow> sound fine c' \<and> keeps (host c) (host c'))"

definition progress :: "'h state \<Rightarrow> 'h state \<Rightarrow> bool" where
  "progress c c' \<longleftrightarrow> stop c' \<or> panicked c' \<or> gas c' < gas c"

section \<open>Primitives\<close>

lemma exit_with_simps [simp]:
  "stop (exit_with e c)" "err (exit_with e c) = Some e" "gas (exit_with e c) = gas c"
  "panicked (exit_with e c) = panicked c" "host (exit_with e c) = host c" "stack (exit_with e c) = stack c"
  by (simp_all add: exit_with_def)

lemma mem_inv_cong:
  "length (memory c') = length (memory c) \<Longrightarrow> lastGasCost c' = lastGasCost c \<Longrightarrow> memtail c' = memtail c \<Longrightarrow>
   mem_inv c' = mem_inv c"
  by (simp add: mem_inv_def)

lemma length_copyInto [simp]: "length (copyInto off d m) = length m"
  by (auto simp: copyInto_def min_def)

lemma popOr_SomeE:
  assumes "popOr c k = Some r"
  obtains v st where "stack c = v # st" "k v (c\<lparr>stack := st\<rparr>) = Some r"
  using assms by (auto simp: popOr_def pop_def split: list.splits)

lemma consumeGas_cases:
  obtains (short) "gas c < g" "consumeGas g c = (False, exit_with ErrOutOfGas c)"
  | (paid) "g \<le> gas c" "consumeGas g c = (True, c\<lparr>gas := gas c - g\<rparr>)"
  by (cases "gas c < g") (auto simp: consumeGas_def not_less)

lemma popValueE:
  assumes "((if b then popOr c (\<lambda>v c. Some (Some v, c)) else Some (None, c)) \<bind> k) = Some r"
  obtains val st where "k (val, c\<lparr>stack := st\<rparr>) = Some r"
    "b \<Longrightarrow> val \<noteq> None \<and> stack c = the val # st" "\<not> b \<Longrightarrow> val = None \<and> st = stack c"
proof (cases b)
  case True
  with assms have "(popOr c (\<lambda>v c. Some (Some v, c)) \<bind> k) = Some r" by simp
  then obtain v st where "stack c = v # st" "k (Some v, c\<lparr>stack := st\<rparr>) = Some r"
    by (auto simp: popOr_def pop_def split: list.splits)
  with True show ?thesis by (intro that [of "Some v" st]) simp_all
next
  case False
  with assms show ?thesis by (intro that [of None "stack c"]) simp_all
qed

lemma if_same_contract:
  "(if b then Some ((x, off1, sz1, e1), c) else Some ((x, off2, sz2, e2), c)) = Some ((ct, off, sz, e), c')
   \<Longrightarrow> ct = x \<and> c' = c"
  by (simp split: if_splits)

lemma u64_sub_less: "g \<noteq> 0 \<Longrightarrow> g \<le> x \<Longrightarrow> x - g < (x :: u64)"
proof -
  assume "g \<noteq> 0" "g \<le> x"
  moreover then have "0 < unat g" by (simp add: unat_gt_0)
  ultimately show ?thesis by (simp add: word_less_nat_alt word_le_nat_alt unat_sub)
qed

lemma progress_stops [simp, intro]: "progress c (exit_with e c')" "progress c (halt c')" "progress c (go_panic c')"
  by (simp_all add: progress_def halt_def go_panic_def)

lemma progress_topThen: "(\<And>v. progress c0 (k v)) \<Longrightarrow> progress c0 (topThen c k)"
  by (auto simp: topThen_def split: option.splits)

section \<open>Gas of calls\<close>

lemma callBaseGas_le: "unat (callBaseGas H op addr tv c) \<le> 34700"
  by (simp add: callBaseGas_def)

lemma callBaseGas_ge:
  "EIP150 (config c) \<Longrightarrow> 700 + (if tv then 9000 else 0) \<le> unat (callBaseGas H op addr tv c)"
  by (simp add: callBaseGas_def)

lemma unat_allButOne64th: "unat (allButOne64th g) = unat g - unat g div 64"
  by (simp add: allButOne64th_def unat_sub unat_div word_le_nat_alt)

text \<open>Under EIP-150 the sum of the call price and the gas handed on never wraps around, even when
  the price exceeds the gas available and the subtraction in between does.\<close>

lemma callGas_no_wrap:
  assumes "EIP150 (config c)" and g: "callGas c initialGas gc = Some g" and gc: "unat gc \<le> 34700"
  shows "unat (gc + g) = unat gc + unat g"
proof -
  let ?A = "gas c - gc"
  have "g \<le> allButOne64th ?A"
    using assms(1) g by (auto simp: callGas_def Let_def not_less split: if_splits)
  then have le: "unat g \<le> unat ?A - unat ?A div 64"
    by (simp add: word_le_nat_alt unat_allButOne64th)
  have "unat gc + unat g < 2 ^ 64"
  proof (cases "gc \<le> gas c")
    case True
    then have "unat ?A + unat gc = unat (gas c)" by (simp add: unat_sub word_le_nat_alt)
    with le unat_lt_2p [of "gas c"] show ?thesis by simp
  next
    case False
    then have "unat (gas c) < unat gc" by (simp add: word_less_nat_alt not_le)
    with gc have "unat ?A div 64 \<ge> 34700"
      by (simp add: unat_sub_if_size word_size)
    moreover have "unat ?A < 2 ^ 64" using unat_lt_2p [of ?A] by simp
    ultimately show ?thesis using le gc by linarith
  qed
  then show ?thesis by (simp add: unat_word_ariths)
qed

lemma callContract_simps [simp]:
  "Gas (callContract H op addr val g args c) = g"
  "Depth (callContract H op addr val g args c) = Depth (msg c) + 1"
  "Static (callContract H op addr val g args c) \<longleftrightarrow> op = OP_STATICCALL \<or> Static (msg c)"
  by (simp_all add: callContract_def Let_def NewContractCall_def NewContract_def)

text \<open>What the caller has left after paying for a call, plus the callee's gas.\<close>

lemma call_gas_sum:
  assumes eip: "EIP150 (config c1)"
    and g: "callGas c1 initialGas (callBaseGas H op addr tv c1) = Some g"
    and paid: "callBaseGas H op addr tv c1 + g \<le> gas c1"
    and left: "unat gl \<le> unat g + (if tv then 2300 else 0)"
  shows "gas c1 - (callBaseGas H op addr tv c1 + g) + gl < gas c1"
proof -
  let ?b = "callBaseGas H op addr tv c1"
  have s: "unat (?b + g) = unat ?b + unat g"
    using eip g callBaseGas_le by (rule callGas_no_wrap)
  have d: "unat (gas c1 - (?b + g)) = unat (gas c1) - (unat ?b + unat g)"
    using paid s by (simp add: unat_sub)
  have le: "unat ?b + unat g \<le> unat (gas c1)" using paid s by (simp add: word_le_nat_alt)
  have "unat (gas c1 - (?b + g)) + unat gl < unat (gas c1)"
    using d le left callBaseGas_ge [OF eip, of tv H op addr] by (auto split: if_splits)
  moreover from this have "unat (gas c1 - (?b + g) + gl) = unat (gas c1 - (?b + g)) + unat gl"
    using unat_lt_2p [of "gas c1"] by (simp add: unat_word_ariths)
  ultimately show ?thesis by (simp add: word_less_nat_alt)
qed

lemma callee_gas:
  "gas c1 \<ge> g \<Longrightarrow> unat (if tv then g + 2300 else g) \<le> unat (g::u64) + (if tv then 2300 else 0)"
  using unat_plus_simple by (auto simp: unat_word_ariths)

lemma big_nonneg [simp]:
  "0 \<le> toU256 x" "0 \<le> SetBytes bs" "0 \<le> uint64_len xs" "0 \<le> tt256m1"
  by (simp_all add: toU256_def tt256m1_def tt256_def SetBytes_def uint64_len_def)

lemma opExp_nonneg: "0 \<le> fst zx \<Longrightarrow> 0 \<le> fst (opExp_loop ds zx)"
proof -
  have w: "0 \<le> fst zx \<Longrightarrow> 0 \<le> fst (opExp_word n d zx)" for n d zx
    by (induction n d zx rule: opExp_word.induct) auto
  show "0 \<le> fst zx \<Longrightarrow> 0 \<le> fst (opExp_loop ds zx)"
    by (induction ds zx rule: opExp_loop.induct) (simp_all add: w)
qed

section \<open>The step relation of the instructions\<close>

locale host_rel =
  fixes H :: "'h Host" and rel :: "bool \<Rightarrow> 'h \<Rightarrow> 'h \<Rightarrow> bool"
    and fine :: "'h \<Rightarrow> bool" and keeps :: "'h \<Rightarrow> 'h \<Rightarrow> bool"
  assumes rel_refl: "rel s h h"
    and rel_trans: "rel s h1 h2 \<Longrightarrow> rel s h2 h3 \<Longrightarrow> rel s h1 h3"
    and SetStorage_rel: "rel False h (snd (SetStorage H h a k v cfg))"
    and Selfdestruct_rel: "rel False h (Selfdestruct H h a b)"
    and EmitLog_rel: "rel False h (EmitLog H h a ts d)"
    and keeps_refl: "keeps h h"
    and keeps_trans: "keeps h1 h2 \<Longrightarrow> keeps h2 h3 \<Longrightarrow> keeps h1 h3"
    and fine_keeps: "fine h \<Longrightarrow> keeps h h' \<Longrightarrow> fine h'"
    and SetStorage_keeps: "fine h \<Longrightarrow> keeps h (snd (SetStorage H h a k v cfg))"
    and Selfdestruct_keeps: "fine h \<Longrightarrow> keeps h (Selfdestruct H h a b)"
    and EmitLog_keeps: "fine h \<Longrightarrow> keeps h (EmitLog H h a ts d)"
    and fine_reads: "fine h \<Longrightarrow> 0 \<le> GetBalance H h a \<and> 0 \<le> Timestamp (GetTxContext H h) \<and>
      0 \<le> Number (GetTxContext H h) \<and> 0 \<le> GasLimit (GetTxContext H h)"
begin

abbreviation step_le :: "'h state \<Rightarrow> 'h state \<Rightarrow> bool" where
  "step_le \<equiv> vm_le rel fine keeps"

abbreviation safe :: "'h state \<Rightarrow> bool" where
  "safe \<equiv> sound fine"

lemma step_le_refl [simp, intro!]: "step_le c c"
  by (simp add: vm_le_def rel_refl keeps_refl)

lemma step_le_trans [trans]: "step_le a b \<Longrightarrow> step_le b c \<Longrightarrow> step_le a c"
  using rel_trans [of "Static (msg a)" "host a" "host b" "host c"] keeps_trans [of "host a" "host b" "host c"]
  by (auto simp: vm_le_def)

text \<open>What a sound start says about the states that are reached.\<close>

lemma safe_step: "step_le c0 c \<Longrightarrow> safe c0 \<Longrightarrow> safe c"
  unfolding vm_le_def by blast

lemma safe_reads:
  assumes "step_le c0 c" and "safe c0"
  shows "0 \<le> GetBalance H (host c) a" "0 \<le> Timestamp (GetTxContext H (host c))" "0 \<le> Number (GetTxContext H (host c))"
    "0 \<le> GasLimit (GetTxContext H (host c))" "0 \<le> valueOf (msg c)" "fine (host c)" "list_all ((\<le>) 0) (stack c)"
  using safe_step [OF assms] fine_reads [of "host c" a] unfolding sound_def by blast+

text \<open>Updates of fields the relation does not constrain.\<close>

lemma step_le_stack:
  "step_le c0 c \<Longrightarrow> (safe c0 \<Longrightarrow> list_all ((\<le>) 0) st) \<Longrightarrow> step_le c0 (c\<lparr>stack := st\<rparr>)"
  by (cases "safe c0") (simp_all add: vm_le_def mem_inv_def sound_def)

lemma step_le_update [step_intros]:
  "step_le c0 c \<Longrightarrow> step_le c0 (c\<lparr>ip := i\<rparr>)"
  "step_le c0 c \<Longrightarrow> step_le c0 (c\<lparr>ret := d\<rparr>)"
  "step_le c0 c \<Longrightarrow> step_le c0 (c\<lparr>returnData := d\<rparr>)"
  "step_le c0 c \<Longrightarrow> length m = length (memory c) \<Longrightarrow> step_le c0 (c\<lparr>memory := m\<rparr>)"
  by (simp_all add: vm_le_def mem_inv_def sound_def)

lemma step_le_suffix: "step_le c0 c \<Longrightarrow> set st \<subseteq> set (stack c) \<Longrightarrow> step_le c0 (c\<lparr>stack := st\<rparr>)"
  using safe_reads(7) [of c0 c] by (intro step_le_stack) (auto simp: list_all_iff)

lemma step_le_host [step_intros]:
  "step_le c0 c \<Longrightarrow> \<not> Static (msg c0) \<Longrightarrow> rel False (host c) h \<Longrightarrow> (safe c0 \<Longrightarrow> keeps (host c) h) \<Longrightarrow> step_le c0 (c\<lparr>host := h\<rparr>)"
  using fine_keeps [of "host c" h] keeps_trans [of "host c0" "host c" h] rel_trans [of False "host c0" "host c" h]
  by (simp add: vm_le_def mem_inv_def sound_def)

lemma step_le_prims [step_intros]:
  assumes "step_le c0 c"
  shows "step_le c0 (halt c)" "step_le c0 (exit_with e c)" "step_le c0 (go_panic c)"
    "(safe c0 \<Longrightarrow> 0 \<le> v) \<Longrightarrow> step_le c0 (push v c)" "(safe c0 \<Longrightarrow> 0 \<le> v) \<Longrightarrow> step_le c0 (setTop v c)"
    "step_le c0 (resetReturnData c)" "step_le c0 (swap n c)"
proof -
  show "step_le c0 (halt c)" "step_le c0 (exit_with e c)" "step_le c0 (go_panic c)" "step_le c0 (resetReturnData c)"
    using assms by (simp_all add: vm_le_def mem_inv_def sound_def halt_def exit_with_def go_panic_def resetReturnData_def)
  show "step_le c0 (push v c)" if "safe c0 \<Longrightarrow> 0 \<le> v"
    using step_le_stack [OF assms, of "v # stack c"] safe_reads(7) [OF assms] that by (simp add: push_def)
  show "step_le c0 (setTop v c)" if "safe c0 \<Longrightarrow> 0 \<le> v"
    using step_le_stack [OF assms, of "v # tl (stack c)"] safe_reads(7) [OF assms] that
    by (cases "stack c") (simp_all add: setTop_def)
  have "step_le c0 (go_panic c)" using assms by (simp add: vm_le_def mem_inv_def sound_def go_panic_def)
  moreover have "step_le c0 (c\<lparr>stack := (stack c)[0 := stack c ! n, n := stack c ! 0]\<rparr>)" if "n < sp c"
  proof (intro step_le_suffix [OF assms] subsetI)
    fix x assume "x \<in> set ((stack c)[0 := stack c ! n, n := stack c ! 0])"
    then have "x = stack c ! 0 \<or> x = stack c ! n \<or> x \<in> set (stack c)"
      by (auto dest!: set_update_subset_insert [THEN subsetD])
    moreover have "0 < sp c" using that by linarith
    ultimately show "x \<in> set (stack c)" using that by auto
  qed
  ultimately show "step_le c0 (swap n c)" by (simp add: swap_def)
qed

lemma step_le_tl:
  assumes "step_le c0 c" and "stack c = v # st"
  shows "step_le c0 (c\<lparr>stack := st\<rparr>)" "safe c0 \<Longrightarrow> 0 \<le> v"
  using step_le_suffix [OF assms(1), of st] safe_reads(7) [OF assms(1)] assms(2) by auto

lemma step_le_pop [step_intros]: "step_le c0 c \<Longrightarrow> step_le c0 (snd (pop c))"
  by (cases "stack c") (simp_all add: pop_def step_le_tl(1))

lemma step_le_popThen [step_intros]:
  "step_le c0 c \<Longrightarrow> (\<And>v c'. step_le c0 c' \<Longrightarrow> (safe c0 \<Longrightarrow> 0 \<le> v) \<Longrightarrow> step_le c0 (k v c')) \<Longrightarrow> step_le c0 (popThen c k)"
  by (cases "stack c") (simp_all add: popThen_def pop_def step_le_prims step_le_tl)

lemma step_le_topThen [step_intros]:
  "step_le c0 c \<Longrightarrow> (\<And>v. (safe c0 \<Longrightarrow> 0 \<le> v) \<Longrightarrow> step_le c0 (k v)) \<Longrightarrow> step_le c0 (topThen c k)"
  by (cases "stack c") (simp_all add: topThen_def top_def step_le_prims step_le_tl(2))

lemma step_le_popHashThen [step_intros]:
  "step_le c0 c \<Longrightarrow> (\<And>v c'. step_le c0 c' \<Longrightarrow> step_le c0 (k v c')) \<Longrightarrow> step_le c0 (popHashThen c k)"
  by (simp add: popHashThen_def step_le_popThen)

lemma step_le_popAddrThen [step_intros]:
  "step_le c0 c \<Longrightarrow> (\<And>v c'. step_le c0 c' \<Longrightarrow> step_le c0 (k v c')) \<Longrightarrow> step_le c0 (popAddrThen c k)"
  by (cases "stack c") (simp_all add: popAddrThen_def popAddr_def pop_def step_le_tl(1))

lemma step_le_consumeGas [step_intros]: "step_le c0 c \<Longrightarrow> step_le c0 (snd (consumeGas g c))"
  by (cases rule: consumeGas_cases [of c g])
     (auto simp: vm_le_def mem_inv_def exit_with_def sound_def dest: word_sub_le intro: order_trans)


lemma step_le_guard [step_intros]:
  "step_le c0 (snd r) \<Longrightarrow> (\<And>c'. step_le c0 c' \<Longrightarrow> step_le c0 (k c')) \<Longrightarrow> step_le c0 (guard r k)"
  by (simp add: guard_def)

lemma step_le_extendMemory [step_intros]:
  assumes "step_le c0 c"
  shows "step_le c0 (snd (extendMemory offset sz c))"
proof -
  obtain ok c' where ext: "extendMemory offset sz c = (ok, c')" by force
  have "step_le c c'"
    using extendMemory_gas [OF ext] extendMemory_frame [OF ext] extendMemory_success(1) [of offset sz c c']
      extendMemory_stop [of offset sz c c'] ext
    by (cases ok) (auto simp: vm_le_def rel_refl keeps_refl sound_def)
  with assms ext show ?thesis by (auto intro: step_le_trans)
qed

lemma step_le_get2 [step_intros]: "step_le c0 c \<Longrightarrow> step_le c0 (snd (get2 offset len c))"
  using step_le_extendMemory [of c0 c offset len]
  by (auto simp: get2_def split: prod.splits bool.splits)

lemma step_le_get2Then [step_intros]:
  "step_le c0 c \<Longrightarrow> (\<And>d c'. step_le c0 c' \<Longrightarrow> step_le c0 (k d c')) \<Longrightarrow> step_le c0 (get2Then offset len c k)"
  using step_le_get2 [of c0 c offset len]
  by (auto simp: get2Then_def split: prod.splits bool.splits)

lemma step_le_popTopicsThen [step_intros]:
  "step_le c0 c \<Longrightarrow> (\<And>ts c'. step_le c0 c' \<Longrightarrow> step_le c0 (k ts c')) \<Longrightarrow> step_le c0 (popTopicsThen n c k)"
  by (induction n arbitrary: c k) (auto intro!: step_le_popThen)

lemma safe_peekAt: "safe c \<Longrightarrow> peekAt n c = Some v \<Longrightarrow> 0 \<le> v"
  using nth_mem [of "n - 1" "stack c"] by (auto simp: sound_def peekAt_def list_all_iff split: if_splits)

subsection \<open>Instructions\<close>

lemma step_le_arith:
  "step_le c (opAdd c)" "step_le c (opMul c)" "step_le c (opSub c)" "step_le c (opDiv c)"
  "step_le c (opSDiv c)" "step_le c (opMod c)" "step_le c (opSMod c)" "step_le c (opExp c)"
  "step_le c (opAddMod c)" "step_le c (opMulMod c)" "step_le c (opAnd c)" "step_le c (opOr c)"
  "step_le c (opXor c)" "step_le c (opByte c)" "step_le c (opNot c)" "step_le c (opIsZero c)"
  "step_le c (opEq c)" "step_le c (opLt c)" "step_le c (opGt c)" "step_le c (opSlt c)"
  "step_le c (opSgt c)" "step_le c (opSignExtension c)" "step_le c (opShl c)" "step_le c (opShr c)"
  "step_le c (opSar c)"
  unfolding opAdd_def opMul_def opSub_def opDiv_def opSDiv_def opMod_def opSMod_def opExp_def
    opAddMod_def opMulMod_def opAnd_def opOr_def opXor_def opByte_def opNot_def opIsZero_def
    opEq_def opLt_def opGt_def opSlt_def opSgt_def opSignExtension_def opShl_def opShr_def opSar_def Let_def
  by (auto intro!: step_intros opExp_nonneg split: option.split)

lemma step_le_copyToMemory [step_intros]: "step_le c0 c \<Longrightarrow> step_le c0 (copyToMemory a b d e c)"
  by (auto simp: copyToMemory_def setBytes_def intro!: step_intros)

lemma step_le_env:
  "step_le c (opMload c)" "step_le c (opMStore8 c)" "step_le c (opSload H c)"
  "step_le c (opSha3 K c)" "step_le c (opPop c)" "step_le c (opAddress c)" "step_le c (opBalance H c)"
  "step_le c (opSelfBalance H c)" "step_le c (opChainID H c)" "step_le c (opOrigin H c)"
  "step_le c (opCaller c)" "step_le c (opCallValue c)" "step_le c (opCallDataLoad c)"
  "step_le c (opCallDataSize c)" "step_le c (opCodeSize c)" "step_le c (opExtCodeSize H c)"
  "step_le c (opGasPrice H c)" "step_le c (opReturnDataSize c)" "step_le c (opExtCodeHash H c)"
  "step_le c (opPC c)" "step_le c (opMSize c)" "step_le c (opGas c)"
  "step_le c (opExtCodeCopy H c)" "step_le c (opCallDataCopy c)" "step_le c (opReturnDataCopy c)"
  "step_le c (opCodeCopy c)" "step_le c (opBlockHash H c)" "step_le c (opCoinbase H c)"
  "step_le c (opTimestamp H c)" "step_le c (opNumber H c)" "step_le c (opDifficulty H c)"
  "step_le c (opGasLimit H c)"
  unfolding opMload_def opMStore8_def opSload_def opSha3_def opPop_def opAddress_def
    opBalance_def opSelfBalance_def opChainID_def opOrigin_def opCaller_def opCallValue_def
    opCallDataLoad_def opCallDataSize_def opCodeSize_def opExtCodeSize_def opGasPrice_def
    opReturnDataSize_def opExtCodeHash_def opPC_def opMSize_def opGas_def opExtCodeCopy_def
    opCallDataCopy_def opReturnDataCopy_def opCodeCopy_def opBlockHash_def opCoinbase_def
    opTimestamp_def opNumber_def opDifficulty_def opGasLimit_def Let_def valueOf_def [symmetric]
  by (auto intro!: step_intros intro: safe_reads safe_reads [OF step_le_refl])

lemma step_le_opMStore: "step_le c (opMStore c)"
  unfolding opMStore_def Let_def by (auto intro!: step_intros split: option.split prod.split)

lemma SetStorage_pair:
  "SetStorage H h a k v cfg = (status, h') \<Longrightarrow> rel False h h'"
  "fine h \<Longrightarrow> SetStorage H h a k v cfg = (status, h') \<Longrightarrow> keeps h h'"
  using SetStorage_rel [of h a k v cfg] SetStorage_keeps [of h a k v cfg] by simp_all

lemma step_le_opSStore: "step_le c (opSStore H c)"
  unfolding opSStore_def Let_def inStaticCall_def
  by (auto intro!: step_intros intro: SetStorage_pair SetStorage_pair(2) [OF safe_reads(6)] split: prod.split)

lemma step_le_opSelfDestruct: "step_le c (opSelfDestruct H c)"
  unfolding opSelfDestruct_def inStaticCall_def by (auto intro!: step_intros Selfdestruct_rel Selfdestruct_keeps intro: safe_reads(6))

lemma step_le_opLog: "step_le c (opLog H n c)"
  unfolding opLog_def inStaticCall_def Let_def by (auto intro!: step_intros EmitLog_rel EmitLog_keeps intro: safe_reads(6))

lemma step_le_control:
  "step_le c (opStop c)" "step_le c (opJump c)" "step_le c (opJumpi c)" "step_le c (opJumpDest c)"
  "step_le c (opPush n c)" "step_le c (opDup n c)" "step_le c (opSwap n c)"
  unfolding opStop_def opJump_def opJumpi_def opJumpDest_def opPush_def opDup_def opSwap_def jumpTo_def
  by (auto intro!: step_intros intro: safe_peekAt split: option.split)

lemma step_le_opHalt: "step_le c (opHalt op c)"
proof -
  have "step_le c (case get2 offset sz c' of ((_, False), c) \<Rightarrow> c\<lparr>ret := []\<rparr>
        | ((d, True), c) \<Rightarrow> if op = OP_REVERT then exit_with ErrExecutionReverted (c\<lparr>ret := d\<rparr>)
            else halt (c\<lparr>ret := d\<rparr>))" if "step_le c c'" for c' offset sz
    using step_le_get2 [OF that, of offset sz] by (auto split: prod.split bool.split intro!: step_intros)
  then show ?thesis unfolding opHalt_def by (auto intro!: step_intros)
qed

subsection \<open>Calls\<close>

lemma get2_cases:
  obtains (fails) c' where "get2 offset len c = (([], False), c')" "step_le c c'" "stop c'"
  | (reads) d c' where "get2 offset len c = ((d, True), c')" "step_le c c'" "stop c' = stop c"
proof (cases "extendMemory offset len c")
  case (Pair ok c')
  have le: "step_le c c'" using step_le_extendMemory [of c c offset len] Pair by simp
  show ?thesis
  proof (cases "len = 0")
    case True
    then show ?thesis using reads by (simp add: get2_def)
  next
    case False
    show ?thesis
    proof (cases ok)
      case True
      then have "get2 offset len c = ((take (unat (Uint64 len)) (drop (unat (Uint64 offset)) (memory c')), True), c')"
        using Pair False by (simp add: get2_def)
      moreover have "stop c' = stop c" using True extendMemory_frame(13) [OF Pair] by simp
      ultimately show ?thesis using reads le by blast
    next
      case oog: False
      then have "get2 offset len c = (([], False), c')" using Pair False by (simp add: get2_def)
      moreover have "stop c'" using oog Pair extendMemory_stop [of offset len c c'] by simp
      ultimately show ?thesis using fails le by blast
    qed
  qed
qed

lemma extendMemory_split:
  obtains (fails) c' where "extendMemory offset len c = (False, c')" "step_le c c'" "stop c'"
  | (grows) c' where "extendMemory offset len c = (True, c')" "step_le c c'" "stop c' = stop c"
proof (cases "extendMemory offset len c")
  case (Pair ok c')
  have "step_le c c'" using step_le_extendMemory [of c c offset len] Pair by simp
  with Pair fails grows extendMemory_frame(13) [OF Pair] extendMemory_stop [of offset len c c']
  show ?thesis by (cases ok) auto
qed

lemma buildCall_checked_cases:
  assumes "buildCall_checked H op initialGas addr val inRange retRange c = Some ((ct, off, sz, e), c')"
    and tv: "tv \<longleftrightarrow> (op = OP_CALL \<or> op = OP_CALLCODE) \<and> val \<noteq> None \<and> sgn (the val) \<noteq> 0"
  obtains (abort) "ct = None" "\<not> e" "step_le c c'" "stop c'"
  | (contract) g args c1 where
      "step_le c c1" "stop c1 = stop c"
      "callGas c1 initialGas (callBaseGas H op addr tv c1) = Some g"
      "callBaseGas H op addr tv c1 + g \<le> gas c1"
      "c' = c1\<lparr>gas := gas c1 - (callBaseGas H op addr tv c1 + g)\<rparr>"
      "ct = Some (callContract H op addr val (if tv then g + 2300 else g) args c')"
proof -
  note build = assms(1) [unfolded buildCall_checked_def Let_def tv [symmetric]]
  show thesis
proof (cases rule: get2_cases [of "fst inRange" "snd inRange" c])
  case (fails c1)
  with build show ?thesis by (intro abort) auto
next
  case (reads args c1)
  show ?thesis
  proof (cases rule: extendMemory_split [of "fst retRange" "snd retRange" c1])
    case (fails c2)
    with build reads show ?thesis by (intro abort) (auto intro: step_le_trans)
  next
    case (grows c2)
    have le: "step_le c c2" using reads grows by (auto intro: step_le_trans)
    show ?thesis
    proof (cases "callGas c2 initialGas (callBaseGas H op addr tv c2)")
      case None
      with build reads grows le show ?thesis
        by (intro abort) (auto intro: step_intros)
    next
      case (Some g)
      show ?thesis
      proof (cases rule: consumeGas_cases [of c2 "callBaseGas H op addr tv c2 + g"])
        case short
        with build reads grows le Some show ?thesis
          by (intro abort) (auto intro: step_intros)
      next
        case paid
        let ?c = "c2\<lparr>gas := gas c2 - (callBaseGas H op addr tv c2 + g)\<rparr>"
        have "ct = Some (callContract H op addr val (if tv then g + 2300 else g) args ?c) \<and> c' = ?c"
          using build [unfolded reads(1) grows(1) Some paid(2) prod.case bool.case option.case]
          by (rule if_same_contract)
        then show ?thesis
          using le reads(3) grows(3) Some paid(1) by (intro contract [of c2 g args]) simp_all
      qed
    qed
  qed
qed
qed

lemma buildCallContract_cases:
  assumes "buildCallContract H op c = Some ((ct, off, sz, e), c')"
  obtains (abort) "ct = None" "\<not> e" "step_le c c'" "stop c'"
  | (contract) initialGas addr val g args c1 tv where
      "step_le c c1" "stop c1 = stop c"
      "tv \<longleftrightarrow> (op = OP_CALL \<or> op = OP_CALLCODE) \<and> val \<noteq> None \<and> sgn (the val) \<noteq> 0"
      "callGas c1 initialGas (callBaseGas H op addr tv c1) = Some g"
      "callBaseGas H op addr tv c1 + g \<le> gas c1"
      "c' = c1\<lparr>gas := gas c1 - (callBaseGas H op addr tv c1 + g)\<rparr>"
      "ct = Some (callContract H op addr val (if tv then g + 2300 else g) args c')"
      "op = OP_CALL \<Longrightarrow> val = peekAt 3 c \<and> val \<noteq> None"
      "safe c \<Longrightarrow> 0 \<le> (case val of Some v \<Rightarrow> v | None \<Rightarrow> 0)"
proof -
  from assms [unfolded buildCallContract_def] obtain initialGas b st1 where
    st1: "stack c = initialGas # b # st1" and
    k1: "((if op = OP_CALL \<or> op = OP_CALLCODE
           then popOr (c\<lparr>stack := st1\<rparr>) (\<lambda>val c. Some (Some val, c)) else Some (None, c\<lparr>stack := st1\<rparr>))
         \<bind> (\<lambda>(val, c).
     popOr c (\<lambda>inOffset c. popOr c (\<lambda>inSize c. popOr c (\<lambda>retOffset c. popOr c (\<lambda>retSize c.
       buildCall_checked H op initialGas (BytesToAddress (Bytes b)) val
         (inOffset, inSize) (retOffset, retSize) c)))))) = Some ((ct, off, sz, e), c')"
    by (auto simp: popOr_def pop_def split: list.splits)
  from k1 obtain val st2 where
    st2: "op = OP_CALL \<or> op = OP_CALLCODE \<Longrightarrow> val \<noteq> None \<and> st1 = the val # st2"
      "\<not> (op = OP_CALL \<or> op = OP_CALLCODE) \<Longrightarrow> val = None \<and> st2 = st1" and
    k2: "popOr (c\<lparr>stack := st2\<rparr>) (\<lambda>inOffset c. popOr c (\<lambda>inSize c. popOr c (\<lambda>retOffset c. popOr c (\<lambda>retSize c.
       buildCall_checked H op initialGas (BytesToAddress (Bytes b)) val
         (inOffset, inSize) (retOffset, retSize) c)))) = Some ((ct, off, sz, e), c')"
    by (rule popValueE) auto
  from k2 obtain st inOffset inSize retOffset retSize where "st2 = inOffset # inSize # retOffset # retSize # st" and
    "buildCall_checked H op initialGas (BytesToAddress (Bytes b)) val (inOffset, inSize) (retOffset, retSize)
        (c\<lparr>stack := st\<rparr>) = Some ((ct, off, sz, e), c')"
    by (auto simp: popOr_def pop_def split: list.splits)
  then obtain inRange retRange where suf: "set st \<subseteq> set st2" and
    checked: "buildCall_checked H op initialGas (BytesToAddress (Bytes b)) val inRange retRange
        (c\<lparr>stack := st\<rparr>) = Some ((ct, off, sz, e), c')"
    by (metis list.set_intros(2) subsetI)
  have vals: "set st \<subseteq> set (stack c) \<and> (val \<noteq> None \<longrightarrow> the val \<in> set (stack c))"
    using st1 st2 suf by (cases "op = OP_CALL \<or> op = OP_CALLCODE") auto
  then have le: "step_le c (c\<lparr>stack := st\<rparr>)" by (intro step_le_suffix) simp_all
  have nonneg: "0 \<le> (case val of Some v \<Rightarrow> v | None \<Rightarrow> 0)" if "safe c"
    using that vals by (auto simp: sound_def list_all_iff split: option.split)
  define tv where "tv \<longleftrightarrow> (op = OP_CALL \<or> op = OP_CALLCODE) \<and> val \<noteq> None \<and> sgn (the val) \<noteq> 0"
  from checked tv_def show ?thesis
  proof (cases rule: buildCall_checked_cases)
    case abort
    with le that(1) show ?thesis by (auto intro: step_le_trans)
  next
    case (contract g args c1)
    have "val = peekAt 3 c \<and> val \<noteq> None" if "op = OP_CALL"
      using st1 st2 that by (auto simp: peekAt_def)
    with contract le nonneg show ?thesis
      by (intro that(2) [OF _ _ tv_def, of c1]) (auto intro: step_le_trans)
  qed
qed

subsection \<open>Progress\<close>

lemma progress_popThen:
  "step_le c0 c \<Longrightarrow> (\<And>v c'. step_le c0 c' \<Longrightarrow> progress c0 (k v c')) \<Longrightarrow> progress c0 (popThen c k)"
  by (cases "stack c") (simp_all add: popThen_def pop_def step_le_tl(1))

lemma progress_popAddrThen:
  "step_le c0 c \<Longrightarrow> (\<And>v c'. step_le c0 c' \<Longrightarrow> progress c0 (k v c')) \<Longrightarrow> progress c0 (popAddrThen c k)"
  by (cases "stack c") (simp_all add: popAddrThen_def popAddr_def pop_def step_le_tl(1))

lemma progress_consumeGas:
  assumes "step_le c0 c" and "0 < g" and "step_le (snd (consumeGas g c)) c'"
  shows "progress c0 c'"
proof (cases rule: consumeGas_cases [of c g])
  case short
  with assms(3) show ?thesis by (simp add: progress_def vm_le_def)
next
  case paid
  have "gas c - g < gas c"
    using paid(1) assms(2) by (intro u64_sub_less) auto
  with paid assms(1,3) show ?thesis
    by (auto simp: progress_def vm_le_def)
qed

lemma progress_guard_gas:
  "step_le c0 c \<Longrightarrow> 0 < g \<Longrightarrow> (\<And>c'. step_le c' (k c')) \<Longrightarrow> progress c0 (guard (consumeGas g c) k)"
  by (erule progress_consumeGas, assumption) (auto simp: guard_def)

lemma progress_guard:
  assumes "step_le c0 c" and "\<And>c'. step_le c0 c' \<Longrightarrow> progress c0 (k c')"
    and "r = extendMemory off len c \<or> r = consumeGas g c"
  shows "progress c0 (guard r k)"
proof (cases "fst r")
  case True
  have "step_le c0 (snd r)" using assms(1,3) by (auto intro: step_intros)
  with True assms(2) show ?thesis by (simp add: guard_def)
next
  case False
  obtain c' where r: "r = (False, c')" using False by (cases r) auto
  have "stop c'"
    using assms(3) extendMemory_stop [of off len c c'] by (auto simp: r consumeGas_def split: if_splits)
  with r have "stop (snd r)" by simp
  with False show ?thesis by (simp add: guard_def progress_def)
qed

lemmas progress_guard_ext = progress_guard [OF _ _ disjI1 [OF refl]]
lemmas progress_guard_consume = progress_guard [OF _ _ disjI2 [OF refl]]

lemma progress_zero_gas:
  "progress c (opStop c)" "progress c (opHalt op c)" "progress c (opSload H c)" "progress c (opSStore H c)"
  "progress c (opExtCodeHash H c)" "progress c (opBalance H c)" "progress c (opExtCodeSize H c)"
  "progress c (opExtCodeCopy H c)" "progress c (opSelfDestruct H c)"
proof -
  show "progress c (opStop c)" by (simp add: opStop_def)
  have "progress c (case get2 offset sz c' of ((_, False), c) \<Rightarrow> c\<lparr>ret := []\<rparr>
        | ((d, True), c) \<Rightarrow> if op = OP_REVERT then exit_with ErrExecutionReverted (c\<lparr>ret := d\<rparr>)
            else halt (c\<lparr>ret := d\<rparr>))" for c' offset sz
    by (cases rule: get2_cases [of offset sz c']) (auto simp: progress_def halt_def)
  then show "progress c (opHalt op c)"
    unfolding opHalt_def by (auto intro!: progress_popThen)
  show "progress c (opSload H c)"
    unfolding opSload_def
    by (auto intro!: progress_topThen progress_guard_gas step_intros simp: sloadGas_def)
  have sst: "0 < sstoreGas cfg st" for cfg st by (simp add: sstoreGas_def Let_def split: StorageStatus.split)
  have "progress c (case SetStorage H (host c') (Address (msg c')) key val (config c') of
      (status, h) \<Rightarrow> snd (consumeGas (sstoreGas (config c') status) (c'\<lparr>host := h\<rparr>)))"
    if "step_le c c'" "\<not> Static (msg c)" for c' key val
  proof (cases "SetStorage H (host c') (Address (msg c')) key val (config c')")
    case (Pair status h)
    have "step_le c (c'\<lparr>host := h\<rparr>)"
      using that SetStorage_pair(1) [OF Pair] SetStorage_pair(2) [OF _ Pair] safe_reads(6) by (intro step_intros) blast+
    with Pair sst show ?thesis by (auto intro: progress_consumeGas)
  qed
  then show "progress c (opSStore H c)"
    unfolding opSStore_def popHashThen_def inStaticCall_def Let_def
    by (auto intro!: progress_popThen)
  show "progress c (opExtCodeHash H c)" "progress c (opBalance H c)" "progress c (opExtCodeSize H c)"
    unfolding opExtCodeHash_def opBalance_def opExtCodeSize_def
    by (auto intro!: progress_popAddrThen progress_guard_gas step_intros intro: safe_reads [OF step_le_refl]
        simp: extCodeHashGas_def balanceGas_def extCodeGas_def)
  have "progress c (guard (extendMemory mo len c') (\<lambda>c. guard (consumeGas (wordsGas copyGas (Uint64 len)) c)
      (\<lambda>c. guard (consumeGas (extCodeGas (config c)) c)
        (\<lambda>c. copyToMemory mo (GetCode H (host c) addr) (Uint64 len) co c))))"
    if "step_le c c'" for c' mo len co addr
    using that
    by - (erule progress_guard_ext, erule progress_guard_consume, erule progress_guard_gas,
        auto intro!: step_intros simp: extCodeGas_def)
  then show "progress c (opExtCodeCopy H c)"
    unfolding opExtCodeCopy_def by (auto intro!: progress_popAddrThen progress_popThen)
  show "progress c (opSelfDestruct H c)"
    unfolding opSelfDestruct_def
    by (auto intro!: progress_popAddrThen progress_guard_consume)
qed

end

end
