(* ===== verification/EVM_Host.thy ===== *)
theory EVM_Host
  imports EVM_Step
begin

text \<open>
  The contract between the interpreter and its host, as a locale: as long as
  the host invariant holds, a call of the next depth returns, never leaves more gas than it was given,
  and changes the host state within \<open>rel False\<close>, and within \<open>rel True\<close> when it is static and transfers
  no value; when the host is \<open>fine\<close> and the value of the call non-negative, it also \<open>keeps\<close> the host.  Under this contract, and from EIP-150 on, every instruction keeps
  \<open>vm_le\<close>, every step stops or consumes gas, and therefore the interpreter loop terminates.
\<close>

section \<open>State after a call\<close>

lemma gas_update_fields:
  assumes "c2 = c1\<lparr>gas := g\<rparr>"
  shows "host c2 = host c1" "msg c2 = msg c1" "config c2 = config c1" "code c2 = code c1"
    "bitbuf c2 = bitbuf c1" "bittail c2 = bittail c1" "growcap c2 = growcap c1" "stop c2 = stop c1"
    "mem_inv c2 = mem_inv c1" "stack c2 = stack c1"
  using assms by (simp_all add: mem_inv_def)

lemma copyReturn_simps [simp]:
  "gas (copyReturn offset sz d c) = gas c" "host (copyReturn offset sz d c) = host c"
  "msg (copyReturn offset sz d c) = msg c" "config (copyReturn offset sz d c) = config c"
  "code (copyReturn offset sz d c) = code c" "bitbuf (copyReturn offset sz d c) = bitbuf c"
  "bittail (copyReturn offset sz d c) = bittail c" "growcap (copyReturn offset sz d c) = growcap c"
  "stop (copyReturn offset sz d c) = stop c" "mem_inv (copyReturn offset sz d c) = mem_inv c"
  "stack (copyReturn offset sz d c) = stack c"
  by (simp_all add: copyReturn_def go_panic_def mem_inv_def)

lemma push_simps [simp]:
  "gas (push v c) = gas c" "host (push v c) = host c" "msg (push v c) = msg c" "config (push v c) = config c"
  "code (push v c) = code c" "bitbuf (push v c) = bitbuf c" "bittail (push v c) = bittail c"
  "growcap (push v c) = growcap c" "stop (push v c) = stop c" "mem_inv (push v c) = mem_inv c"
  "stack (push v c) = v # stack c" "panicked (push v c) = panicked c"
  by (simp_all add: push_def mem_inv_def)

lemma mem_inv_update [simp]:
  "mem_inv (c\<lparr>gas := g\<rparr>) = mem_inv c" "mem_inv (c\<lparr>host := h\<rparr>) = mem_inv c"
  "mem_inv (c\<lparr>returnData := d\<rparr>) = mem_inv c" "mem_inv (c\<lparr>stack := st\<rparr>) = mem_inv c"
  "mem_inv (c\<lparr>ip := i\<rparr>) = mem_inv c"
  by (simp_all add: mem_inv_def)

abbreviation is_call :: "OpCode \<Rightarrow> bool" where
  "is_call op \<equiv> op = OP_CALL \<or> op = OP_CALLCODE \<or> op = OP_DELEGATECALL \<or> op = OP_STATICCALL"

lemma call_type_simps:
  "is_call op \<Longrightarrow> \<exists>t. OpCode2RuntimeType op = Some t \<and> IsCallType t \<and> (t = Call \<longrightarrow> op = OP_CALL)"
  by (auto simp: OpCode2RuntimeType_def IsCallType_def)

lemma callContract_Value: "op = OP_CALL \<Longrightarrow> Value (callContract H op addr val g args c) = val"
  by (simp add: callContract_def Let_def NewContractCall_def NewContract_def)

lemma callContract_valueOf:
  "valueOf (callContract H op addr val g args c) =
     (if op = OP_DELEGATECALL then valueOf (msg c) else (case val of Some v \<Rightarrow> v | None \<Rightarrow> 0))"
  by (simp add: callContract_def Let_def NewContractCall_def NewContract_def valueOf_def)

lemma valueOf_CType [simp]: "valueOf (ct\<lparr>CType := t\<rparr>) = valueOf ct"
  by (simp add: valueOf_def)

locale vm_host = host_rel H rel fine keeps for H :: "'h Host" and rel fine keeps +
  fixes depth :: int and hinv :: "'h \<Rightarrow> bool"
  assumes hinv_rel: "hinv h \<Longrightarrow> rel s h h' \<Longrightarrow> hinv h'"
    and Callx_returns: "hinv h \<Longrightarrow> Depth ct = depth + 1 \<Longrightarrow> \<exists>h' r. Callx H h ct = Some (h', r)"
    and Callx_gas: "hinv h \<Longrightarrow> Depth ct = depth + 1 \<Longrightarrow> Callx H h ct = Some (h', r) \<Longrightarrow> GasLeft r \<le> Gas ct"
    and Callx_rel: "hinv h \<Longrightarrow> Depth ct = depth + 1 \<Longrightarrow> Callx H h ct = Some (h', r) \<Longrightarrow> rel False h h'"
    and Callx_keeps: "hinv h \<Longrightarrow> Depth ct = depth + 1 \<Longrightarrow> fine h \<Longrightarrow> 0 \<le> valueOf ct \<Longrightarrow> Callx H h ct = Some (h', r) \<Longrightarrow> keeps h h'"
    and Callx_static: "hinv h \<Longrightarrow> Depth ct = depth + 1 \<Longrightarrow> Static ct \<Longrightarrow> IsCallType (CType ct) \<Longrightarrow>
      (CType ct = Call \<longrightarrow> Value ct = Some 0) \<Longrightarrow> Callx H h ct = Some (h', r) \<Longrightarrow> rel True h h'"
begin

lemma step_le_hinv: "step_le c c' \<Longrightarrow> hinv (host c) \<Longrightarrow> hinv (host c')"
  by (auto simp: vm_le_def intro: hinv_rel)

lemma vm_le_after_call:
  assumes "step_le c c1" and "g' \<le> gas c1" and "rel (Static (msg c)) (host c1) h"
    and "gas c' = g'" "host c' = h" "msg c' = msg c1" "config c' = config c1" "code c' = code c1"
      "bitbuf c' = bitbuf c1" "bittail c' = bittail c1" "growcap c' = growcap c1" "stop c' = stop c1"
      "mem_inv c' = mem_inv c1"
    and "safe c \<Longrightarrow> keeps (host c1) h" "safe c \<Longrightarrow> list_all ((\<le>) 0) (stack c')"
  shows "step_le c c'"
proof -
  have "safe c' \<and> keeps (host c) (host c')" if "safe c"
  proof -
    have "keeps (host c1) h" "keeps (host c) (host c1)" "safe c1"
      using assms(14) [OF that] that assms(1) by (simp_all add: vm_le_def)
    then show ?thesis
      using fine_keeps keeps_trans assms(15) [OF that] by (auto simp: sound_def assms(5,6))
  qed
  with assms(1-13) show ?thesis by (auto simp: vm_le_def intro: rel_trans)
qed

lemma progress_after_call: "step_le c c1 \<Longrightarrow> gas c' < gas c1 \<Longrightarrow> progress c c'"
  by (auto simp: vm_le_def progress_def)

lemma call_built:
  assumes eip: "EIP150 (config c)" and d: "Depth (msg c) = depth"
    and build: "buildCallContract H op c = Some ((Some ct, off, sz, e), c2)"
  obtains c1 where "step_le c c1" "c2 = c1\<lparr>gas := gas c2\<rparr>" "Depth ct = depth + 1" "stop c1 = stop c"
    "\<And>gl. gl \<le> Gas ct \<Longrightarrow> gas c2 + gl < gas c1" "Static (msg c) \<Longrightarrow> Static ct"
    "op = OP_CALL \<Longrightarrow> Value ct = peekAt 3 c \<and> peekAt 3 c \<noteq> None" "safe c \<Longrightarrow> 0 \<le> valueOf ct"
  using build
proof (cases rule: buildCallContract_cases)
  case (contract initialGas addr val g args c1 tv)
  let ?b = "callBaseGas H op addr tv c1"
  have eip1: "EIP150 (config c1)" and msg: "msg c1 = msg c" using contract(1) eip by (simp_all add: vm_le_def)
  have "unat (if tv then g + 2300 else g) \<le> unat g + (if tv then 2300 else 0)"
    using callee_gas [of g c1 tv] by (simp add: unat_word_ariths)
  then have "gas c1 - (?b + g) + gl < gas c1" if "gl \<le> Gas ct" for gl
    using that contract(7) by (intro call_gas_sum [OF eip1 contract(4,5)]) (simp add: word_le_nat_alt)
  then have gl: "gas c2 + gl < gas c1" if "gl \<le> Gas ct" for gl using that contract(6) by simp
  have c2: "c2 = c1\<lparr>gas := gas c2\<rparr>" and m2: "msg c2 = msg c" using contract(6) msg by simp_all
  have ct: "ct = callContract H op addr val (if tv then g + 2300 else g) args c2" using contract(7) by simp
  have st: "Static (msg c) \<Longrightarrow> Static ct" and dep: "Depth ct = depth + 1" using ct m2 d by simp_all
  have "Value ct = peekAt 3 c \<and> peekAt 3 c \<noteq> None" if "op = OP_CALL"
    using contract(8) [OF that] ct callContract_Value [OF that] by auto
  note val = this
  have "0 \<le> valueOf ct" if "safe c"
    using safe_reads(5) [OF contract(1) that] contract(9) [OF that] by (simp add: ct callContract_valueOf m2 msg)
  from that [OF contract(1) c2 dep contract(2) gl st val this] show ?thesis .
qed simp_all

lemma call_refund_le:
  assumes eip: "EIP150 (config c)" and d: "Depth (msg c) = depth"
    and build: "buildCallContract H op c = Some ((Some ct, off, sz, e), c2)"
  shows "step_le c (refundContract (Some ct) c2) \<and> progress c (refundContract (Some ct) c2)"
proof -
  obtain c1 where c1: "step_le c c1" "c2 = c1\<lparr>gas := gas c2\<rparr>" "\<And>gl. gl \<le> Gas ct \<Longrightarrow> gas c2 + gl < gas c1"
    using call_built [OF assms] by metis
  note f = gas_update_fields [OF c1(2)] and g = c1(3) [OF order_refl]
  have "step_le c (refundContract (Some ct) c2)"
    by (rule vm_le_after_call [OF c1(1) less_imp_le [OF g], where h = "host c1"])
       (simp_all add: refundContract_def rel_refl f safe_reads(7) [OF c1(1)] keeps_refl)
  moreover have "progress c (refundContract (Some ct) c2)"
    by (rule progress_after_call [OF c1(1)]) (simp add: refundContract_def g)
  ultimately show ?thesis ..
qed

lemma call_finish_le:
  assumes eip: "EIP150 (config c)" and d: "Depth (msg c) = depth" and hi: "hinv (host c)"
    and build: "buildCallContract H op c = Some ((Some ct, off, sz, e), c2)"
    and allowed: "callForbidden op c = None" and t: "IsCallType t" "t = Call \<longrightarrow> op = OP_CALL"
  shows "\<exists>h result. Callx H (host c2) (ct\<lparr>CType := t\<rparr>) = Some (h, result) \<and>
           step_le c (finishCall off sz h result c2) \<and> progress c (finishCall off sz h result c2)"
proof -
  obtain c1 where c1: "step_le c c1" "c2 = c1\<lparr>gas := gas c2\<rparr>" "Depth ct = depth + 1"
    "\<And>gl. gl \<le> Gas ct \<Longrightarrow> gas c2 + gl < gas c1" "Static (msg c) \<Longrightarrow> Static ct"
    "op = OP_CALL \<Longrightarrow> Value ct = peekAt 3 c \<and> peekAt 3 c \<noteq> None" "safe c \<Longrightarrow> 0 \<le> valueOf ct"
    using call_built [OF eip d build] by metis
  note f = gas_update_fields [OF c1(2)]
  have hi2: "hinv (host c2)" using step_le_hinv [OF c1(1) hi] by (simp add: f)
  obtain h result where call: "Callx H (host c2) (ct\<lparr>CType := t\<rparr>) = Some (h, result)"
    using Callx_returns [OF hi2, of "ct\<lparr>CType := t\<rparr>"] c1(3) by auto
  have "GasLeft result \<le> Gas ct" using Callx_gas [OF hi2 _ call] c1(3) by simp
  then have g: "gas c2 + GasLeft result < gas c1" by (rule c1(4))
  have "step_le c (finishCall off sz h result c2)"
  proof (rule vm_le_after_call [OF c1(1) less_imp_le [OF g]])
    have "Value ct = Some 0" if "t = Call" "Static (msg c)"
      using that t(2) c1(6) allowed
      by (auto simp: callForbidden_def inStaticCall_def BitLen_gt_iff split: option.splits if_splits)
    then have "rel (Static (msg c)) (host c2) h"
      using Callx_static [OF hi2 _ _ _ _ call] Callx_rel [OF hi2 _ call] c1(3,5) t(1)
      by (cases "Static (msg c)") auto
    then show "rel (Static (msg c)) (host c1) h" by (simp add: f)
    show "keeps (host c1) h" if "safe c"
      using Callx_keeps [OF hi2 _ _ _ call] c1(3) c1(7) [OF that] safe_reads(6) [OF c1(1) that] by (simp add: f)
    show "list_all ((\<le>) 0) (stack (finishCall off sz h result c2))" if "safe c"
      using safe_reads(7) [OF c1(1) that] by (simp add: finishCall_def Let_def f)
  qed (simp_all add: finishCall_def Let_def f)
  moreover have "progress c (finishCall off sz h result c2)"
    by (rule progress_after_call [OF c1(1)]) (simp add: finishCall_def Let_def g)
  ultimately show ?thesis using call by blast
qed

lemma opCall_le:
  assumes eip: "EIP150 (config c)" and d: "Depth (msg c) = depth" and hi: "hinv (host c)" and op: "is_call op"
  shows "\<exists>c'. opCall H op c = Some c' \<and> step_le c c' \<and> progress c c'"
proof -
  let ?c = "resetReturnData c"
  have gas: "gas ?c = gas c" and le: "step_le c ?c" and c: "EIP150 (config ?c)" "Depth (msg ?c) = depth"
    and hi': "hinv (host ?c)"
    using eip d hi by (auto simp: resetReturnData_def step_le_update)
  obtain t where t: "OpCode2RuntimeType op = Some t" "IsCallType t" "t = Call \<longrightarrow> op = OP_CALL"
    using call_type_simps [OF op] by blast
  have "\<exists>c'. opCall H op c = Some c' \<and> step_le ?c c' \<and> progress ?c c'"
  proof (cases "callForbidden op ?c")
    case (Some e)
    then show ?thesis by (simp add: opCall_def step_intros)
  next
    case allowed: None
    show ?thesis
    proof (cases "buildCallContract H op ?c")
      case None
      with allowed show ?thesis by (simp add: opCall_def step_intros)
    next
      case (Some r)
      obtain contract off sz e c2 where r: "r = ((contract, off, sz, e), c2)" by (cases r) auto
      note build = Some [unfolded r]
      show ?thesis
      proof (cases contract)
        case None
        from build [unfolded None] have "\<not> e \<and> step_le ?c c2 \<and> stop c2"
          by (cases rule: buildCallContract_cases) simp_all
        with allowed build None show ?thesis by (simp add: opCall_def progress_def)
      next
        case (Some ct)
        with allowed build t call_refund_le [OF c build [unfolded Some]]
          call_finish_le [OF c hi' build [unfolded Some] allowed t(2,3)]
        show ?thesis by (cases e) (auto simp: opCall_def)
      qed
    qed
  qed
  with le gas show ?thesis by (auto simp: progress_def intro: step_le_trans)
qed

lemma finishCreate_simps:
  "gas (finishCreate op addr h result c) = gas c + GasLeft result" "host (finishCreate op addr h result c) = h"
  "msg (finishCreate op addr h result c) = msg c" "config (finishCreate op addr h result c) = config c"
  "code (finishCreate op addr h result c) = code c" "bitbuf (finishCreate op addr h result c) = bitbuf c"
  "bittail (finishCreate op addr h result c) = bittail c" "growcap (finishCreate op addr h result c) = growcap c"
  "stop (finishCreate op addr h result c) = stop c" "mem_inv (finishCreate op addr h result c) = mem_inv c"
  "list_all ((\<le>) 0) (stack c) \<Longrightarrow> list_all ((\<le>) 0) (stack (finishCreate op addr h result c))"
  by (simp_all add: finishCreate_def Let_def)

lemma buildCreate_checked_cases:
  assumes "buildCreate_checked H K op val offset len salt c = Some ((ct, e), c2)"
  obtains (none) "ct = None" "step_le c c2"
  | (contract) c1 k where "ct = Some k" "\<not> e" "step_le c c1" "Gas k \<le> gas c1"
      "c2 = c1\<lparr>gas := gas c1 - Gas k\<rparr>" "Depth k = Depth (msg c) + 1" "valueOf k = val"
proof -
  note build = assms [unfolded buildCreate_checked_def Let_def]
  show thesis
  proof (cases rule: get2_cases [of offset len c])
    case (fails c1)
    with build none show ?thesis by simp
  next
    case (reads input c1)
    have le1: "step_le c (snd (consumeGas 0 c1))" using reads(2) by (rule step_le_consumeGas)
    have g0: "consumeGas 0 c1 = (True, c1)" by (simp add: consumeGas_def)
    let ?r = "if op = OP_CREATE2 then consumeGas (wordsGas sha3WordGas (Uint64 len)) c1 else (True, c1)"
    obtain ok c3 where r: "?r = (ok, c3)" by (cases ?r)
    have le3: "step_le c c3"
      using r reads(2) step_le_consumeGas [OF reads(2), of "wordsGas sha3WordGas (Uint64 len)"]
      by (auto split: if_splits)
    let ?g = "if EIP150 (config c3) \<or> op = OP_CREATE2 then allButOne64th (gas c3) else gas c3"
    show ?thesis
    proof (cases "sgn val \<noteq> 0 \<and> GetBalance H (host c1) (Address (msg c1)) < val")
      case True
      with build reads g0 none show ?thesis by simp
    next
      case enough: False
      note built = build [unfolded reads(1) g0 prod.case bool.case if_not_P [OF enough] r]
      show ?thesis
      proof (cases rule: consumeGas_cases [of c3 ?g])
        case short
        have "step_le c (exit_with ErrOutOfGas c3)" using le3 by (rule step_intros)
        with built le3 short none show ?thesis by (cases ok) auto
      next
        case paid
        show ?thesis
        proof (cases ok)
          case False
          with built le3 none show ?thesis by simp
        next
          case True
          let ?c = "c3\<lparr>gas := gas c3 - ?g\<rparr>"
          define addr where "addr = (if op = OP_CREATE
            then CreateAddress K (Address (msg ?c)) (GetNonce H (host ?c) (Address (msg ?c)))
            else CreateAddress2 K (Address (msg ?c)) (bigToHash salt) input)"
          define k where "k = NewContractCreation (Depth (msg ?c) + 1) (Origin (msg ?c)) (Address (msg ?c))
            addr (Some val) ?g input"
          have k: "Gas k = ?g" "Depth k = Depth (msg c3) + 1" "valueOf k = val"
            by (simp_all add: k_def NewContractCreation_def NewContract_def valueOf_def)
          have "Some ((Some k, False), ?c) = Some ((ct, e), c2)"
            using built by (simp only: True bool.case prod.case paid(2) k_def addr_def)
          moreover from le3 have "msg c3 = msg c" by (simp add: vm_le_def)
          ultimately show ?thesis using le3 paid(1) k by (intro contract [of k c3]) simp_all
        qed
      qed
    qed
  qed
qed

lemma buildCreateContract_cases:
  assumes "buildCreateContract H K op c = Some ((ct, e), c2)"
  obtains (none) "ct = None" "step_le c c2"
  | (contract) c1 k where "ct = Some k" "\<not> e" "step_le c c1" "Gas k \<le> gas c1"
      "c2 = c1\<lparr>gas := gas c1 - Gas k\<rparr>" "Depth k = Depth (msg c) + 1" "safe c \<Longrightarrow> 0 \<le> valueOf k"
proof -
  from assms obtain val offset len salt st where vals: "set (val # st) \<subseteq> set (stack c)" and
    checked: "buildCreate_checked H K op val offset len salt (c\<lparr>stack := st\<rparr>) = Some ((ct, e), c2)"
    by (auto simp: buildCreateContract_def popOr_def pop_def split: list.splits if_splits) blast+
  have le: "step_le c (c\<lparr>stack := st\<rparr>)" using vals by (intro step_le_suffix) simp_all
  have nonneg: "safe c \<Longrightarrow> 0 \<le> val" using vals by (simp add: sound_def list_all_iff)
  from checked show thesis
  proof (cases rule: buildCreate_checked_cases)
    case none
    with le that(1) show ?thesis by (blast intro: step_le_trans)
  next
    case (contract c1 k)
    with le nonneg that(2) [of k c1] show ?thesis by (auto intro: step_le_trans)
  qed
qed

lemma create_finish_le:
  assumes d: "Depth (msg c) = depth" and static: "\<not> Static (msg c)" and hi: "hinv (host c)"
    and build: "buildCreateContract H K op c = Some ((Some ct, e), c2)"
  shows "\<not> e \<and> (\<exists>h result. Callx H (host c2) (ct\<lparr>CType := Create\<rparr>) = Some (h, result) \<and>
           step_le c (finishCreate op (Address ct) h result c2))"
  using build
proof (cases rule: buildCreateContract_cases)
  case (contract c1 k)
  note f = gas_update_fields [OF contract(5)]
  have hi2: "hinv (host c2)" using step_le_hinv [OF contract(3) hi] by (simp add: f)
  obtain h result where call: "Callx H (host c2) (ct\<lparr>CType := Create\<rparr>) = Some (h, result)"
    using Callx_returns [OF hi2, of "ct\<lparr>CType := Create\<rparr>"] contract(1,6) d by auto
  have "rel False (host c1) h" using Callx_rel [OF hi2 _ call] contract(1,6) d by (simp add: f)
  have keeps: "keeps (host c1) h" if "safe c"
    using Callx_keeps [OF hi2 _ _ _ call] contract(1,6) d contract(7) [OF that] safe_reads(6) [OF contract(3) that] by (simp add: f)
  have "GasLeft result \<le> Gas k" using Callx_gas [OF hi2 _ call] contract(1,6) d by simp
  moreover have "unat (gas c1 - Gas k) = unat (gas c1) - unat (Gas k)"
    using contract(4) by (rule unat_sub)
  ultimately have sum: "unat (gas c1 - Gas k) + unat (GasLeft result) \<le> unat (gas c1)"
    using contract(4) by (simp add: word_le_nat_alt)
  then have "unat (gas c1 - Gas k + GasLeft result) = unat (gas c1 - Gas k) + unat (GasLeft result)"
    using unat_lt_2p [of "gas c1"] by (simp add: unat_word_ariths)
  with sum have g: "gas c2 + GasLeft result \<le> gas c1" using contract(5) by (simp add: word_le_nat_alt)
  have "step_le c (finishCreate op (Address ct) h result c2)"
    by (rule vm_le_after_call [OF contract(3) g])
       (use static \<open>rel False (host c1) h\<close> keeps in \<open>simp_all add: finishCreate_simps f safe_reads(7) [OF contract(3)]\<close>)
  with call contract(2) show ?thesis by blast
qed simp

lemma opCreate_le:
  assumes d: "Depth (msg c) = depth" and hi: "hinv (host c)"
  shows "\<exists>c'. opCreate H K op c = Some c' \<and> step_le c c'"
proof -
  let ?c = "resetReturnData c"
  have le: "step_le c ?c" and c: "Depth (msg ?c) = depth" "msg ?c = msg c" "hinv (host ?c)"
    using d hi by (auto simp: resetReturnData_def step_le_update)
  show ?thesis
  proof (cases "inStaticCall c \<or> (op = OP_CREATE2 \<and> \<not> Constantinople (config c))")
    case True
    then show ?thesis by (auto simp: opCreate_def step_intros)
  next
    case allowed: False
    have "\<exists>c'. opCreate H K op c = Some c' \<and> step_le ?c c'"
    proof (cases "buildCreateContract H K op ?c")
      case None
      with allowed show ?thesis by (auto simp: opCreate_def step_intros)
    next
      case (Some r)
      obtain contract e c2 where r: "r = ((contract, e), c2)" by (cases r) auto
      note build = Some [unfolded r]
      show ?thesis
      proof (cases contract)
        case None
        from build [unfolded None] have "step_le ?c c2" by (cases rule: buildCreateContract_cases) simp_all
        with allowed build None show ?thesis
          by (cases e) (auto simp: opCreate_def refundContract_def step_intros)
      next
        case (Some ct)
        have "\<not> Static (msg ?c)" using allowed c(2) by (simp add: inStaticCall_def)
        from create_finish_le [OF c(1) this c(3) build [unfolded Some]] allowed build Some
        show ?thesis by (auto simp: opCreate_def)
      qed
    qed
    with le show ?thesis by (auto intro: step_le_trans)
  qed
qed

subsection \<open>The interpreter under the contract\<close>

definition handler_ok :: "'h handler \<Rightarrow> bool" where
  "handler_ok hl \<longleftrightarrow> (\<forall>c. EIP150 (config c) \<longrightarrow> Depth (msg c) = depth \<longrightarrow> hinv (host c) \<longrightarrow>
     (\<exists>c'. inst hl c = Some c' \<and> step_le c c' \<and> (hgas hl = 0 \<longrightarrow> progress c c')))"

lemma handler_ok_op1:
  "(\<And>c. step_le c (f c)) \<Longrightarrow> (g = 0 \<Longrightarrow> (\<And>c. progress c (f c))) \<Longrightarrow> handler_ok (op1 f st g)"
  by (auto simp: handler_ok_def op1_def)

lemma handler_ok_opCall: "is_call op \<Longrightarrow> handler_ok (opx (opCall H op) st g)"
  unfolding handler_ok_def opx_def using opCall_le by (metis handler.select_convs(1))

lemma handler_ok_opCreate: "g \<noteq> 0 \<Longrightarrow> handler_ok (opx (opCreate H K op) st g)"
  unfolding handler_ok_def opx_def using opCreate_le by (metis handler.select_convs)

lemmas step_le_instructions = step_le_arith step_le_env step_le_opMStore step_le_opSStore
  step_le_opSelfDestruct step_le_opLog step_le_control step_le_opHalt

lemma registrations_ok: "(op, hl) \<in> set (registrations H K) \<Longrightarrow> handler_ok hl"
  unfolding registrations_def registerRange_def
  by (auto intro!: handler_ok_op1 handler_ok_opCall handler_ok_opCreate step_le_instructions progress_zero_gas)

lemma dispatch_ok: "dispatchTable H K op = Some hl \<Longrightarrow> handler_ok hl"
  by (auto simp: dispatchTable_def dest!: map_of_SomeD intro: registrations_ok)

lemma run_step_le:
  assumes eip: "EIP150 (config c)" and d: "Depth (msg c) = depth" and hi: "hinv (host c)"
  shows "\<exists>c'. run_step H K c = Some c' \<and> step_le c c' \<and> progress c c'"
proof (cases "ip c \<ge> int (length (code c))")
  case True
  then show ?thesis by (simp add: run_step_def step_intros)
next
  case inside: False
  show ?thesis
  proof (cases "dispatchTable H K (unat (code c ! nat (ip c)))")
    case None
    with inside show ?thesis by (simp add: run_step_def step_intros)
  next
    case (Some hl)
    show ?thesis
    proof (cases "sp c < hstack hl \<or> gas c < hgas hl")
      case True
      with inside Some show ?thesis
        by (auto simp: run_step_def step_intros consumeGas_def)
    next
      case enough: False
      let ?c = "c\<lparr>gas := gas c - hgas hl\<rparr>"
      have le: "step_le c ?c"
        using step_le_consumeGas [of c c "hgas hl"] enough by (simp add: consumeGas_def)
      obtain c1 where c1: "inst hl ?c = Some c1" "step_le ?c c1" "hgas hl = 0 \<longrightarrow> progress ?c c1"
        using dispatch_ok [OF Some, unfolded handler_ok_def, rule_format, of ?c] eip d hi by auto
      have le1: "step_le c c1" using le c1(2) by (rule step_le_trans)
      have "gas ?c < gas c" if "hgas hl \<noteq> 0"
        using enough that by (simp add: u64_sub_less not_less)
      with c1(2,3) have prog: "progress c c1" by (auto simp: progress_def vm_le_def)
      let ?r = "if panicked c1 then c1 else if sp c1 > stackSize then exit_with ErrStackOverflow c1
                else c1\<lparr>ip := ip c1 + 1\<rparr>"
      have "run_step H K c = Some ?r"
        using inside Some enough c1(1) by (simp add: run_step_def consumeGas_def)
      moreover have "step_le c ?r \<and> progress c ?r"
        using le1 prog by (auto simp: progress_def intro: step_intros)
      ultimately show ?thesis by blast
    qed
  qed
qed

lemma run_loop_terminates:
  assumes "EIP150 (config c)" and "Depth (msg c) = depth" and "hinv (host c)"
  shows "\<exists>c'. run_loop H K c = Some c' \<and> step_le c c' \<and> (stop c' \<or> panicked c')"
  using assms
proof (induction "unat (gas c)" arbitrary: c rule: less_induct)
  case less
  show ?case
  proof (cases "stop c \<or> panicked c")
    case True
    then show ?thesis by (subst run_loop.simps) (simp add:)
  next
    case False
    obtain c1 where c1: "run_step H K c = Some c1" "step_le c c1" "progress c c1"
      using run_step_le [OF less.prems] by blast
    have run: "run_loop H K c = run_loop H K c1"
      using False c1(1) by (subst run_loop.simps) simp
    show ?thesis
    proof (cases "stop c1 \<or> panicked c1")
      case True
      then have "run_loop H K c1 = Some c1" by (subst run_loop.simps) simp
      with run c1(2) True show ?thesis by auto
    next
      case False
      with c1(3) have "unat (gas c1) < unat (gas c)" by (simp add: progress_def word_less_nat_alt)
      moreover have "EIP150 (config c1)" "Depth (msg c1) = depth" "hinv (host c1)"
        using c1(2) less.prems step_le_hinv [OF c1(2)] by (simp_all add: vm_le_def)
      ultimately obtain c' where "run_loop H K c1 = Some c'" "step_le c1 c'" "stop c' \<or> panicked c'"
        using less.hyps by blast
      with run c1(2) show ?thesis by (auto intro: step_le_trans)
    qed
  qed
qed

lemma EVM_Run_result:
  assumes "EIP150 cfg" and "Depth ct = depth" and "hinv h"
  shows "\<exists>h' r s'. EVM_Run H K s ct h cfg = Some (h', r, s') \<and> GasLeft r \<le> Gas ct
    \<and> rel (Static ct) h h' \<and> (fine h \<and> 0 \<le> valueOf ct \<and> list_all ((\<le>) 0) (stack s) \<longrightarrow> keeps h h')"
proof -
  let ?c = "prepare s ct h cfg"
  have p: "EIP150 (config ?c)" "Depth (msg ?c) = depth" "hinv (host ?c)" "gas ?c = Gas ct" "msg ?c = ct" "host ?c = h"
    using assms by (simp_all add: prepare_def Let_def)
  obtain c' where c': "run_loop H K ?c = Some c'" "step_le ?c c'"
    using run_loop_terminates [OF p(1,2,3)] by blast
  have "safe ?c" if "fine h" "0 \<le> valueOf ct" "list_all ((\<le>) 0) (stack s)"
    using that by (simp add: sound_def prepare_def Let_def resetReturnData_def)
  with c'(2) have "gas c' \<le> Gas ct" "rel (Static ct) h (host c')" 
      "fine h \<and> 0 \<le> valueOf ct \<and> list_all ((\<le>) 0) (stack s) \<longrightarrow> keeps h (host c')"
    using p(4,5,6) by (simp_all add: vm_le_def)
  with c'(1) show ?thesis by (simp add: EVM_Run_def state_Run_def)
qed

end

end
