(* ===== verification/Rlp.thy ===== *)
theory Rlp
  imports Runtime "HOL-Library.Monad_Syntax"
begin

text \<open>
  The RLP codec \<open>fastrlp\<close> as a parameter: the constructors of an arena, the marshaller, and the parser
  with the getters of a parsed value, over an abstract type \<open>'v\<close> of values.  A getter that returns an
  error is \<open>None\<close>.  \<open>rlp_laws\<close> states what the program relies on; a value built by the arena and the
  value parsed from its encoding are identified.  The two wrappers of \<open>types/rlp_marshal.go\<close> and
  \<open>types/rlp_unmarshal.go\<close> follow, and a concrete codec that has the laws.
\<close>

section \<open>The codec\<close>

record 'v Fastrlp =
  rlp_Parse :: "byte list \<Rightarrow> 'v option"
  rlp_GetElems :: "'v \<Rightarrow> 'v list option"
  rlp_GetUint64 :: "'v \<Rightarrow> u64 option"
  rlp_GetBigInt :: "'v \<Rightarrow> int option"
  rlp_GetHash :: "'v \<Rightarrow> hash option"
  rlp_GetAddr :: "'v \<Rightarrow> address option"
  rlp_GetBytes :: "'v \<Rightarrow> byte list option"
  rlp_NewArray :: "'v list \<Rightarrow> 'v"
  rlp_NewNullArray :: 'v
  rlp_NewUint :: "u64 \<Rightarrow> 'v"
  rlp_NewBigInt :: "int option \<Rightarrow> 'v"
  rlp_NewBytes :: "byte list \<Rightarrow> 'v"
  rlp_NewNull :: 'v
  rlp_Marshal :: "'v \<Rightarrow> byte list"

definition rlp_laws :: "'v Fastrlp \<Rightarrow> bool" where
  "rlp_laws F \<longleftrightarrow>
     (\<forall>v. rlp_Parse F (rlp_Marshal F v) = Some v) \<and>
     (\<forall>vs. rlp_GetElems F (rlp_NewArray F vs) = Some vs) \<and>
     (\<forall>b. rlp_GetElems F (rlp_NewBytes F b) = None) \<and>
     (\<forall>b. rlp_GetBytes F (rlp_NewBytes F b) = Some b) \<and>
     (\<forall>b. length b \<le> 8 \<longrightarrow> rlp_GetUint64 F (rlp_NewBytes F b) = Some (word_of_nat (be_nat b))) \<and>
     (\<forall>b. rlp_GetBigInt F (rlp_NewBytes F b) = Some (int (be_nat b))) \<and>
     (\<forall>b. rlp_GetHash F (rlp_NewBytes F b) = (if length b = 32 then Some (BytesToHash b) else None)) \<and>
     (\<forall>b. rlp_GetAddr F (rlp_NewBytes F b) = (if length b = 20 then Some (BytesToAddress b) else None)) \<and>
     rlp_NewNullArray F = rlp_NewArray F [] \<and> rlp_NewNull F = rlp_NewBytes F [] \<and>
     (\<forall>n. rlp_NewUint F n = rlp_NewBytes F (min_bytes (unat n))) \<and>
     (\<forall>x. rlp_NewBigInt F x = rlp_NewBytes F (case x of None \<Rightarrow> [] | Some i \<Rightarrow> Bytes i))"

definition MarshalRLPTo :: "'v Fastrlp \<Rightarrow> 'v \<Rightarrow> byte list \<Rightarrow> byte list" where
  "MarshalRLPTo F v dst = dst @ rlp_Marshal F v"

definition UnmarshalRlp :: "'v Fastrlp \<Rightarrow> ('v \<Rightarrow> 'a option) \<Rightarrow> byte list \<Rightarrow> 'a option" where
  "UnmarshalRlp F obj input = (case rlp_Parse F input of None \<Rightarrow> None | Some v \<Rightarrow> obj v)"

section \<open>Consequences of the laws\<close>

lemma length_min_bytes: "length (min_bytes n) \<le> k \<longleftrightarrow> n < 256 ^ k"
proof (induction n arbitrary: k rule: min_bytes.induct)
  case (1 n)
  show ?case
  proof (cases "n = 0")
    case True
    then show ?thesis by (simp add: min_bytes.simps [of 0])
  next
    case False
    show ?thesis
    proof (cases k)
      case (Suc j)
      then show ?thesis using "1.IH" [OF False, of j] False
        by (simp add: min_bytes.simps [of n] div_less_iff_less_mult mult.commute)
    qed (use False in \<open>simp add: min_bytes.simps [of n]\<close>)
  qed
qed

lemma length_min_bytes_u64 [simp]: "length (min_bytes (unat (n :: u64))) \<le> 8"
  using unat_lt_2p [of n] by (simp add: length_min_bytes)

lemma rlp_lawsD:
  assumes "rlp_laws F"
  shows "rlp_Parse F (rlp_Marshal F v) = Some v" "rlp_GetElems F (rlp_NewArray F vs) = Some vs"
    "rlp_GetElems F (rlp_NewNullArray F) = Some []" "rlp_GetElems F (rlp_NewNull F) = None"
    "rlp_GetElems F (rlp_NewBytes F b) = None"
    "rlp_GetBytes F (rlp_NewBytes F b) = Some b" "rlp_GetBytes F (rlp_NewNull F) = Some []"
    "rlp_GetBytes F (rlp_NewUint F n) = Some (min_bytes (unat n))"
    "rlp_GetUint64 F (rlp_NewUint F n) = Some n"
    "rlp_GetBigInt F (rlp_NewBigInt F (Some x)) = Some \<bar>x\<bar>"
    "rlp_GetHash F (rlp_NewBytes F (hash_bytes h)) = Some h"
    "rlp_GetAddr F (rlp_NewBytes F (address_bytes a)) = Some a"
    "length b \<le> 8 \<Longrightarrow> rlp_GetUint64 F (rlp_NewBytes F b) = Some (word_of_nat (be_nat b))"
  using assms by (simp_all add: rlp_laws_def)

lemma UnmarshalRlp_MarshalRLPTo:
  "rlp_laws F \<Longrightarrow> UnmarshalRlp F obj (MarshalRLPTo F v []) = obj v"
  by (simp add: UnmarshalRlp_def MarshalRLPTo_def rlp_lawsD)

text \<open>A loop that decodes the elements of a list and stops at the first error.\<close>

lemma those_map_roundtrip:
  "(\<And>x. x \<in> set xs \<Longrightarrow> dec (enc x) = Some (g x)) \<Longrightarrow> those (map dec (map enc xs)) = Some (map g xs)"
  by (induction xs) auto

section \<open>A concrete codec\<close>

datatype rlpv = RBytes "byte list" | RArray "rlpv list"

fun rlp_enc :: "rlpv \<Rightarrow> byte list" where
  "rlp_enc (RBytes b) = 0 # concat (map (\<lambda>x. [1, x]) b) @ [2]"
| "rlp_enc (RArray vs) = 3 # concat (map rlp_enc vs) @ [4]"

fun rlp_dec :: "byte list \<Rightarrow> byte list \<Rightarrow> rlpv list list \<Rightarrow> rlpv option" where
  "rlp_dec [] acc [[v]] = Some v"
| "rlp_dec (t # r) acc (f # fs) =
     (if t = 0 then rlp_dec r [] (f # fs)
      else if t = 1 then (case r of x # r' \<Rightarrow> rlp_dec r' (x # acc) (f # fs) | [] \<Rightarrow> None)
      else if t = 2 then rlp_dec r [] ((RBytes (rev acc) # f) # fs)
      else if t = 3 then rlp_dec r [] ([] # f # fs)
      else (case fs of g # gs \<Rightarrow> rlp_dec r [] ((RArray (rev f) # g) # gs) | [] \<Rightarrow> None))"
| "rlp_dec _ _ _ = None"

lemma rlp_dec_bytes:
  "rlp_dec (concat (map (\<lambda>x. [1, x]) b) @ 2 # r) acc (f # fs) = rlp_dec r [] ((RBytes (rev acc @ b) # f) # fs)"
  by (induction b arbitrary: acc) simp_all

lemma rlp_dec_list:
  assumes "\<And>v r f fs. v \<in> set vs \<Longrightarrow> rlp_dec (rlp_enc v @ r) [] (f # fs) = rlp_dec r [] ((v # f) # fs)"
  shows "rlp_dec (concat (map rlp_enc vs) @ r) [] (f # fs) = rlp_dec r [] ((rev vs @ f) # fs)"
  using assms by (induction vs arbitrary: f) simp_all

lemma rlp_dec_enc: "rlp_dec (rlp_enc v @ r) acc (f # fs) = rlp_dec r [] ((v # f) # fs)"
proof (induction v arbitrary: r acc f fs)
  case (RBytes b)
  then show ?case using rlp_dec_bytes [of b r "[]"] by simp
next
  case (RArray vs)
  then show ?case using rlp_dec_list [of vs "4 # r" "[]" "f # fs"] by simp
qed

definition bytesOf :: "rlpv \<Rightarrow> byte list option" where
  "bytesOf v = (case v of RBytes b \<Rightarrow> Some b | _ \<Rightarrow> None)"

definition demoRlp :: "rlpv Fastrlp" where
  "demoRlp = \<lparr>rlp_Parse = (\<lambda>b. rlp_dec b [] [[]]),
     rlp_GetElems = (\<lambda>v. case v of RArray vs \<Rightarrow> Some vs | _ \<Rightarrow> None),
     rlp_GetUint64 = (\<lambda>v. case bytesOf v of Some b \<Rightarrow> if length b \<le> 8 then Some (word_of_nat (be_nat b)) else None | None \<Rightarrow> None),
     rlp_GetBigInt = (\<lambda>v. map_option (\<lambda>b. int (be_nat b)) (bytesOf v)),
     rlp_GetHash = (\<lambda>v. case bytesOf v of Some b \<Rightarrow> if length b = 32 then Some (BytesToHash b) else None | None \<Rightarrow> None),
     rlp_GetAddr = (\<lambda>v. case bytesOf v of Some b \<Rightarrow> if length b = 20 then Some (BytesToAddress b) else None | None \<Rightarrow> None),
     rlp_GetBytes = bytesOf, rlp_NewArray = RArray, rlp_NewNullArray = RArray [],
     rlp_NewUint = (\<lambda>n. RBytes (min_bytes (unat n))),
     rlp_NewBigInt = (\<lambda>x. RBytes (case x of None \<Rightarrow> [] | Some i \<Rightarrow> Bytes i)),
     rlp_NewBytes = RBytes, rlp_NewNull = RBytes [], rlp_Marshal = rlp_enc\<rparr>"

definition demoCrypto :: Crypto where
  "demoCrypto = \<lparr>Keccak256 = BytesToHash, rlp_address_nonce = (\<lambda>_ _. [])\<rparr>"

lemma demoRlp_laws: "rlp_laws demoRlp"
  using rlp_dec_enc [of _ "[]" "[]" "[]" "[]"] by (simp add: rlp_laws_def demoRlp_def bytesOf_def)

end
