(* ===== verification/Receipts.thy ===== *)
theory Receipts
  imports Rlp
begin

text \<open>
  Receipts, logs and the log bloom filter (\<open>types/receipt.go\<close> and the receipt part of
  \<open>types/rlp_marshal_storage.go\<close>, \<open>types/rlp_unmarshal_storage.go\<close>).  A \<open>Bloom\<close> (\<open>[256]byte\<close>) is a byte
  list of length 256; a \<open>*ReceiptStatus\<close> is an optional number.
\<close>

section \<open>Data\<close>

record Log =
  log_Address :: address
  log_Topics :: "hash list"
  log_Data :: "byte list"

type_synonym Bloom = "byte list"

definition BloomByteLength :: nat where
  "BloomByteLength = 256"

record Receipt =
  rc_Root :: hash
  rc_CumulativeGasUsed :: u64
  rc_LogsBloom :: Bloom
  rc_Logs :: "Log list"
  rc_Status :: "u64 option"
  rc_GasUsed :: u64
  rc_ContractAddress :: "address option"
  rc_TxHash :: hash

definition ReceiptFailed :: u64 where
  "ReceiptFailed = 0"

definition ReceiptSuccess :: u64 where
  "ReceiptSuccess = 1"

definition emptyReceipt :: Receipt where
  "emptyReceipt = \<lparr>rc_Root = 0, rc_CumulativeGasUsed = 0, rc_LogsBloom = replicate BloomByteLength 0, rc_Logs = [],
     rc_Status = None, rc_GasUsed = 0, rc_ContractAddress = None, rc_TxHash = 0\<rparr>"

definition SetStatus :: "u64 \<Rightarrow> Receipt \<Rightarrow> Receipt" where
  "SetStatus s r = r\<lparr>rc_Status := Some s\<rparr>"

definition SetContractAddress :: "address \<Rightarrow> Receipt \<Rightarrow> Receipt" where
  "SetContractAddress contractAddress r = r\<lparr>rc_ContractAddress := Some contractAddress\<rparr>"

section \<open>Bloom filter\<close>

text \<open>The global bit position read from two bytes of a hash.\<close>

definition bloomBit :: "byte list \<Rightarrow> nat \<Rightarrow> u64" where
  "bloomBit buf i = (ucast (buf ! (i + 1)) + push_bit 8 (ucast (buf ! i))) AND 2047"

definition setBloomBit :: "u64 \<Rightarrow> Bloom \<Rightarrow> Bloom" where
  "setBloomBit pos b =
     (let byteLocation = 256 - 1 - pos div 8;
          bitLocation = pos mod 8
      in b[unat byteLocation := b ! unat byteLocation OR push_bit (unat bitLocation) 1])"

definition setEncode :: "Crypto \<Rightarrow> byte list \<Rightarrow> Bloom \<Rightarrow> Bloom" where
  "setEncode K h b = fold (\<lambda>i. setBloomBit (bloomBit (hash_bytes (Keccak256 K h)) i)) [0, 2, 4] b"

definition addLogBloom :: "Crypto \<Rightarrow> Log \<Rightarrow> Bloom \<Rightarrow> Bloom" where
  "addLogBloom K log b =
     fold (\<lambda>topic. setEncode K (hash_bytes topic)) (log_Topics log) (setEncode K (address_bytes (log_Address log)) b)"

definition CreateBloom :: "Crypto \<Rightarrow> Receipt list \<Rightarrow> Bloom" where
  "CreateBloom K receipts =
     fold (\<lambda>receipt. fold (addLogBloom K) (rc_Logs receipt)) receipts (replicate BloomByteLength 0)"

text \<open>The bit tested is \<open>1 << (bitLocation - 1)\<close> on unsigned values: for \<open>bitLocation = 0\<close> the
  shift distance wraps around to \<open>2 ^ 64 - 1\<close> and the shifted byte is zero.\<close>

definition testBloomBit :: "Bloom \<Rightarrow> u64 \<Rightarrow> bool" where
  "testBloomBit b pos =
     (let byteLocation = 256 - 1 - pos div 8;
          bitLocation = pos mod 8;
          referenceByte = b ! unat byteLocation
      in referenceByte AND push_bit (unat (bitLocation - 1)) 1 \<noteq> 0)"

definition isByteArrPresent :: "Crypto \<Rightarrow> byte list \<Rightarrow> Bloom \<Rightarrow> bool" where
  "isByteArrPresent K d b = list_all (\<lambda>i. testBloomBit b (bloomBit (hash_bytes (Keccak256 K d)) i)) [0, 2, 4]"

definition IsLogInBloom :: "Crypto \<Rightarrow> Log \<Rightarrow> Bloom \<Rightarrow> bool" where
  "IsLogInBloom K log b =
     (if \<not> isByteArrPresent K (address_bytes (log_Address log)) b then False
      else list_all (\<lambda>topic. isByteArrPresent K (hash_bytes topic) b) (log_Topics log))"

section \<open>Encodings\<close>

definition Log_MarshalRLPWith :: "'v Fastrlp \<Rightarrow> Log \<Rightarrow> 'v" where
  "Log_MarshalRLPWith F l =
     rlp_NewArray F
       [rlp_NewBytes F (address_bytes (log_Address l)),
        rlp_NewArray F (map (\<lambda>t. rlp_NewBytes F (hash_bytes t)) (log_Topics l)),
        rlp_NewBytes F (log_Data l)]"

definition Log_UnmarshalRLPFrom :: "'v Fastrlp \<Rightarrow> 'v \<Rightarrow> Log option" where
  "Log_UnmarshalRLPFrom F v =
     (rlp_GetElems F v \<bind> (\<lambda>elems.
      if length elems < 3 then None else
      rlp_GetAddr F (elems ! 0) \<bind> (\<lambda>a.
      rlp_GetElems F (elems ! 1) \<bind> (\<lambda>topicElems.
      those (map (rlp_GetHash F) topicElems) \<bind> (\<lambda>topics.
      rlp_GetBytes F (elems ! 2) \<bind> (\<lambda>d.
      Some \<lparr>log_Address = a, log_Topics = topics, log_Data = d\<rparr>))))))"

definition MarshalLogsWith :: "'v Fastrlp \<Rightarrow> Receipt \<Rightarrow> 'v" where
  "MarshalLogsWith F r =
     (if rc_Logs r = [] then rlp_NewNullArray F
      else rlp_NewArray F (map (Log_MarshalRLPWith F) (rc_Logs r)))"

definition Receipt_MarshalRLPWith :: "'v Fastrlp \<Rightarrow> Receipt \<Rightarrow> 'v" where
  "Receipt_MarshalRLPWith F r =
     rlp_NewArray F
       [(case rc_Status r of Some s \<Rightarrow> rlp_NewUint F s | None \<Rightarrow> rlp_NewBytes F (hash_bytes (rc_Root r))),
        rlp_NewUint F (rc_CumulativeGasUsed r), rlp_NewBytes F (rc_LogsBloom r), MarshalLogsWith F r]"

definition Receipts_MarshalRLPWith :: "'v Fastrlp \<Rightarrow> Receipt list \<Rightarrow> 'v" where
  "Receipts_MarshalRLPWith F r = rlp_NewArray F (map (Receipt_MarshalRLPWith F) r)"

definition decodeRootOrStatus :: "byte list \<Rightarrow> Receipt \<Rightarrow> Receipt" where
  "decodeRootOrStatus buf r =
     (if length buf = 32 then r\<lparr>rc_Root := BytesToHash buf\<rparr>
      else if length buf = 1 then SetStatus (ucast (buf ! 0)) r
      else SetStatus 0 r)"

text \<open>\<open>GetBytes(r.LogsBloom[:0], 256)\<close> fails unless there are exactly 256 bytes.\<close>

definition Receipt_UnmarshalRLPFrom :: "'v Fastrlp \<Rightarrow> Receipt \<Rightarrow> 'v \<Rightarrow> Receipt option" where
  "Receipt_UnmarshalRLPFrom F r v =
     (rlp_GetElems F v \<bind> (\<lambda>elems.
      if length elems < 4 then None else
      rlp_GetBytes F (elems ! 0) \<bind> (\<lambda>buf.
      rlp_GetUint64 F (elems ! 1) \<bind> (\<lambda>cumulative.
      rlp_GetBytes F (elems ! 2) \<bind> (\<lambda>bloom.
      if length bloom \<noteq> BloomByteLength then None else
      rlp_GetElems F (elems ! 3) \<bind> (\<lambda>logsElems.
      those (map (Log_UnmarshalRLPFrom F) logsElems) \<bind> (\<lambda>logs.
      Some ((decodeRootOrStatus buf r)\<lparr>rc_CumulativeGasUsed := cumulative, rc_LogsBloom := bloom,
              rc_Logs := rc_Logs r @ logs\<rparr>))))))))"

definition Receipts_UnmarshalRLPFrom :: "'v Fastrlp \<Rightarrow> Receipt list \<Rightarrow> 'v \<Rightarrow> Receipt list option" where
  "Receipts_UnmarshalRLPFrom F rs v =
     (rlp_GetElems F v \<bind> (\<lambda>elems.
      map_option (\<lambda>l. rs @ l) (those (map (Receipt_UnmarshalRLPFrom F emptyReceipt) elems))))"

definition Receipt_MarshalStoreRLPWith :: "'v Fastrlp \<Rightarrow> Receipt \<Rightarrow> 'v" where
  "Receipt_MarshalStoreRLPWith F r =
     rlp_NewArray F
       [Receipt_MarshalRLPWith F r,
        (case rc_ContractAddress r of None \<Rightarrow> rlp_NewNull F | Some a \<Rightarrow> rlp_NewBytes F (address_bytes a)),
        rlp_NewUint F (rc_GasUsed r), rlp_NewBytes F (hash_bytes (rc_TxHash r))]"

definition Receipts_MarshalStoreRLPWith :: "'v Fastrlp \<Rightarrow> Receipt list \<Rightarrow> 'v" where
  "Receipts_MarshalStoreRLPWith F r = rlp_NewArray F (map (Receipt_MarshalStoreRLPWith F) r)"

definition Receipt_UnmarshalStoreRLPFrom :: "'v Fastrlp \<Rightarrow> Receipt \<Rightarrow> 'v \<Rightarrow> Receipt option" where
  "Receipt_UnmarshalStoreRLPFrom F r v =
     (rlp_GetElems F v \<bind> (\<lambda>elems.
      if length elems < 3 then None else
      Receipt_UnmarshalRLPFrom F r (elems ! 0) \<bind> (\<lambda>r.
      rlp_GetBytes F (elems ! 1) \<bind> (\<lambda>vv.
      let r = (if length vv = 20 then SetContractAddress (BytesToAddress vv) r else r) in
      rlp_GetUint64 F (elems ! 2) \<bind> (\<lambda>gasUsed.
      let r = r\<lparr>rc_GasUsed := gasUsed\<rparr> in
      if length elems = 4
      then (rlp_GetBytes F (elems ! 3) \<bind> (\<lambda>vv. Some (r\<lparr>rc_TxHash := BytesToHash vv\<rparr>)))
      else Some r)))))"

definition Receipts_UnmarshalStoreRLPFrom :: "'v Fastrlp \<Rightarrow> Receipt list \<Rightarrow> 'v \<Rightarrow> Receipt list option" where
  "Receipts_UnmarshalStoreRLPFrom F rs v =
     (rlp_GetElems F v \<bind> (\<lambda>elems.
      map_option (\<lambda>l. rs @ l) (those (map (Receipt_UnmarshalStoreRLPFrom F emptyReceipt) elems))))"

section \<open>Lemmas on encodings\<close>

lemma Log_roundtrip: "rlp_laws F \<Longrightarrow> Log_UnmarshalRLPFrom F (Log_MarshalRLPWith F l) = Some l"
  using those_map_roundtrip [of "log_Topics l" "rlp_GetHash F" "\<lambda>t. rlp_NewBytes F (hash_bytes t)" id]
  by (simp add: Log_UnmarshalRLPFrom_def Log_MarshalRLPWith_def rlp_lawsD)

text \<open>What the encoding keeps: the status or the root, and a receipt of a well-formed bloom.\<close>

definition receipt_ok :: "Receipt \<Rightarrow> bool" where
  "receipt_ok r \<longleftrightarrow> length (rc_LogsBloom r) = BloomByteLength \<and>
     (case rc_Status r of None \<Rightarrow> True | Some s \<Rightarrow> (s = ReceiptFailed \<or> s = ReceiptSuccess) \<and> rc_Root r = 0)"

lemma decode_status:
  assumes "rlp_laws F" and "receipt_ok r" and "rc_Status r0 = None" "rc_Root r0 = 0"
    and "rlp_GetBytes F (case rc_Status r of Some s \<Rightarrow> rlp_NewUint F s | None \<Rightarrow> rlp_NewBytes F (hash_bytes (rc_Root r))) = Some buf"
  shows "decodeRootOrStatus buf r0 = r0\<lparr>rc_Root := rc_Root r, rc_Status := rc_Status r\<rparr>"
proof -
  have [simp]: "min_bytes 0 = []" "min_bytes (Suc 0) = [1]" by (simp_all add: min_bytes.simps)
  show ?thesis
    using assms
    by (cases "rc_Status r"; cases r0)
      (auto simp: rlp_lawsD [OF assms(1)] decodeRootOrStatus_def receipt_ok_def SetStatus_def ReceiptFailed_def
        ReceiptSuccess_def split: if_splits)
qed

lemma GetBytes_status:
  assumes "rlp_laws F"
  shows "\<exists>buf. rlp_GetBytes F (case rc_Status r of Some s \<Rightarrow> rlp_NewUint F s | None \<Rightarrow> rlp_NewBytes F (hash_bytes (rc_Root r))) = Some buf"
  by (cases "rc_Status r") (simp_all add: rlp_lawsD [OF assms])

lemma Receipt_roundtrip:
  assumes F: "rlp_laws F" and ok: "receipt_ok r"
  shows "Receipt_UnmarshalRLPFrom F emptyReceipt (Receipt_MarshalRLPWith F r) =
    Some (r\<lparr>rc_GasUsed := 0, rc_ContractAddress := None, rc_TxHash := 0\<rparr>)"
proof -
  obtain buf where buf: "rlp_GetBytes F (case rc_Status r of Some s \<Rightarrow> rlp_NewUint F s
      | None \<Rightarrow> rlp_NewBytes F (hash_bytes (rc_Root r))) = Some buf"
    using GetBytes_status [OF F] by blast
  have dec: "decodeRootOrStatus buf emptyReceipt = emptyReceipt\<lparr>rc_Root := rc_Root r, rc_Status := rc_Status r\<rparr>"
    by (rule decode_status [OF F ok _ _ buf]) (simp_all add: emptyReceipt_def)
  have elems: "rlp_GetElems F (MarshalLogsWith F r) = Some (map (Log_MarshalRLPWith F) (rc_Logs r))"
    by (simp add: MarshalLogsWith_def rlp_lawsD [OF F])
  have logs: "those (map (Log_UnmarshalRLPFrom F) (map (Log_MarshalRLPWith F) (rc_Logs r))) = Some (rc_Logs r)"
    using those_map_roundtrip [of "rc_Logs r" "Log_UnmarshalRLPFrom F" "Log_MarshalRLPWith F" id] Log_roundtrip [OF F]
    by simp
  have len: "length (rc_LogsBloom r) = BloomByteLength" using ok by (simp add: receipt_ok_def)
  show ?thesis
    by (simp add: Receipt_UnmarshalRLPFrom_def Receipt_MarshalRLPWith_def rlp_lawsD [OF F] buf dec elems logs len
        del: map_map) (simp add: emptyReceipt_def)
qed

lemma Receipt_store_roundtrip:
  assumes F: "rlp_laws F" and ok: "receipt_ok r"
  shows "Receipt_UnmarshalStoreRLPFrom F emptyReceipt (Receipt_MarshalStoreRLPWith F r) = Some r"
  by (cases "rc_ContractAddress r")
    (simp_all add: Receipt_UnmarshalStoreRLPFrom_def Receipt_MarshalStoreRLPWith_def rlp_lawsD [OF F]
      Receipt_roundtrip [OF F ok] SetContractAddress_def)

section \<open>Lemmas on the bloom filter\<close>

definition bloomHas :: "Bloom \<Rightarrow> u64 \<Rightarrow> bool" where
  "bloomHas b pos \<longleftrightarrow> bit (b ! unat (255 - pos div 8 :: u64)) (unat (pos mod 8))"

lemma unat_and_2047: "unat (w AND 2047 :: u64) < 2048"
proof -
  have "w AND 2047 = take_bit 11 w" by (simp add: take_bit_eq_mask mask_eq_exp_minus_1)
  then show ?thesis using take_bit_nat_less_exp [of 11 "unat w"] by (simp add: unsigned_take_bit_eq)
qed

lemma bloomBit_less: "unat (bloomBit buf i) < 2048"
  unfolding bloomBit_def by (rule unat_and_2047)

lemma unat_byteLocation: "unat pos < 2048 \<Longrightarrow> unat (255 - pos div 8 :: u64) = 255 - unat pos div 8"
  by (subst unat_sub) (simp_all add: word_le_nat_alt unat_div)

lemma unat_bitLocation: "unat (pos mod 8 :: u64) = unat pos mod 8"
  by (simp add: unat_mod)

lemma length_setBloomBit [simp]: "length (setBloomBit pos b) = length b"
  by (simp add: setBloomBit_def Let_def)

lemma bloomHas_set:
  assumes len: "length b = 256" and p: "unat p < 2048" and q: "unat q < 2048"
  shows "bloomHas (setBloomBit p b) q \<longleftrightarrow> p = q \<or> bloomHas b q"
proof -
  define x y where "x = 255 - unat p div 8" and "y = 255 - unat q div 8"
  have le: "unat p div 8 \<le> 255" "unat q div 8 \<le> 255" using p q by simp_all
  have eq: "p = q \<longleftrightarrow> unat p div 8 = unat q div 8 \<and> unat p mod 8 = unat q mod 8"
    by (metis div_mod_decomp word_unat_eq_iff)
  have xy: "x = y \<longleftrightarrow> unat p div 8 = unat q div 8" "x < 256" using le unfolding x_def y_def by linarith+
  have set: "setBloomBit p b = b[x := b ! x OR 2 ^ (unat p mod 8)]"
    by (simp add: setBloomBit_def Let_def unat_byteLocation [OF p] unat_bitLocation x_def)
  have has: "bloomHas c q \<longleftrightarrow> bit (c ! y) (unat q mod 8)" for c
    by (simp add: bloomHas_def unat_byteLocation [OF q] unat_bitLocation y_def)
  have two: "bit (2 ^ (unat p mod 8) :: byte) (unat q mod 8) \<longleftrightarrow> unat p mod 8 = unat q mod 8"
    by (auto simp: bit_exp_iff possible_bit_word)
  show ?thesis
  proof (cases "x = y")
    case True
    then show ?thesis using xy len by (auto simp: set has bit_or_iff two eq)
  next
    case False
    then show ?thesis using xy by (simp add: set has eq)
  qed
qed

lemma fold_length:
  assumes "\<And>x b. length (f x b) = length b"
  shows "length (fold f xs b) = length (b :: 'b list)"
  by (induction xs arbitrary: b) (simp_all add: assms)

text \<open>Every operation on the filter only sets bits.\<close>

definition bloomPositions :: "Crypto \<Rightarrow> byte list \<Rightarrow> u64 set" where
  "bloomPositions K d = (\<lambda>i. bloomBit (hash_bytes (Keccak256 K d)) i) ` {0, 2, 4}"

lemma setEncode_has:
  assumes "length b = 256" and "unat q < 2048"
  shows "bloomHas (setEncode K d b) q \<longleftrightarrow> q \<in> bloomPositions K d \<or> bloomHas b q"
  using assms by (auto simp: setEncode_def bloomHas_set bloomBit_less bloomPositions_def)

lemma length_setEncode [simp]: "length (setEncode K d b) = length b"
  by (simp add: setEncode_def)

lemma fold_has:
  assumes "\<And>x b. x \<in> set xs \<Longrightarrow> length b = 256 \<Longrightarrow> length (f x b) = 256 \<and> (P (f x b) \<longleftrightarrow> Q x \<or> P b)"
    and "length b = 256"
  shows "length (fold f xs b) = 256 \<and> (P (fold f xs b) \<longleftrightarrow> (\<exists>x\<in>set xs. Q x) \<or> P b)"
  using assms by (induction xs arbitrary: b) auto

definition logPositions :: "Crypto \<Rightarrow> Log \<Rightarrow> u64 set" where
  "logPositions K l = bloomPositions K (address_bytes (log_Address l)) \<union>
     (\<Union>t\<in>set (log_Topics l). bloomPositions K (hash_bytes t))"

lemma addLogBloom_has:
  assumes "length b = 256" and "unat q < 2048"
  shows "length (addLogBloom K l b) = 256 \<and> (bloomHas (addLogBloom K l b) q \<longleftrightarrow> q \<in> logPositions K l \<or> bloomHas b q)"
  using fold_has [where P = "\<lambda>b. bloomHas b q" and Q = "\<lambda>t. q \<in> bloomPositions K (hash_bytes t)"
      and f = "\<lambda>topic. setEncode K (hash_bytes topic)" and xs = "log_Topics l"
      and b = "setEncode K (address_bytes (log_Address l)) b"]
  by (auto simp: addLogBloom_def logPositions_def setEncode_has assms)

lemma CreateBloom_has:
  assumes "unat q < 2048"
  shows "length (CreateBloom K rs) = 256 \<and>
    (bloomHas (CreateBloom K rs) q \<longleftrightarrow> (\<exists>r\<in>set rs. \<exists>l\<in>set (rc_Logs r). q \<in> logPositions K l))"
proof -
  have logs: "length (fold (addLogBloom K) ls b) = 256 \<and>
      (bloomHas (fold (addLogBloom K) ls b) q \<longleftrightarrow> (\<exists>l\<in>set ls. q \<in> logPositions K l) \<or> bloomHas b q)"
    if "length b = 256" for ls b
    by (rule fold_has [where P = "\<lambda>b. bloomHas b q"]) (use addLogBloom_has [OF _ assms] that in blast)+
  have "unat (255 - q div 8) < 256" using assms by (simp add: unat_byteLocation)
  then have "\<not> bloomHas (replicate 256 0) q" by (simp only: bloomHas_def nth_replicate) simp
  then show ?thesis
    using fold_has [where P = "\<lambda>b. bloomHas b q" and Q = "\<lambda>r. \<exists>l\<in>set (rc_Logs r). q \<in> logPositions K l"
        and f = "\<lambda>r. fold (addLogBloom K) (rc_Logs r)" and xs = rs and b = "replicate 256 0"] logs
    by (simp add: CreateBloom_def BloomByteLength_def)
qed

text \<open>The test of the source looks at the neighbouring bit, and at no bit at all for the lowest one.\<close>

lemma exp_byte_0: "8 \<le> n \<Longrightarrow> 2 ^ n = (0 :: byte)"
  by (intro bit_eqI) (simp add: bit_exp_iff possible_bit_word)

lemma testBloomBit_iff:
  "testBloomBit b pos \<longleftrightarrow> unat pos mod 8 \<noteq> 0 \<and> bit (b ! unat (255 - pos div 8 :: u64)) (unat pos mod 8 - 1)"
proof (cases "unat pos mod 8 = 0")
  case True
  then have "pos mod 8 = 0" by (simp add: word_unat_eq_iff unat_bitLocation)
  then have "8 \<le> unat (pos mod 8 - 1)" by (simp add: unsigned_minus_1_eq_mask mask_eq_exp_minus_1)
  with True show ?thesis by (simp add: testBloomBit_def Let_def exp_byte_0)
next
  case False
  then have "1 \<le> pos mod 8" by (simp add: word_le_nat_alt unat_bitLocation)
  then have u: "unat (pos mod 8 - 1) = unat pos mod 8 - 1" by (simp add: unat_sub unat_bitLocation)
  have "unat pos mod 8 - 1 < 8" by (meson less_imp_diff_less mod_less_divisor zero_less_numeral)
  then have "w AND push_bit (unat pos mod 8 - 1) 1 \<noteq> 0 \<longleftrightarrow> bit w (unat pos mod 8 - 1)" for w :: byte
    by (auto simp: and_exp_eq_0_iff_not_bit)
  with False u show ?thesis by (simp add: testBloomBit_def Let_def)
qed

lemma be_bytes_zero: "be_bytes n 0 = replicate n 0"
  by (induction n) (simp_all add: replicate_append_same)

lemma bloomBit_zero: "i < 31 \<Longrightarrow> bloomBit (hash_bytes 0) i = 0"
  by (simp add: bloomBit_def hash_bytes_def be_bytes_zero)

section \<open>Properties\<close>

text \<open>C25: receipts survive both encodings.  A list of receipts as the executor makes them (256 bytes of bloom,
  and either a root or a status of 0 or 1) decodes from its storage encoding to itself, and from its network
  encoding to itself without the fields that encoding leaves out.\<close>

theorem receipts_encoding_roundtrip:
  assumes "rlp_laws F" and "\<forall>r\<in>set rs. receipt_ok r"
  shows "UnmarshalRlp F (Receipts_UnmarshalStoreRLPFrom F []) (MarshalRLPTo F (Receipts_MarshalStoreRLPWith F rs) []) = Some rs \<and>
    UnmarshalRlp F (Receipts_UnmarshalRLPFrom F []) (MarshalRLPTo F (Receipts_MarshalRLPWith F rs) []) =
      Some (map (\<lambda>r. r\<lparr>rc_GasUsed := 0, rc_ContractAddress := None, rc_TxHash := 0\<rparr>) rs)"
  using those_map_roundtrip [of rs "Receipt_UnmarshalStoreRLPFrom F emptyReceipt" "Receipt_MarshalStoreRLPWith F" id]
    those_map_roundtrip [of rs "Receipt_UnmarshalRLPFrom F emptyReceipt" "Receipt_MarshalRLPWith F"]
    Receipt_store_roundtrip [OF assms(1)] Receipt_roundtrip [OF assms(1)] assms(2)
  by (simp add: UnmarshalRlp_MarshalRLPTo [OF assms(1)] Receipts_UnmarshalStoreRLPFrom_def Receipts_MarshalStoreRLPWith_def
      Receipts_UnmarshalRLPFrom_def Receipts_MarshalRLPWith_def rlp_lawsD [OF assms(1)])

theorem receipts_encoding_roundtrip_witness:
  "UnmarshalRlp demoRlp (Receipts_UnmarshalStoreRLPFrom demoRlp [])
     (MarshalRLPTo demoRlp (Receipts_MarshalStoreRLPWith demoRlp [SetStatus ReceiptSuccess emptyReceipt]) []) =
   Some [SetStatus ReceiptSuccess emptyReceipt]"
  using receipts_encoding_roundtrip [OF demoRlp_laws, of "[SetStatus ReceiptSuccess emptyReceipt]"]
  by (simp add: receipt_ok_def SetStatus_def emptyReceipt_def)

text \<open>C29: the bloom filter of receipts has a bit set exactly when it is one of the three bits that the hash of
  an address or of a topic of one of the logs selects.\<close>

theorem CreateBloom_correct:
  assumes "unat q < 2048"
  shows "length (CreateBloom K rs) = BloomByteLength \<and>
    (bit (CreateBloom K rs ! (255 - unat q div 8)) (unat q mod 8) \<longleftrightarrow>
     (\<exists>r\<in>set rs. \<exists>l\<in>set (rc_Logs r). \<exists>d\<in>insert (address_bytes (log_Address l)) (hash_bytes ` set (log_Topics l)).
        q \<in> bloomBit (hash_bytes (Keccak256 K d)) ` {0, 2, 4}))"
  using CreateBloom_has [OF assms, of K rs] unat_byteLocation [OF assms] unat_bitLocation [of q]
  by (auto simp: bloomHas_def logPositions_def bloomPositions_def BloomByteLength_def)

theorem CreateBloom_correct_witness:
  "bit (CreateBloom \<lparr>Keccak256 = (\<lambda>_. 0), rlp_address_nonce = (\<lambda>_ _. [])\<rparr>
      [emptyReceipt\<lparr>rc_Logs := [\<lparr>log_Address = 1, log_Topics = [], log_Data = []\<rparr>]\<rparr>] ! 255) 0"
proof -
  have "bloomBit (hash_bytes 0) 0 = 0" by (rule bloomBit_zero) simp
  with CreateBloom_correct [of 0 "\<lparr>Keccak256 = (\<lambda>_. 0), rlp_address_nonce = (\<lambda>_ _. [])\<rparr>"
      "[emptyReceipt\<lparr>rc_Logs := [\<lparr>log_Address = 1, log_Topics = [], log_Data = []\<rparr>]\<rparr>]"]
  show ?thesis by (simp add: image_iff)
qed

text \<open>C30: the membership test is wrong.  It looks at the bit below the one the filter sets, so a log whose
  address hash selects a bit at a multiple of eight is reported absent from every filter, the filter of its
  own receipt included.\<close>

theorem IsLogInBloom_misses:
  assumes "i \<in> {0, 2, 4}"
    and "unat (bloomBit (hash_bytes (Keccak256 K (address_bytes (log_Address l)))) i) mod 8 = 0"
  shows "\<not> IsLogInBloom K l (CreateBloom K (r\<lparr>rc_Logs := l # ls\<rparr> # rs))"
  using assms by (auto simp: IsLogInBloom_def isByteArrPresent_def testBloomBit_iff)

theorem IsLogInBloom_misses_witness:
  "\<not> IsLogInBloom \<lparr>Keccak256 = (\<lambda>_. 0), rlp_address_nonce = (\<lambda>_ _. [])\<rparr> \<lparr>log_Address = 1, log_Topics = [], log_Data = []\<rparr>
     (CreateBloom \<lparr>Keccak256 = (\<lambda>_. 0), rlp_address_nonce = (\<lambda>_ _. [])\<rparr>
       [emptyReceipt\<lparr>rc_Logs := [\<lparr>log_Address = 1, log_Topics = [], log_Data = []\<rparr>]\<rparr>])"
proof -
  have "bloomBit (hash_bytes 0) 0 = 0" by (rule bloomBit_zero) simp
  then show ?thesis
    using IsLogInBloom_misses [of 0 "\<lparr>Keccak256 = (\<lambda>_. 0), rlp_address_nonce = (\<lambda>_ _. [])\<rparr>"
        "\<lparr>log_Address = 1, log_Topics = [], log_Data = []\<rparr>" "[]" emptyReceipt "[]"] by simp
qed

end
