(* ===== verification/Txn.thy ===== *)
theory Txn
  imports EVM_Host Receipts
begin

text \<open>
  The transactional view of the world state (\<open>state/txn.go\<close>, \<open>state/state.go\<close>): accounts read
  from a committed snapshot of the state trie and overlaid by an immutable radix tree, with
  snapshots that are roots of that tree.

  The radix tree (\<open>go-immutable-radix\<close>), the RLP parser (\<open>fastrlp\<close>) and the committed state (the
  interfaces \<open>State\<close> and \<open>Snapshot\<close>) are parameters, collected in \<open>TxnEnv\<close>.  A radix tree under
  modification and a committed root of it are the same value here, as the tree is persistent.  The
  type variables are \<open>'s\<close> for the radix tree of an account's storage, \<open>'t\<close> for that of the
  accounts, \<open>'n\<close> for committed snapshots and \<open>'v\<close> for parsed RLP values.
\<close>

section \<open>The radix tree\<close>

record ('t, 'e) Radix =
  rx_New :: 't
  rx_Get :: "'t \<Rightarrow> byte list \<Rightarrow> 'e option"
  rx_Insert :: "'t \<Rightarrow> byte list \<Rightarrow> 'e \<Rightarrow> 't"
  rx_Delete :: "'t \<Rightarrow> byte list \<Rightarrow> 't"
  rx_Walk :: "'t \<Rightarrow> (byte list \<times> 'e) list"

text \<open>The documented behaviour of the radix tree: a finite map with a walk over its
  entries.\<close>

definition radix_laws :: "('t, 'e) Radix \<Rightarrow> bool" where
  "radix_laws R \<longleftrightarrow>
     (\<forall>k. rx_Get R (rx_New R) k = None) \<and>
     (\<forall>t k e k'. rx_Get R (rx_Insert R t k e) k' = (if k = k' then Some e else rx_Get R t k')) \<and>
     (\<forall>t k k'. rx_Get R (rx_Delete R t k) k' = (if k = k' then None else rx_Get R t k')) \<and>
     (\<forall>t k e. (k, e) \<in> set (rx_Walk R t) \<longleftrightarrow> rx_Get R t k = Some e) \<and>
     (\<forall>t. distinct (map fst (rx_Walk R t)))"

section \<open>Accounts and state objects\<close>

record 'n Account =
  acc_Nonce :: u64
  acc_Balance :: int
  acc_Root :: hash
  acc_CodeHash :: "byte list"
  acc_Trie :: 'n

record ('s, 'n) StateObject =
  so_Account :: "'n Account"
  so_Code :: "byte list"
  so_Suicide :: bool
  so_Deleted :: bool
  so_DirtyCode :: bool
  so_Txn :: "'s option"

record StorageObject =
  sto_Deleted :: bool
  sto_Key :: "byte list"
  sto_Val :: "byte list"

record Object =
  obj_Address :: address
  obj_CodeHash :: hash
  obj_Balance :: int
  obj_Root :: hash
  obj_Nonce :: u64
  obj_Deleted :: bool
  obj_DirtyCode :: bool
  obj_Code :: "byte list"
  obj_Storage :: "StorageObject list"

text \<open>The values kept in the radix tree of a transaction: state objects under account addresses,
  the logs and the refund counter under two reserved keys.\<close>

datatype ('s, 'n) entry =
    EObject "('s, 'n) StateObject"
  | ELogs "Log list"
  | ERefund u64

record ('s, 't, 'n, 'v) TxnEnv =
  env_storage :: "('s, byte list option) Radix"
  env_tree :: "('t, ('s, 'n) entry) Radix"
  env_rlp :: "'v Fastrlp"
  env_crypto :: Crypto
  NewSnapshot :: 'n
  NewSnapshotAt :: "hash \<Rightarrow> 'n option"
  State_GetCode :: "hash \<Rightarrow> byte list option"
  Snapshot_Get :: "'n \<Rightarrow> byte list \<Rightarrow> byte list option"
  Snapshot_Commit :: "'n \<Rightarrow> Object list \<Rightarrow> 'n \<times> byte list"

definition Account_Copy :: "'n Account \<Rightarrow> 'n Account" where
  "Account_Copy a = a\<lparr>acc_Balance := SetBytes (Bytes (acc_Balance a))\<rparr>"

definition StateObject_Copy :: "('s, 'n) StateObject \<Rightarrow> ('s, 'n) StateObject" where
  "StateObject_Copy s = s\<lparr>so_Account := Account_Copy (so_Account s)\<rparr>"

definition Account_MarshalWith :: "'v Fastrlp \<Rightarrow> 'n Account \<Rightarrow> 'v" where
  "Account_MarshalWith F a =
     rlp_NewArray F
       [rlp_NewUint F (acc_Nonce a), rlp_NewBigInt F (Some (acc_Balance a)), rlp_NewBytes F (hash_bytes (acc_Root a)),
        rlp_NewBytes F (acc_CodeHash a)]"

definition Account_UnmarshalRlp :: "'v Fastrlp \<Rightarrow> 'n \<Rightarrow> byte list \<Rightarrow> 'n Account option" where
  "Account_UnmarshalRlp F trie b =
     (case rlp_Parse F b of None \<Rightarrow> None | Some v \<Rightarrow>
      case rlp_GetElems F v of None \<Rightarrow> None | Some elems \<Rightarrow>
      if length elems < 4 then None else
      case rlp_GetUint64 F (elems ! 0) of None \<Rightarrow> None | Some nonce \<Rightarrow>
      case rlp_GetBigInt F (elems ! 1) of None \<Rightarrow> None | Some balance \<Rightarrow>
      case rlp_GetHash F (elems ! 2) of None \<Rightarrow> None | Some root \<Rightarrow>
      case rlp_GetBytes F (elems ! 3) of None \<Rightarrow> None | Some codeHash \<Rightarrow>
      Some \<lparr>acc_Nonce = nonce, acc_Balance = balance, acc_Root = root, acc_CodeHash = codeHash,
            acc_Trie = trie\<rparr>)"

section \<open>Transactions\<close>

record ('t, 'n) Txn =
  txn_snapshot :: 'n
  txn_snapshots :: "'t list"
  txn_txn :: 't

definition emptyStateHash :: hash where
  "emptyStateHash = 0x56e81f171bcc55a6ff8345e692c0f86e5b48e01b996cadc001622fb5e363b421"

definition logIndex :: "byte list" where
  "logIndex = hash_bytes (BytesToHash [2])"

definition refundIndex :: "byte list" where
  "refundIndex = hash_bytes (BytesToHash [3])"

definition emptyCodeHash :: "('s, 't, 'n, 'v) TxnEnv \<Rightarrow> byte list" where
  "emptyCodeHash E = hash_bytes (Keccak256 (env_crypto E) [])"

definition newTxn :: "('s, 't, 'n, 'v) TxnEnv \<Rightarrow> 'n \<Rightarrow> ('t, 'n) Txn" where
  "newTxn E snapshot =
     \<lparr>txn_snapshot = snapshot, txn_snapshots = [], txn_txn = rx_New (env_tree E)\<rparr>"

definition hashit :: "('s, 't, 'n, 'v) TxnEnv \<Rightarrow> byte list \<Rightarrow> byte list" where
  "hashit E src = hash_bytes (Keccak256 (env_crypto E) src)"

definition Snapshot :: "('t, 'n) Txn \<Rightarrow> nat \<times> ('t, 'n) Txn" where
  "Snapshot T = (length (txn_snapshots T), T\<lparr>txn_snapshots := txn_snapshots T @ [txn_txn T]\<rparr>)"

text \<open>\<open>None\<close> is the panic of an identifier that was never handed out.\<close>

definition RevertToSnapshot :: "nat \<Rightarrow> ('t, 'n) Txn \<Rightarrow> ('t, 'n) Txn option" where
  "RevertToSnapshot i T =
     (if i > length (txn_snapshots T) then None
      else if i < length (txn_snapshots T) then Some (T\<lparr>txn_txn := txn_snapshots T ! i\<rparr>)
      else None)"

definition tree_get :: "('s, 't, 'n, 'v) TxnEnv \<Rightarrow> ('t, 'n) Txn \<Rightarrow> byte list \<Rightarrow> ('s, 'n) entry option" where
  "tree_get E T k = rx_Get (env_tree E) (txn_txn T) k"

definition tree_insert ::
  "('s, 't, 'n, 'v) TxnEnv \<Rightarrow> byte list \<Rightarrow> ('s, 'n) entry \<Rightarrow> ('t, 'n) Txn \<Rightarrow> ('t, 'n) Txn" where
  "tree_insert E k e T = T\<lparr>txn_txn := rx_Insert (env_tree E) (txn_txn T) k e\<rparr>"

definition tree_delete :: "('s, 't, 'n, 'v) TxnEnv \<Rightarrow> byte list \<Rightarrow> ('t, 'n) Txn \<Rightarrow> ('t, 'n) Txn" where
  "tree_delete E k T = T\<lparr>txn_txn := rx_Delete (env_tree E) (txn_txn T) k\<rparr>"

text \<open>The part of \<open>getStateObject\<close> that reads the committed snapshot.\<close>

definition loadAccount ::
  "('s, 't, 'n, 'v) TxnEnv \<Rightarrow> ('t, 'n) Txn \<Rightarrow> address \<Rightarrow> ('s, 'n) StateObject option" where
  "loadAccount E T addr =
     (case Snapshot_Get E (txn_snapshot T) (hashit E (address_bytes addr)) of
        None \<Rightarrow> None
      | Some d \<Rightarrow>
          (case Account_UnmarshalRlp (env_rlp E) (NewSnapshot E) d of
             None \<Rightarrow> None
           | Some account \<Rightarrow>
               (case (if acc_Root account = emptyStateHash then Some (NewSnapshot E)
                      else NewSnapshotAt E (acc_Root account)) of
                  None \<Rightarrow> None
                | Some trie \<Rightarrow>
                    Some \<lparr>so_Account = Account_Copy (account\<lparr>acc_Trie := trie\<rparr>), so_Code = [],
                          so_Suicide = False, so_Deleted = False, so_DirtyCode = False,
                          so_Txn = None\<rparr>)))"

text \<open>Only state objects are stored under the 20 bytes of an address, so the type assertion of the
  source does not panic; the model returns no object there.\<close>

definition getStateObject ::
  "('s, 't, 'n, 'v) TxnEnv \<Rightarrow> ('t, 'n) Txn \<Rightarrow> address \<Rightarrow> ('s, 'n) StateObject option" where
  "getStateObject E T addr =
     (case tree_get E T (address_bytes addr) of
        Some (EObject obj) \<Rightarrow> (if so_Deleted obj then None else Some (StateObject_Copy obj))
      | Some _ \<Rightarrow> None
      | None \<Rightarrow> loadAccount E T addr)"

definition GetAccount :: "('s, 't, 'n, 'v) TxnEnv \<Rightarrow> ('t, 'n) Txn \<Rightarrow> address \<Rightarrow> 'n Account option" where
  "GetAccount E T addr = map_option so_Account (getStateObject E T addr)"

definition newStateObject :: "('s, 't, 'n, 'v) TxnEnv \<Rightarrow> ('s, 'n) StateObject" where
  "newStateObject E =
     \<lparr>so_Account = \<lparr>acc_Nonce = 0, acc_Balance = 0, acc_Root = emptyStateHash,
                    acc_CodeHash = emptyCodeHash E, acc_Trie = NewSnapshot E\<rparr>,
      so_Code = [], so_Suicide = False, so_Deleted = False, so_DirtyCode = False, so_Txn = None\<rparr>"

text \<open>The callback \<open>f\<close> of \<open>upsertAccount\<close> modifies the object in place; nil is \<open>None\<close>.\<close>

definition upsertAccount ::
  "('s, 't, 'n, 'v) TxnEnv \<Rightarrow> address \<Rightarrow> bool \<Rightarrow>
   (('s, 'n) StateObject option \<Rightarrow> ('s, 'n) StateObject option) \<Rightarrow> ('t, 'n) Txn \<Rightarrow> ('t, 'n) Txn" where
  "upsertAccount E addr create f T =
     (let object = (case getStateObject E T addr of
                      Some obj \<Rightarrow> Some obj
                    | None \<Rightarrow> if create then Some (newStateObject E) else None)
      in case f object of
           Some obj \<Rightarrow> tree_insert E (address_bytes addr) (EObject obj) T
         | None \<Rightarrow> T)"

definition withBalance :: "(int \<Rightarrow> int) \<Rightarrow> ('s, 'n) StateObject \<Rightarrow> ('s, 'n) StateObject" where
  "withBalance f obj = obj\<lparr>so_Account := (so_Account obj)\<lparr>acc_Balance := f (acc_Balance (so_Account obj))\<rparr>\<rparr>"

section \<open>Balances\<close>

definition AddSealingReward ::
  "('s, 't, 'n, 'v) TxnEnv \<Rightarrow> address \<Rightarrow> int \<Rightarrow> ('t, 'n) Txn \<Rightarrow> ('t, 'n) Txn" where
  "AddSealingReward E addr balance T = upsertAccount E addr True (map_option (\<lambda>obj.
     if so_Suicide obj then withBalance (\<lambda>_. SetBytes (Bytes balance)) (newStateObject E)
     else withBalance (\<lambda>b. b + balance) obj)) T"

definition AddBalance ::
  "('s, 't, 'n, 'v) TxnEnv \<Rightarrow> address \<Rightarrow> int \<Rightarrow> ('t, 'n) Txn \<Rightarrow> ('t, 'n) Txn" where
  "AddBalance E addr balance T = upsertAccount E addr True (map_option (withBalance (\<lambda>b. b + balance))) T"

definition Txn_GetBalance :: "('s, 't, 'n, 'v) TxnEnv \<Rightarrow> ('t, 'n) Txn \<Rightarrow> address \<Rightarrow> int" where
  "Txn_GetBalance E T addr =
     (case getStateObject E T addr of None \<Rightarrow> 0 | Some obj \<Rightarrow> acc_Balance (so_Account obj))"

definition SubBalance ::
  "('s, 't, 'n, 'v) TxnEnv \<Rightarrow> address \<Rightarrow> int \<Rightarrow> ('t, 'n) Txn \<Rightarrow> vm_error option \<times> ('t, 'n) Txn" where
  "SubBalance E addr amount T =
     (if sgn amount = 0 then (None, T)
      else if Txn_GetBalance E T addr < amount then (Some ErrNotEnoughFunds, T)
      else (None, upsertAccount E addr True (map_option (withBalance (\<lambda>b. b - amount))) T))"

definition SetBalance ::
  "('s, 't, 'n, 'v) TxnEnv \<Rightarrow> address \<Rightarrow> int \<Rightarrow> ('t, 'n) Txn \<Rightarrow> ('t, 'n) Txn" where
  "SetBalance E addr balance T =
     upsertAccount E addr True (map_option (withBalance (\<lambda>_. SetBytes (Bytes balance)))) T"

section \<open>Logs and refunds\<close>

definition pendingLogs :: "('s, 't, 'n, 'v) TxnEnv \<Rightarrow> ('t, 'n) Txn \<Rightarrow> Log list" where
  "pendingLogs E T = (case tree_get E T logIndex of Some (ELogs logs) \<Rightarrow> logs | _ \<Rightarrow> [])"

definition AddLog :: "('s, 't, 'n, 'v) TxnEnv \<Rightarrow> Log \<Rightarrow> ('t, 'n) Txn \<Rightarrow> ('t, 'n) Txn" where
  "AddLog E log T = tree_insert E logIndex (ELogs (pendingLogs E T @ [log])) T"

definition Txn_EmitLog ::
  "('s, 't, 'n, 'v) TxnEnv \<Rightarrow> address \<Rightarrow> hash list \<Rightarrow> byte list \<Rightarrow> ('t, 'n) Txn \<Rightarrow> ('t, 'n) Txn" where
  "Txn_EmitLog E addr topics d T =
     AddLog E \<lparr>log_Address = addr, log_Topics = topics, log_Data = d\<rparr> T"

definition Logs :: "('s, 't, 'n, 'v) TxnEnv \<Rightarrow> ('t, 'n) Txn \<Rightarrow> Log list \<times> ('t, 'n) Txn" where
  "Logs E T =
     (case tree_get E T logIndex of
        None \<Rightarrow> ([], T)
      | Some e \<Rightarrow> (pendingLogs E T, tree_delete E logIndex T))"

definition GetRefund :: "('s, 't, 'n, 'v) TxnEnv \<Rightarrow> ('t, 'n) Txn \<Rightarrow> u64" where
  "GetRefund E T = (case tree_get E T refundIndex of Some (ERefund r) \<Rightarrow> r | _ \<Rightarrow> 0)"

definition AddRefund :: "('s, 't, 'n, 'v) TxnEnv \<Rightarrow> u64 \<Rightarrow> ('t, 'n) Txn \<Rightarrow> ('t, 'n) Txn" where
  "AddRefund E g T = tree_insert E refundIndex (ERefund (GetRefund E T + g)) T"

definition SubRefund :: "('s, 't, 'n, 'v) TxnEnv \<Rightarrow> u64 \<Rightarrow> ('t, 'n) Txn \<Rightarrow> ('t, 'n) Txn" where
  "SubRefund E g T = tree_insert E refundIndex (ERefund (GetRefund E T - g)) T"

section \<open>Storage\<close>

definition GetCommitedState :: "('s, 't, 'n, 'v) TxnEnv \<Rightarrow> ('s, 'n) StateObject \<Rightarrow> hash \<Rightarrow> hash" where
  "GetCommitedState E obj key =
     (case Snapshot_Get E (acc_Trie (so_Account obj)) (hash_bytes key) of
        None \<Rightarrow> 0
      | Some val \<Rightarrow>
          (case rlp_Parse (env_rlp E) val of
             None \<Rightarrow> 0
           | Some v \<Rightarrow> (case rlp_GetBytes (env_rlp E) v of None \<Rightarrow> 0 | Some res \<Rightarrow> BytesToHash res)))"

definition GetState :: "('s, 't, 'n, 'v) TxnEnv \<Rightarrow> ('t, 'n) Txn \<Rightarrow> address \<Rightarrow> hash \<Rightarrow> hash" where
  "GetState E T addr key =
     (case getStateObject E T addr of
        None \<Rightarrow> 0
      | Some obj \<Rightarrow>
          (case (case so_Txn obj of None \<Rightarrow> None | Some t \<Rightarrow> rx_Get (env_storage E) t (hash_bytes key)) of
             Some None \<Rightarrow> 0
           | Some (Some val) \<Rightarrow> BytesToHash val
           | None \<Rightarrow> GetCommitedState E obj (BytesToHash (hashit E (hash_bytes key)))))"

definition GetCommittedState :: "('s, 't, 'n, 'v) TxnEnv \<Rightarrow> ('t, 'n) Txn \<Rightarrow> address \<Rightarrow> hash \<Rightarrow> hash" where
  "GetCommittedState E T addr key =
     (case getStateObject E T addr of
        None \<Rightarrow> 0
      | Some obj \<Rightarrow> GetCommitedState E obj (BytesToHash (hashit E (hash_bytes key))))"

definition setSlot :: "('s, 't, 'n, 'v) TxnEnv \<Rightarrow> hash \<Rightarrow> hash \<Rightarrow> ('s, 'n) StateObject \<Rightarrow> ('s, 'n) StateObject" where
  "setSlot E key val obj =
     (let t = (case so_Txn obj of None \<Rightarrow> rx_New (env_storage E) | Some t \<Rightarrow> t)
      in obj\<lparr>so_Txn := Some (rx_Insert (env_storage E) t (hash_bytes key)
               (if val = 0 then None else Some (hash_bytes val)))\<rparr>)"

definition SetState ::
  "('s, 't, 'n, 'v) TxnEnv \<Rightarrow> address \<Rightarrow> hash \<Rightarrow> hash \<Rightarrow> ('t, 'n) Txn \<Rightarrow> ('t, 'n) Txn" where
  "SetState E addr key val T = upsertAccount E addr True (map_option (setSlot E key val)) T"

definition Txn_SetStorage ::
  "('s, 't, 'n, 'v) TxnEnv \<Rightarrow> address \<Rightarrow> hash \<Rightarrow> hash \<Rightarrow> ForksInTime \<Rightarrow> ('t, 'n) Txn \<Rightarrow>
   StorageStatus \<times> ('t, 'n) Txn" where
  "Txn_SetStorage E addr key val cfg T =
     (let oldValue = GetState E T addr key in
      if oldValue = val then (StorageUnchanged, T)
      else
        let current = oldValue;
            original = GetCommittedState E T addr key;
            T = SetState E addr key val T;
            legacyGasMetering = (\<not> Istanbul cfg \<and> (Petersburg cfg \<or> \<not> Constantinople cfg)) in
        if legacyGasMetering then
          (if oldValue = 0 then (StorageAdded, T)
           else if val = 0 then (StorageDeleted, AddRefund E 15000 T)
           else (StorageModified, T))
        else if original = current then
          (if original = 0 then (StorageAdded, T)
           else if val = 0 then (StorageDeleted, AddRefund E 15000 T)
           else (StorageModified, T))
        else
          let T = (if original \<noteq> 0
                   then (if current = 0 then SubRefund E 15000 T
                         else if val = 0 then AddRefund E 15000 T else T)
                   else T);
              T = (if original = val
                   then (if original = 0 then AddRefund E (if Istanbul cfg then 19200 else 19800) T
                         else AddRefund E (if Istanbul cfg then 4200 else 4800) T)
                   else T)
          in (StorageModifiedAgain, T))"

section \<open>Nonces, code and lifecycle\<close>

definition withNonce :: "(u64 \<Rightarrow> u64) \<Rightarrow> ('s, 'n) StateObject \<Rightarrow> ('s, 'n) StateObject" where
  "withNonce f obj = obj\<lparr>so_Account := (so_Account obj)\<lparr>acc_Nonce := f (acc_Nonce (so_Account obj))\<rparr>\<rparr>"

definition IncrNonce :: "('s, 't, 'n, 'v) TxnEnv \<Rightarrow> address \<Rightarrow> ('t, 'n) Txn \<Rightarrow> ('t, 'n) Txn" where
  "IncrNonce E addr T = upsertAccount E addr True (map_option (withNonce (\<lambda>n. n + 1))) T"

definition SetNonce :: "('s, 't, 'n, 'v) TxnEnv \<Rightarrow> address \<Rightarrow> u64 \<Rightarrow> ('t, 'n) Txn \<Rightarrow> ('t, 'n) Txn" where
  "SetNonce E addr nonce T = upsertAccount E addr True (map_option (withNonce (\<lambda>_. nonce))) T"

definition Txn_GetNonce :: "('s, 't, 'n, 'v) TxnEnv \<Rightarrow> ('t, 'n) Txn \<Rightarrow> address \<Rightarrow> u64" where
  "Txn_GetNonce E T addr =
     (case getStateObject E T addr of None \<Rightarrow> 0 | Some obj \<Rightarrow> acc_Nonce (so_Account obj))"

definition SetCode :: "('s, 't, 'n, 'v) TxnEnv \<Rightarrow> address \<Rightarrow> byte list \<Rightarrow> ('t, 'n) Txn \<Rightarrow> ('t, 'n) Txn" where
  "SetCode E addr cd T = upsertAccount E addr True (map_option (\<lambda>obj.
     obj\<lparr>so_Account := (so_Account obj)\<lparr>acc_CodeHash := hash_bytes (Keccak256 (env_crypto E) cd)\<rparr>,
         so_DirtyCode := True, so_Code := cd\<rparr>)) T"

definition Txn_GetCode :: "('s, 't, 'n, 'v) TxnEnv \<Rightarrow> ('t, 'n) Txn \<Rightarrow> address \<Rightarrow> byte list" where
  "Txn_GetCode E T addr =
     (case getStateObject E T addr of
        None \<Rightarrow> []
      | Some obj \<Rightarrow>
          if so_DirtyCode obj then so_Code obj
          else case State_GetCode E (BytesToHash (acc_CodeHash (so_Account obj))) of
                 None \<Rightarrow> [] | Some cd \<Rightarrow> cd)"

definition Txn_GetCodeSize :: "('s, 't, 'n, 'v) TxnEnv \<Rightarrow> ('t, 'n) Txn \<Rightarrow> address \<Rightarrow> nat" where
  "Txn_GetCodeSize E T addr = length (Txn_GetCode E T addr)"

definition Txn_GetCodeHash :: "('s, 't, 'n, 'v) TxnEnv \<Rightarrow> ('t, 'n) Txn \<Rightarrow> address \<Rightarrow> hash" where
  "Txn_GetCodeHash E T addr =
     (case getStateObject E T addr of
        None \<Rightarrow> 0 | Some obj \<Rightarrow> BytesToHash (acc_CodeHash (so_Account obj)))"

definition Suicide :: "('s, 't, 'n, 'v) TxnEnv \<Rightarrow> address \<Rightarrow> ('t, 'n) Txn \<Rightarrow> bool \<times> ('t, 'n) Txn" where
  "Suicide E addr T =
     ((case getStateObject E T addr of None \<Rightarrow> False | Some obj \<Rightarrow> \<not> so_Suicide obj),
      upsertAccount E addr False (map_option (\<lambda>obj. withBalance (\<lambda>_. 0) (obj\<lparr>so_Suicide := True\<rparr>))) T)"

definition HasSuicided :: "('s, 't, 'n, 'v) TxnEnv \<Rightarrow> ('t, 'n) Txn \<Rightarrow> address \<Rightarrow> bool" where
  "HasSuicided E T addr =
     (case getStateObject E T addr of None \<Rightarrow> False | Some obj \<Rightarrow> so_Suicide obj)"

definition TouchAccount :: "('s, 't, 'n, 'v) TxnEnv \<Rightarrow> address \<Rightarrow> ('t, 'n) Txn \<Rightarrow> ('t, 'n) Txn" where
  "TouchAccount E addr T = upsertAccount E addr True id T"

definition Exist :: "('s, 't, 'n, 'v) TxnEnv \<Rightarrow> ('t, 'n) Txn \<Rightarrow> address \<Rightarrow> bool" where
  "Exist E T addr = (getStateObject E T addr \<noteq> None)"

definition StateObject_Empty :: "('s, 't, 'n, 'v) TxnEnv \<Rightarrow> ('s, 'n) StateObject \<Rightarrow> bool" where
  "StateObject_Empty E obj \<longleftrightarrow>
     acc_Nonce (so_Account obj) = 0 \<and> sgn (acc_Balance (so_Account obj)) = 0
     \<and> acc_CodeHash (so_Account obj) = emptyCodeHash E"

definition Txn_Empty :: "('s, 't, 'n, 'v) TxnEnv \<Rightarrow> ('t, 'n) Txn \<Rightarrow> address \<Rightarrow> bool" where
  "Txn_Empty E T addr =
     (case getStateObject E T addr of None \<Rightarrow> True | Some obj \<Rightarrow> StateObject_Empty E obj)"

definition CreateAccount :: "('s, 't, 'n, 'v) TxnEnv \<Rightarrow> address \<Rightarrow> ('t, 'n) Txn \<Rightarrow> ('t, 'n) Txn" where
  "CreateAccount E addr T =
     (let obj = newStateObject E;
          obj = (case getStateObject E T addr of
                   None \<Rightarrow> obj
                 | Some prev \<Rightarrow> withBalance (\<lambda>_. SetBytes (Bytes (acc_Balance (so_Account prev)))) obj)
      in tree_insert E (address_bytes addr) (EObject obj) T)"

section \<open>End of a transaction and of a block\<close>

text \<open>The keys to delete are collected in a first walk; the second loop looks each of them up again
  and panics (\<open>None\<close>) if it is not a state object.\<close>

definition deletable :: "('s, 't, 'n, 'v) TxnEnv \<Rightarrow> bool \<Rightarrow> ('s, 'n) entry \<Rightarrow> bool" where
  "deletable E deleteEmptyObjects e =
     (case e of EObject a \<Rightarrow> so_Suicide a \<or> StateObject_Empty E a \<and> deleteEmptyObjects | _ \<Rightarrow> False)"

fun deleteObjects ::
  "('s, 't, 'n, 'v) TxnEnv \<Rightarrow> byte list list \<Rightarrow> ('t, 'n) Txn \<Rightarrow> ('t, 'n) Txn option" where
  "deleteObjects E [] T = Some T"
| "deleteObjects E (k # ks) T =
     (case tree_get E T k of
        Some (EObject obj) \<Rightarrow>
          deleteObjects E ks (tree_insert E k (EObject ((StateObject_Copy obj)\<lparr>so_Deleted := True\<rparr>)) T)
      | _ \<Rightarrow> None)"

definition CleanDeleteObjects ::
  "('s, 't, 'n, 'v) TxnEnv \<Rightarrow> bool \<Rightarrow> ('t, 'n) Txn \<Rightarrow> ('t, 'n) Txn option" where
  "CleanDeleteObjects E deleteEmptyObjects T =
     (let remove = map fst (filter (\<lambda>(k, e). deletable E deleteEmptyObjects e)
                              (rx_Walk (env_tree E) (txn_txn T)))
      in map_option (tree_delete E refundIndex) (deleteObjects E remove T))"

definition storageObjects :: "('s, 't, 'n, 'v) TxnEnv \<Rightarrow> ('s, 'n) StateObject \<Rightarrow> StorageObject list" where
  "storageObjects E a =
     (case so_Txn a of
        None \<Rightarrow> []
      | Some t \<Rightarrow> map (\<lambda>(k, v). case v of
            None \<Rightarrow> \<lparr>sto_Deleted = True, sto_Key = k, sto_Val = []\<rparr>
          | Some val \<Rightarrow> \<lparr>sto_Deleted = False, sto_Key = k, sto_Val = val\<rparr>)
          (rx_Walk (env_storage E) t))"

definition commitObject :: "('s, 't, 'n, 'v) TxnEnv \<Rightarrow> byte list \<Rightarrow> ('s, 'n) StateObject \<Rightarrow> Object" where
  "commitObject E k a =
     \<lparr>obj_Address = BytesToAddress k, obj_CodeHash = BytesToHash (acc_CodeHash (so_Account a)),
      obj_Balance = acc_Balance (so_Account a), obj_Root = acc_Root (so_Account a),
      obj_Nonce = acc_Nonce (so_Account a), obj_Deleted = so_Deleted a,
      obj_DirtyCode = so_DirtyCode a, obj_Code = so_Code a,
      obj_Storage = (if so_Deleted a then [] else storageObjects E a)\<rparr>"

definition Txn_Commit ::
  "('s, 't, 'n, 'v) TxnEnv \<Rightarrow> bool \<Rightarrow> ('t, 'n) Txn \<Rightarrow> (Object list \<times> ('t, 'n) Txn) option" where
  "Txn_Commit E deleteEmptyObjects T =
     map_option (\<lambda>T. (concat (map (\<lambda>(k, e). case e of EObject a \<Rightarrow> [commitObject E k a] | _ \<Rightarrow> [])
                               (rx_Walk (env_tree E) (txn_txn T))), T))
       (CleanDeleteObjects E deleteEmptyObjects T)"

end
