(* ===== verification/Txn_Laws.thy ===== *)
theory Txn_Laws
  imports Txn "HOL-Library.AList" "HOL-Library.Sublist"
begin

text \<open>
  Laws of the transactional world state: what a read returns after a write, which operations keep
  the snapshots, and an executable instance of the environment, with association lists for the
  radix trees, on which the laws assumed of the third-party code hold.
\<close>

section \<open>Reading after writing\<close>

definition env_laws :: "('s, 't, 'n, 'v) TxnEnv \<Rightarrow> bool" where
  "env_laws E \<longleftrightarrow>
     radix_laws (env_tree E) \<and> radix_laws (env_storage E) \<and>
     (\<forall>k. Snapshot_Get E (NewSnapshot E) k = None) \<and>
     (case State_GetCode E (BytesToHash (emptyCodeHash E)) of None \<Rightarrow> True | Some cd \<Rightarrow> cd = [])"

lemma txn_frame [simp]:
  "txn_snapshots (tree_insert E k e T) = txn_snapshots T" "txn_snapshot (tree_insert E k e T) = txn_snapshot T"
  "txn_snapshots (tree_delete E k T) = txn_snapshots T" "txn_snapshot (tree_delete E k T) = txn_snapshot T"
  by (simp_all add: tree_insert_def tree_delete_def)

lemma upsertAccount_frame [simp]:
  "txn_snapshots (upsertAccount E a cr f T) = txn_snapshots T"
  "txn_snapshot (upsertAccount E a cr f T) = txn_snapshot T"
  by (simp_all add: upsertAccount_def Let_def split: option.split)

lemma tree_get_insert:
  "radix_laws (env_tree E) \<Longrightarrow>
   tree_get E (tree_insert E k e T) k' = (if k = k' then Some e else tree_get E T k')"
  by (simp add: radix_laws_def tree_get_def tree_insert_def)

lemma tree_get_delete:
  "radix_laws (env_tree E) \<Longrightarrow>
   tree_get E (tree_delete E k T) k' = (if k = k' then None else tree_get E T k')"
  by (simp add: radix_laws_def tree_get_def tree_delete_def)

lemma address_bytes_inj [simp]: "address_bytes a = address_bytes b \<longleftrightarrow> a = b"
  by (metis BytesToAddress_address_bytes)

lemma hash_bytes_inj [simp]: "hash_bytes a = hash_bytes b \<longleftrightarrow> a = b"
  by (metis BytesToHash_hash_bytes)

lemma length_ne: "length xs \<noteq> length ys \<Longrightarrow> xs \<noteq> ys"
  by auto

lemma reserved_keys [simp]:
  "address_bytes a \<noteq> logIndex" "logIndex \<noteq> address_bytes a"
  "address_bytes a \<noteq> refundIndex" "refundIndex \<noteq> address_bytes a"
  "logIndex \<noteq> refundIndex" "refundIndex \<noteq> logIndex"
  by (simp_all add: logIndex_def refundIndex_def length_ne BytesToHash_eq)

lemma loadAccount_frame [simp]:
  "loadAccount E (tree_insert E k e T) a = loadAccount E T a"
  "loadAccount E (tree_delete E k T) a = loadAccount E T a"
  by (simp_all add: loadAccount_def)

lemma getStateObject_insert:
  assumes "radix_laws (env_tree E)"
  shows "getStateObject E (tree_insert E (address_bytes a) (EObject obj) T) b =
    (if a = b then if so_Deleted obj then None else Some (StateObject_Copy obj) else getStateObject E T b)"
  by (auto simp: getStateObject_def tree_get_insert [OF assms] split: option.split)

lemma getStateObject_insert_other:
  assumes "radix_laws (env_tree E)" and "k = logIndex \<or> k = refundIndex"
  shows "getStateObject E (tree_insert E k e T) b = getStateObject E T b"
  using assms by (auto simp: getStateObject_def tree_get_insert split: option.split)

lemma getStateObject_SomeD:
  assumes "getStateObject E T a = Some obj"
  shows "\<not> so_Deleted obj" "0 \<le> acc_Balance (so_Account obj)" "StateObject_Copy obj = obj"
  using assms
  by (auto simp: getStateObject_def loadAccount_def StateObject_Copy_def Account_Copy_def
      split: option.splits entry.splits if_splits)

lemma newStateObject_simps [simp]:
  "\<not> so_Deleted (newStateObject E)" "StateObject_Copy (newStateObject E) = newStateObject E"
  "acc_Balance (so_Account (newStateObject E)) = 0" "acc_Nonce (so_Account (newStateObject E)) = 0"
  by (simp_all add: newStateObject_def StateObject_Copy_def Account_Copy_def)

text \<open>An account after \<open>upsertAccount\<close> with \<open>create\<close>.\<close>

definition objectOrNew :: "('s, 't, 'n, 'v) TxnEnv \<Rightarrow> ('t, 'n) Txn \<Rightarrow> address \<Rightarrow> ('s, 'n) StateObject" where
  "objectOrNew E T a = (case getStateObject E T a of Some obj \<Rightarrow> obj | None \<Rightarrow> newStateObject E)"

lemma objectOrNew_simps [simp]:
  "\<not> so_Deleted (objectOrNew E T a)" "0 \<le> acc_Balance (so_Account (objectOrNew E T a))"
  "StateObject_Copy (objectOrNew E T a) = objectOrNew E T a"
  using getStateObject_SomeD [of E T a] by (auto simp: objectOrNew_def split: option.splits)

lemma Txn_GetBalance_eq: "Txn_GetBalance E T a = acc_Balance (so_Account (objectOrNew E T a))"
  and Txn_GetNonce_eq: "Txn_GetNonce E T a = acc_Nonce (so_Account (objectOrNew E T a))"
  by (simp_all add: Txn_GetBalance_def Txn_GetNonce_def objectOrNew_def split: option.split)

lemma upsertAccount_create:
  "upsertAccount E a True (map_option f) T =
     tree_insert E (address_bytes a) (EObject (f (objectOrNew E T a))) T"
  by (simp add: upsertAccount_def objectOrNew_def split: option.split)

lemma getStateObject_upsert:
  assumes "radix_laws (env_tree E)" and "\<And>obj. so_Deleted (f obj) = so_Deleted obj"
  shows "getStateObject E (upsertAccount E a True (map_option f) T) b =
    (if a = b then Some (StateObject_Copy (f (objectOrNew E T a))) else getStateObject E T b)"
  by (simp add: upsertAccount_create getStateObject_insert [OF assms(1)] assms(2))

lemma objectOrNew_upsert:
  assumes "radix_laws (env_tree E)" and "\<And>obj. so_Deleted (f obj) = so_Deleted obj"
  shows "objectOrNew E (upsertAccount E a True (map_option f) T) b =
    (if a = b then StateObject_Copy (f (objectOrNew E T a)) else objectOrNew E T b)"
  by (simp add: objectOrNew_def [of E "upsertAccount E a True (map_option f) T"]
      getStateObject_upsert [OF assms]) (simp add: objectOrNew_def)

lemma upsert_reserved:
  assumes "radix_laws (env_tree E)"
  shows "pendingLogs E (upsertAccount E a True (map_option f) T) = pendingLogs E T"
    and "GetRefund E (upsertAccount E a True (map_option f) T) = GetRefund E T"
  by (simp_all add: upsertAccount_create pendingLogs_def GetRefund_def tree_get_insert [OF assms])

lemma withBalance_simps [simp]: "so_Deleted (withBalance f obj) = so_Deleted obj" "withBalance (\<lambda>b. b) obj = obj"
  by (simp_all add: withBalance_def)

section \<open>Equal worlds\<close>

definition same_world :: "('s, 't, 'n, 'v) TxnEnv \<Rightarrow> ('t, 'n) Txn \<Rightarrow> ('t, 'n) Txn \<Rightarrow> bool" where
  "same_world E T T' \<longleftrightarrow>
     (\<forall>a. objectOrNew E T' a = objectOrNew E T a) \<and> pendingLogs E T' = pendingLogs E T \<and>
     GetRefund E T' = GetRefund E T"

lemma same_world_upsert:
  assumes "radix_laws (env_tree E)" and "\<And>obj. so_Deleted (f obj) = so_Deleted obj"
    and "f (objectOrNew E T a) = objectOrNew E T a"
  shows "same_world E T (upsertAccount E a True (map_option f) T)"
  by (simp add: same_world_def objectOrNew_upsert [OF assms(1,2)] upsert_reserved [OF assms(1)] assms(3))

lemma same_world_Touch: "radix_laws (env_tree E) \<Longrightarrow> same_world E T (TouchAccount E a T)"
  using same_world_upsert [of E id T a] by (simp add: TouchAccount_def option.map_id0)

lemma same_world_Add0: "radix_laws (env_tree E) \<Longrightarrow> same_world E T (AddBalance E a 0 T)"
  unfolding AddBalance_def by (rule same_world_upsert) simp_all

lemma same_world_cong:
  assumes "txn_txn T' = txn_txn T" and "txn_snapshot T' = txn_snapshot T"
  shows "same_world E T T'"
proof -
  have "loadAccount E T' a = loadAccount E T a" for a using assms(2) by (simp add: loadAccount_def)
  with assms(1) have "getStateObject E T' a = getStateObject E T a" for a
    by (simp add: getStateObject_def tree_get_def split: option.split)
  with assms(1) show ?thesis
    by (simp add: same_world_def objectOrNew_def tree_get_def pendingLogs_def GetRefund_def)
qed

section \<open>Getters and modifiers\<close>

lemma Txn_GetCode_eq:
  "env_laws E \<Longrightarrow> Txn_GetCode E T a = (let obj = objectOrNew E T a in
     if so_DirtyCode obj then so_Code obj
     else case State_GetCode E (BytesToHash (acc_CodeHash (so_Account obj))) of None \<Rightarrow> [] | Some cd \<Rightarrow> cd)"
  by (auto simp: env_laws_def Txn_GetCode_def objectOrNew_def newStateObject_def split: option.splits)

lemma Txn_Empty_eq: "Txn_Empty E T a = StateObject_Empty E (objectOrNew E T a)"
  by (simp add: Txn_Empty_def objectOrNew_def newStateObject_def StateObject_Empty_def split: option.split)

lemma HasSuicided_eq: "HasSuicided E T a = so_Suicide (objectOrNew E T a)"
  by (simp add: HasSuicided_def objectOrNew_def newStateObject_def split: option.split)

definition objectState :: "('s, 't, 'n, 'v) TxnEnv \<Rightarrow> ('s, 'n) StateObject \<Rightarrow> hash \<Rightarrow> hash" where
  "objectState E obj key =
     (case (case so_Txn obj of None \<Rightarrow> None | Some t \<Rightarrow> rx_Get (env_storage E) t (hash_bytes key)) of
        Some None \<Rightarrow> 0
      | Some (Some val) \<Rightarrow> BytesToHash val
      | None \<Rightarrow> GetCommitedState E obj (BytesToHash (hashit E (hash_bytes key))))"

lemma GetState_eq: "env_laws E \<Longrightarrow> GetState E T a k = objectState E (objectOrNew E T a) k"
  by (auto simp: env_laws_def GetState_def objectOrNew_def newStateObject_def objectState_def GetCommitedState_def
      split: option.split)

lemma upsert_getters:
  assumes "radix_laws (env_tree E)" and "\<And>obj. so_Deleted (f obj) = so_Deleted obj"
  shows "objectOrNew E (upsertAccount E a True (map_option f) T) b =
      (if a = b then StateObject_Copy (f (objectOrNew E T a)) else objectOrNew E T b)"
    and "tree_get E (upsertAccount E a True (map_option f) T) logIndex = tree_get E T logIndex"
    and "tree_get E (upsertAccount E a True (map_option f) T) refundIndex = tree_get E T refundIndex"
  by (simp_all add: objectOrNew_upsert [OF assms]) 
     (simp_all add: upsertAccount_create tree_get_insert [OF assms(1)])

lemma modifier_simps [simp]:
  "so_Deleted (withNonce g obj) = so_Deleted obj" "so_Deleted (setSlot E k v obj) = so_Deleted obj"
  "acc_Balance (so_Account (withBalance f obj)) = f (acc_Balance (so_Account obj))"
  "acc_Nonce (so_Account (withNonce g obj)) = g (acc_Nonce (so_Account obj))"
  "acc_Nonce (so_Account (withBalance f obj)) = acc_Nonce (so_Account obj)"
  "acc_Balance (so_Account (withNonce g obj)) = acc_Balance (so_Account obj)"
  "so_Account (setSlot E k v obj) = so_Account obj"
  "acc_Balance (so_Account (StateObject_Copy obj)) = \<bar>acc_Balance (so_Account obj)\<bar>"
  "acc_Nonce (so_Account (StateObject_Copy obj)) = acc_Nonce (so_Account obj)"
  "objectState E (withNonce g obj) = objectState E obj"
  "objectState E (withBalance f obj) = objectState E obj"
  "objectState E (StateObject_Copy obj) = objectState E obj"
  "so_Txn (StateObject_Copy obj) = so_Txn obj"
  by (simp_all add: withNonce_def withBalance_def setSlot_def StateObject_Copy_def Account_Copy_def Let_def
      objectState_def GetCommitedState_def fun_eq_iff cong: option.case_cong)

lemma objectState_setSlot:
  "radix_laws (env_storage E) \<Longrightarrow>
   objectState E (setSlot E k v obj) k' = (if k = k' then v else objectState E obj k')"
  by (auto simp: objectState_def setSlot_def radix_laws_def GetCommitedState_def Let_def split: option.split)

lemma objectOrNew_ops:
  assumes "radix_laws (env_tree E)"
  shows "objectOrNew E (SetBalance E a v T) b =
      (if a = b then StateObject_Copy (withBalance (\<lambda>_. \<bar>v\<bar>) (objectOrNew E T a)) else objectOrNew E T b)"
    and "objectOrNew E (AddBalance E a v T) b =
      (if a = b then StateObject_Copy (withBalance (\<lambda>x. x + v) (objectOrNew E T a)) else objectOrNew E T b)"
    and "objectOrNew E (SetNonce E a n T) b =
      (if a = b then StateObject_Copy (withNonce (\<lambda>_. n) (objectOrNew E T a)) else objectOrNew E T b)"
    and "objectOrNew E (IncrNonce E a T) b =
      (if a = b then StateObject_Copy (withNonce (\<lambda>n. n + 1) (objectOrNew E T a)) else objectOrNew E T b)"
    and "objectOrNew E (SetState E a k w T) b =
      (if a = b then StateObject_Copy (setSlot E k w (objectOrNew E T a)) else objectOrNew E T b)"
    and "objectOrNew E (TouchAccount E a T) b = objectOrNew E T b"
  using same_world_Touch [OF assms, of T a]
  by (simp_all add: SetBalance_def AddBalance_def SetNonce_def IncrNonce_def SetState_def same_world_def
      upsert_getters(1) [OF assms])

lemmas getter_eqs = Txn_GetBalance_eq Txn_GetNonce_eq GetState_eq Txn_GetCode_eq Txn_Empty_eq HasSuicided_eq

lemma env_lawsD:
  assumes "env_laws E"
  shows "radix_laws (env_tree E)" "radix_laws (env_storage E)"
  using assms by (simp_all add: env_laws_def)

lemma SubBalance_ok:
  assumes "radix_laws (env_tree E)" and "SubBalance E a v T = (None, T')"
  shows "objectOrNew E T' b =
    (if a = b \<and> v \<noteq> 0 then StateObject_Copy (withBalance (\<lambda>x. x - v) (objectOrNew E T a)) else objectOrNew E T b)"
    and "v \<le> Txn_GetBalance E T a"
  using assms(2) by (auto simp: SubBalance_def upsert_getters(1) [OF assms(1)] Txn_GetBalance_eq sgn_if split: if_splits)

text \<open>The sum of all balances.\<close>

definition totalSupply :: "('s, 't, 'n, 'v) TxnEnv \<Rightarrow> ('t, 'n) Txn \<Rightarrow> int" where
  "totalSupply E T = (\<Sum>a\<in>UNIV. Txn_GetBalance E T a)"

lemma totalSupply_upd:
  assumes "\<And>b. Txn_GetBalance E T' b = (if a = b then x else Txn_GetBalance E T b)"
  shows "totalSupply E T' = totalSupply E T - Txn_GetBalance E T a + x"
proof -
  have "totalSupply E T' = x + (\<Sum>b\<in>UNIV - {a}. Txn_GetBalance E T' b)"
    unfolding totalSupply_def by (subst sum.remove [of UNIV a]) (simp_all add: assms)
  also have "(\<Sum>b\<in>UNIV - {a}. Txn_GetBalance E T' b) = (\<Sum>b\<in>UNIV - {a}. Txn_GetBalance E T b)"
    by (rule sum.cong) (auto simp: assms)
  also have "\<dots> = totalSupply E T - Txn_GetBalance E T a"
    unfolding totalSupply_def by (subst sum.remove [of UNIV a]) simp_all
  finally show ?thesis by simp
qed

lemma supply_AddBalance:
  assumes "radix_laws (env_tree E)" and "0 \<le> v"
  shows "totalSupply E (AddBalance E a v T) = totalSupply E T + v"
  using totalSupply_upd [of E "AddBalance E a v T" a "Txn_GetBalance E T a + v" T] assms(2)
  by (simp add: Txn_GetBalance_eq objectOrNew_ops [OF assms(1)])

lemma supply_SubBalance:
  assumes "radix_laws (env_tree E)" and "SubBalance E a v T = (None, T')"
  shows "totalSupply E T' = totalSupply E T - v"
proof -
  have "Txn_GetBalance E T' b = (if a = b then Txn_GetBalance E T a - v else Txn_GetBalance E T b)" for b
    using SubBalance_ok [OF assms] by (auto simp: Txn_GetBalance_eq)
  from totalSupply_upd [OF this] show ?thesis by simp
qed

section \<open>Snapshots are kept\<close>

lemma refund_frame [simp]:
  "txn_snapshots (AddRefund E g T) = txn_snapshots T" "txn_snapshot (AddRefund E g T) = txn_snapshot T"
  "txn_snapshots (SubRefund E g T) = txn_snapshots T" "txn_snapshot (SubRefund E g T) = txn_snapshot T"
  by (simp_all add: AddRefund_def SubRefund_def)

lemma balance_frame [simp]:
  "txn_snapshots (AddBalance E a v T) = txn_snapshots T" "txn_snapshot (AddBalance E a v T) = txn_snapshot T"
  "txn_snapshots (snd (SubBalance E a v T)) = txn_snapshots T"
  "txn_snapshot (snd (SubBalance E a v T)) = txn_snapshot T"
  by (simp_all add: AddBalance_def SubBalance_def)

lemma account_frame [simp]:
  "txn_snapshots (IncrNonce E a T) = txn_snapshots T" "txn_snapshot (IncrNonce E a T) = txn_snapshot T"
  "txn_snapshots (SetCode E a cd T) = txn_snapshots T" "txn_snapshot (SetCode E a cd T) = txn_snapshot T"
  "txn_snapshots (TouchAccount E a T) = txn_snapshots T" "txn_snapshot (TouchAccount E a T) = txn_snapshot T"
  "txn_snapshots (CreateAccount E a T) = txn_snapshots T" "txn_snapshot (CreateAccount E a T) = txn_snapshot T"
  "txn_snapshots (SetState E a k v T) = txn_snapshots T" "txn_snapshot (SetState E a k v T) = txn_snapshot T"
  by (simp_all add: IncrNonce_def SetCode_def TouchAccount_def CreateAccount_def SetState_def Let_def)

lemma Txn_SetStorage_frame [simp]:
  "txn_snapshots (snd (Txn_SetStorage E a k v cfg T)) = txn_snapshots T"
  "txn_snapshot (snd (Txn_SetStorage E a k v cfg T)) = txn_snapshot T"
  by (simp_all add: Txn_SetStorage_def Let_def)

section \<open>Histories\<close>

text \<open>One step of a transaction: any of its state-changing operations, on any arguments.\<close>

inductive txn_step :: "('s, 't, 'n, 'v) TxnEnv \<Rightarrow> ('t, 'n) Txn \<Rightarrow> ('t, 'n) Txn \<Rightarrow> bool" for E where
  "txn_step E T (AddBalance E a v T)"
| "txn_step E T (AddSealingReward E a v T)"
| "txn_step E T (SetBalance E a v T)"
| "txn_step E T (snd (SubBalance E a v T))"
| "txn_step E T (Txn_EmitLog E a ts d T)"
| "txn_step E T (snd (Logs E T))"
| "txn_step E T (AddRefund E g T)"
| "txn_step E T (SubRefund E g T)"
| "txn_step E T (SetState E a k w T)"
| "txn_step E T (snd (Txn_SetStorage E a k w cfg T))"
| "txn_step E T (IncrNonce E a T)"
| "txn_step E T (SetNonce E a n T)"
| "txn_step E T (SetCode E a cd T)"
| "txn_step E T (snd (Suicide E a T))"
| "txn_step E T (TouchAccount E a T)"
| "txn_step E T (CreateAccount E a T)"
| "txn_step E T (snd (Snapshot T))"
| "RevertToSnapshot i T = Some T' \<Longrightarrow> txn_step E T T'"
| "CleanDeleteObjects E del T = Some T' \<Longrightarrow> txn_step E T T'"

lemma deleteObjects_frame:
  "deleteObjects E ks T = Some T' \<Longrightarrow> txn_snapshots T' = txn_snapshots T \<and> txn_snapshot T' = txn_snapshot T"
  by (induction E ks T rule: deleteObjects.induct) (auto split: option.splits entry.splits)

lemma more_frame [simp]:
  "txn_snapshots (AddSealingReward E a v T) = txn_snapshots T" "txn_snapshot (AddSealingReward E a v T) = txn_snapshot T"
  "txn_snapshots (SetBalance E a v T) = txn_snapshots T" "txn_snapshot (SetBalance E a v T) = txn_snapshot T"
  "txn_snapshots (SetNonce E a n T) = txn_snapshots T" "txn_snapshot (SetNonce E a n T) = txn_snapshot T"
  "txn_snapshots (Txn_EmitLog E a ts d T) = txn_snapshots T" "txn_snapshot (Txn_EmitLog E a ts d T) = txn_snapshot T"
  "txn_snapshots (snd (Logs E T)) = txn_snapshots T" "txn_snapshot (snd (Logs E T)) = txn_snapshot T"
  "txn_snapshots (snd (Suicide E a T)) = txn_snapshots T" "txn_snapshot (snd (Suicide E a T)) = txn_snapshot T"
  by (simp_all add: AddSealingReward_def SetBalance_def SetNonce_def Txn_EmitLog_def AddLog_def Logs_def Suicide_def
      split: option.split)

lemma txn_step_snapshots:
  "txn_step E T T' \<Longrightarrow> prefix (txn_snapshots T) (txn_snapshots T') \<and> txn_snapshot T' = txn_snapshot T"
  by (induction rule: txn_step.induct)
    (auto simp: Snapshot_def RevertToSnapshot_def CleanDeleteObjects_def Let_def
      split: if_splits dest: deleteObjects_frame)

lemma txn_steps_snapshots:
  "(txn_step E)\<^sup>*\<^sup>* T T' \<Longrightarrow> prefix (txn_snapshots T) (txn_snapshots T') \<and> txn_snapshot T' = txn_snapshot T"
  by (induction rule: rtranclp_induct) (auto dest: txn_step_snapshots intro: prefix_order.trans)

section \<open>Deleting accounts\<close>

lemma deleteObjects_get:
  assumes "radix_laws (env_tree E)" and "distinct ks"
    and "\<forall>k\<in>set ks. \<exists>obj. tree_get E T k = Some (EObject obj)"
  shows "\<exists>T'. deleteObjects E ks T = Some T' \<and>
    (\<forall>k. tree_get E T' k = (if k \<in> set ks then (case tree_get E T k of
       Some (EObject obj) \<Rightarrow> Some (EObject ((StateObject_Copy obj)\<lparr>so_Deleted := True\<rparr>)) | e \<Rightarrow> e) else tree_get E T k))"
  using assms(2,3)
proof (induction ks arbitrary: T)
  case (Cons k ks)
  then obtain obj where obj: "tree_get E T k = Some (EObject obj)" by auto
  let ?T = "tree_insert E k (EObject ((StateObject_Copy obj)\<lparr>so_Deleted := True\<rparr>)) T"
  have other: "tree_get E ?T k' = tree_get E T k'" if "k' \<noteq> k" for k'
    using that by (simp add: tree_get_insert [OF assms(1)])
  have "\<forall>k'\<in>set ks. \<exists>obj. tree_get E ?T k' = Some (EObject obj)"
    using Cons.prems other by (metis distinct.simps(2) list.set_intros(2))
  from Cons.IH [OF _ this] Cons.prems(1) obj show ?case
    by (auto simp: tree_get_insert [OF assms(1)])
qed simp

lemma getStateObject_cong:
  "tree_get E T' (address_bytes a) = tree_get E T (address_bytes a) \<Longrightarrow> txn_snapshot T' = txn_snapshot T \<Longrightarrow>
   getStateObject E T' a = getStateObject E T a"
  by (simp add: getStateObject_def loadAccount_def split: option.split)

lemma deletable_object: "deletable E del e \<Longrightarrow> \<exists>obj. e = EObject obj"
  by (auto simp: deletable_def split: entry.splits)

lemma deletable_iff:
  "tree_get E T (address_bytes a) = Some (EObject obj) \<Longrightarrow> \<not> so_Deleted obj \<Longrightarrow>
   deletable E del (EObject obj) \<longleftrightarrow> HasSuicided E T a \<or> del \<and> Txn_Empty E T a"
  by (auto simp: deletable_def HasSuicided_def Txn_Empty_def getStateObject_def StateObject_Copy_def
      Account_Copy_def StateObject_Empty_def sgn_if)

lemma not_suicided: "tree_get E T (address_bytes a) = None \<Longrightarrow> \<not> HasSuicided E T a"
  by (auto simp: HasSuicided_def getStateObject_def loadAccount_def split: option.splits)

lemma CleanDeleteObjects_eq:
  assumes laws: "radix_laws (env_tree E)"
  shows "\<exists>T'. CleanDeleteObjects E del T = Some T' \<and> GetRefund E T' = 0 \<and>
    pendingLogs E T' = pendingLogs E T \<and>
    (\<forall>a. getStateObject E T' a =
      (if HasSuicided E T a \<or> del \<and> Txn_Empty E T a \<and> tree_get E T (address_bytes a) \<noteq> None then None
       else getStateObject E T a))"
proof -
  define rem where "rem = map fst (filter (\<lambda>(k, e). deletable E del e) (rx_Walk (env_tree E) (txn_txn T)))"
  have walk: "distinct (map fst (rx_Walk (env_tree E) (txn_txn T)))"
    "\<And>k e. (k, e) \<in> set (rx_Walk (env_tree E) (txn_txn T)) \<longleftrightarrow> tree_get E T k = Some e"
    using laws by (simp_all add: radix_laws_def tree_get_def)
  have rem: "k \<in> set rem \<longleftrightarrow> (\<exists>obj. tree_get E T k = Some (EObject obj) \<and> deletable E del (EObject obj))" for k
    using deletable_object by (force simp: rem_def image_iff walk(2))
  have "distinct rem" unfolding rem_def using walk(1) by (simp add: distinct_map_filter)
  from deleteObjects_get [OF laws this] rem obtain T' where T':
    "deleteObjects E rem T = Some T'"
    "\<And>k. tree_get E T' k = (if k \<in> set rem then (case tree_get E T k of
       Some (EObject obj) \<Rightarrow> Some (EObject ((StateObject_Copy obj)\<lparr>so_Deleted := True\<rparr>)) | e \<Rightarrow> e) else tree_get E T k)"
    by blast
  let ?T = "tree_delete E refundIndex T'"
  have get: "tree_get E ?T k = (if k = refundIndex then None else tree_get E T' k)" for k
    by (auto simp: tree_get_delete [OF laws])
  note frame = deleteObjects_frame [OF T'(1)]
  have "getStateObject E ?T a =
      (if HasSuicided E T a \<or> del \<and> Txn_Empty E T a \<and> tree_get E T (address_bytes a) \<noteq> None then None
       else getStateObject E T a)" for a
  proof (cases "\<exists>obj. tree_get E T (address_bytes a) = Some (EObject obj) \<and> \<not> so_Deleted obj")
    case True
    then obtain obj where obj: "tree_get E T (address_bytes a) = Some (EObject obj)" "\<not> so_Deleted obj" by blast
    have "getStateObject E ?T a = (if deletable E del (EObject obj) then None else getStateObject E T a)"
      using obj by (auto simp: getStateObject_def get T'(2) rem)
    then show ?thesis using deletable_iff [OF obj] obj(1) by simp
  next
    case False
    then have "getStateObject E ?T a = getStateObject E T a"
      using frame by (auto simp: getStateObject_def get T'(2) loadAccount_def split: option.split entry.split)
    moreover have "getStateObject E T a = None \<or> tree_get E T (address_bytes a) = None"
      using False by (auto simp: getStateObject_def split: option.split entry.split)
    ultimately show ?thesis using not_suicided [of E T a] by auto
  qed
  moreover have "pendingLogs E ?T = pendingLogs E T"
    by (auto simp: pendingLogs_def get T'(2) split: option.split entry.split)
  moreover have "GetRefund E ?T = 0" by (simp add: GetRefund_def get)
  ultimately show ?thesis
    using T'(1) by (auto simp: CleanDeleteObjects_def rem_def [symmetric])
qed

section \<open>An executable environment\<close>

definition alistRadix :: "((byte list \<times> 'e) list, 'e) Radix" where
  "alistRadix = \<lparr>rx_New = [], rx_Get = map_of, rx_Insert = (\<lambda>t k e. AList.update k e t),
     rx_Delete = (\<lambda>t k. AList.delete k t), rx_Walk = AList.clearjunk\<rparr>"

lemma alistRadix_laws: "radix_laws alistRadix"
  by (auto simp: radix_laws_def alistRadix_def update_conv' delete_conv' distinct_clearjunk
      map_of_eq_Some_iff [symmetric] map_of_clearjunk)

type_synonym slots = "(byte list \<times> byte list option) list"
type_synonym accounts = "(byte list \<times> (slots, unit) entry) list"

text \<open>Nothing is committed, and the hash of a string is its value modulo
  \<open>2 ^ 256\<close> plus one.\<close>

definition demoEnv :: "(slots, accounts, unit, rlpv) TxnEnv" where
  "demoEnv = \<lparr>env_storage = alistRadix, env_tree = alistRadix,
     env_rlp = demoRlp,
     env_crypto = \<lparr>Keccak256 = (\<lambda>b. BytesToHash b + 1), rlp_address_nonce = (\<lambda>a n. address_bytes a)\<rparr>,
     NewSnapshot = (), NewSnapshotAt = (\<lambda>_. Some ()), State_GetCode = (\<lambda>_. None),
     Snapshot_Get = (\<lambda>_ _. None), Snapshot_Commit = (\<lambda>n _. (n, []))\<rparr>"

lemma demoEnv_laws: "env_laws demoEnv" "radix_laws (env_tree demoEnv)"
  by (simp_all add: env_laws_def demoEnv_def alistRadix_laws)

section \<open>Properties\<close>



text \<open>C9: snapshots.  Whatever a transaction does after a snapshot, further snapshots and reverts
  included, reverting to the snapshot succeeds and restores every account, the logs and the refund
  counter.\<close>

theorem revert_restores:
  assumes "Snapshot T = (i, T1)" and "(txn_step E)\<^sup>*\<^sup>* T1 T2"
  shows "\<exists>T3. RevertToSnapshot i T2 = Some T3 \<and> (\<forall>a. getStateObject E T3 a = getStateObject E T a) \<and>
    pendingLogs E T3 = pendingLogs E T \<and> GetRefund E T3 = GetRefund E T"
proof -
  from assms(1) have i: "i = length (txn_snapshots T)" "txn_snapshots T1 = txn_snapshots T @ [txn_txn T]"
    "txn_snapshot T1 = txn_snapshot T" by (auto simp: Snapshot_def)
  from txn_steps_snapshots [OF assms(2)] i obtain zs where
    zs: "txn_snapshots T2 = txn_snapshots T @ txn_txn T # zs" "txn_snapshot T2 = txn_snapshot T"
    by (auto simp: prefix_def)
  then have "RevertToSnapshot i T2 = Some (T2\<lparr>txn_txn := txn_txn T\<rparr>)"
    using i by (simp add: RevertToSnapshot_def nth_append)
  moreover have "getStateObject E (T2\<lparr>txn_txn := txn_txn T\<rparr>) a = getStateObject E T a" for a
    using zs(2) by (simp add: getStateObject_def tree_get_def loadAccount_def split: option.split)
  ultimately show ?thesis by (auto simp: pendingLogs_def GetRefund_def tree_get_def)
qed

theorem revert_restores_witness:
  "\<exists>T3. RevertToSnapshot 0 (AddBalance demoEnv 1 7 (snd (Snapshot (newTxn demoEnv ())))) = Some T3 \<and>
     getStateObject demoEnv T3 1 = getStateObject demoEnv (newTxn demoEnv ()) 1"
  using revert_restores [of "newTxn demoEnv ()" 0 "snd (Snapshot (newTxn demoEnv ()))" demoEnv
      "AddBalance demoEnv 1 7 (snd (Snapshot (newTxn demoEnv ())))"]
    txn_step.intros(1) [of demoEnv "snd (Snapshot (newTxn demoEnv ()))" 1 7]
  by (auto simp: Snapshot_def newTxn_def)

text \<open>C10: the end of a transaction.  \<open>CleanDeleteObjects\<close> never panics; it removes exactly the accounts
  that have self-destructed and, if asked to, the touched ones that are empty, keeps every other account
  and the logs, and clears the refund counter.\<close>

theorem CleanDeleteObjects_correct:
  assumes laws: "radix_laws (env_tree E)"
  shows "\<exists>T'. CleanDeleteObjects E del T = Some T' \<and> GetRefund E T' = 0 \<and>
    pendingLogs E T' = pendingLogs E T \<and>
    (\<forall>a. getStateObject E T' a =
      (if HasSuicided E T a \<or> del \<and> Txn_Empty E T a \<and> tree_get E T (address_bytes a) \<noteq> None then None
       else getStateObject E T a))"
  by (rule CleanDeleteObjects_eq [OF laws])

theorem CleanDeleteObjects_correct_witness:
  "\<exists>T'. CleanDeleteObjects demoEnv True (AddRefund demoEnv 5 (newTxn demoEnv ())) = Some T' \<and> GetRefund demoEnv T' = 0"
  using CleanDeleteObjects_correct [OF demoEnv_laws(2), of True "AddRefund demoEnv 5 (newTxn demoEnv ())"] by blast

text \<open>C31: accounts survive their encoding: the stored bytes of an account decode to a copy of it.\<close>

theorem account_encoding_roundtrip:
  assumes "rlp_laws F"
  shows "Account_UnmarshalRlp F (acc_Trie a) (rlp_Marshal F (Account_MarshalWith F a)) = Some (Account_Copy a)"
  by (simp add: Account_UnmarshalRlp_def Account_MarshalWith_def Account_Copy_def rlp_lawsD [OF assms])

theorem account_encoding_roundtrip_witness:
  "Account_UnmarshalRlp demoRlp () (rlp_Marshal demoRlp (Account_MarshalWith demoRlp
     \<lparr>acc_Nonce = 3, acc_Balance = 500, acc_Root = 9, acc_CodeHash = [1, 2], acc_Trie = ()\<rparr>)) =
   Some \<lparr>acc_Nonce = 3, acc_Balance = 500, acc_Root = 9, acc_CodeHash = [1, 2], acc_Trie = ()\<rparr>"
  using account_encoding_roundtrip [OF demoRlp_laws, of "\<lparr>acc_Nonce = 3, acc_Balance = 500, acc_Root = 9, acc_CodeHash = [1, 2], acc_Trie = ()\<rparr>"]
  by (simp add: Account_Copy_def)

end
