(* ===== verification/Bridge.thy ===== *)
theory Bridge
  imports Txn
begin

text \<open>
  Decoding of the events of the bridge contract (\<open>contracts/bridge/events.go\<close>) and the addresses of
  the system contracts (\<open>contracts/systemcontracts\<close>).  The ABI decoder (\<open>go-web3\<close>) is a parameter:
  for each event its identifier and its parser, which yields named dynamic values.
\<close>

datatype web3_value = W3Address address | W3BigInt int | W3Other

record Web3Event =
  ev_ID :: hash
  ev_ParseLog :: "address \<Rightarrow> hash list \<Rightarrow> byte list \<Rightarrow> (string \<rightharpoonup> web3_value) option"

record BridgeABI =
  BridgeDepositedEvent :: Web3Event
  BridgeWithdrawnEvent :: Web3Event
  BridgeEventBurnedEvent :: Web3Event

definition AddrBridgeContract :: address where
  "AddrBridgeContract = 0x1002"

definition AddrVaultContract :: address where
  "AddrVaultContract = 0x1003"

record DepositedLog =
  dep_Receiver :: address
  dep_Amount :: int
  dep_Fee :: "int option"

record WithdrawnLog =
  wd_Contract :: address
  wd_Amount :: int
  wd_Fee :: int

record BurnedLog =
  burn_Sender :: address
  burn_Amount :: int

definition parseWith :: "Web3Event \<Rightarrow> Log \<Rightarrow> (string \<rightharpoonup> web3_value) option" where
  "parseWith ev log = ev_ParseLog ev (log_Address log) (log_Topics log) (log_Data log)"

definition getAddressField :: "(string \<rightharpoonup> web3_value) \<Rightarrow> string \<Rightarrow> address option" where
  "getAddressField w3Log key =
     (case w3Log key of Some (W3Address a) \<Rightarrow> Some a | _ \<Rightarrow> None)"

definition getBigIntFromWithdrawnLog :: "(string \<rightharpoonup> web3_value) \<Rightarrow> string \<Rightarrow> int option" where
  "getBigIntFromWithdrawnLog w3Log key =
     (case w3Log key of Some (W3BigInt v) \<Rightarrow> Some v | _ \<Rightarrow> None)"

definition ParseBridgeDepositedLog :: "BridgeABI \<Rightarrow> Log \<Rightarrow> DepositedLog option" where
  "ParseBridgeDepositedLog abi log =
     (case parseWith (BridgeDepositedEvent abi) log of None \<Rightarrow> None | Some w3Log \<Rightarrow>
      case getAddressField w3Log ''receiver'' of None \<Rightarrow> None | Some account \<Rightarrow>
      case getBigIntFromWithdrawnLog w3Log ''amount'' of None \<Rightarrow> None | Some amount \<Rightarrow>
      Some \<lparr>dep_Receiver = account, dep_Amount = amount, dep_Fee = None\<rparr>)"

definition ParseBridgeWithdrawnLog :: "BridgeABI \<Rightarrow> Log \<Rightarrow> WithdrawnLog option" where
  "ParseBridgeWithdrawnLog abi log =
     (case parseWith (BridgeWithdrawnEvent abi) log of None \<Rightarrow> None | Some w3Log \<Rightarrow>
      case getBigIntFromWithdrawnLog w3Log ''amount'' of None \<Rightarrow> None | Some amount \<Rightarrow>
      case getBigIntFromWithdrawnLog w3Log ''fee'' of None \<Rightarrow> None | Some fee \<Rightarrow>
      Some \<lparr>wd_Contract = log_Address log, wd_Amount = amount, wd_Fee = fee\<rparr>)"

definition ParseBridgeBurnedLog :: "BridgeABI \<Rightarrow> Log \<Rightarrow> BurnedLog option" where
  "ParseBridgeBurnedLog abi log =
     (case parseWith (BridgeEventBurnedEvent abi) log of None \<Rightarrow> None | Some w3Log \<Rightarrow>
      case getAddressField w3Log ''sender'' of None \<Rightarrow> None | Some account \<Rightarrow>
      case getBigIntFromWithdrawnLog w3Log ''amount'' of None \<Rightarrow> None | Some amount \<Rightarrow>
      Some \<lparr>burn_Sender = account, burn_Amount = amount\<rparr>)"

end
