(* ===== verification/Precompiled.thy ===== *)
theory Precompiled
  imports Txn
begin

text \<open>
  The runtime of the precompiled contracts (\<open>state/runtime/precompiled/precompiled.go\<close>).
  \<open>contracts\<close> is the registered table: a price and a function per address.
\<close>

record precontract =
  pc_gas :: "byte list \<Rightarrow> ForksInTime \<Rightarrow> u64"
  pc_run :: "byte list \<Rightarrow> vm_error + byte list"

type_synonym contracts = "address \<rightharpoonup> precontract"

definition Precompiled_CanRun :: "contracts \<Rightarrow> Contract \<Rightarrow> ForksInTime \<Rightarrow> bool" where
  "Precompiled_CanRun P c cfg =
     (if P (CodeAddress c) = None then False
      else if CodeAddress c = 5 \<or> CodeAddress c = 6 \<or> CodeAddress c = 7 \<or> CodeAddress c = 8
      then Byzantium cfg
      else if CodeAddress c = 9 then Istanbul cfg
      else True)"

text \<open>\<open>Run\<close> is only entered after \<open>CanRun\<close>, so the contract is in the table; a missing one is the
  panic of calling a method on nil, \<open>None\<close>.\<close>

definition Precompiled_Run :: "contracts \<Rightarrow> Contract \<Rightarrow> ForksInTime \<Rightarrow> ExecutionResult option" where
  "Precompiled_Run P c cfg =
     (case P (CodeAddress c) of
        None \<Rightarrow> None
      | Some contract \<Rightarrow>
          (let gasCost = pc_gas contract (Input c) cfg in
           if Gas c < gasCost
           then Some \<lparr>ReturnValue = [], GasLeft = 0, GasUsed = 0, Err = Some ErrOutOfGas\<rparr>
           else
             (case pc_run contract (Input c) of
                Inl e \<Rightarrow> Some \<lparr>ReturnValue = [], GasLeft = 0, GasUsed = 0, Err = Some e\<rparr>
              | Inr returnValue \<Rightarrow>
                  Some \<lparr>ReturnValue = returnValue, GasLeft = Gas c - gasCost, GasUsed = 0, Err = None\<rparr>)))"

lemma Precompiled_Run_gas: "Precompiled_Run P c cfg = Some r \<Longrightarrow> GasLeft r \<le> Gas c"
  by (auto simp: Precompiled_Run_def Let_def not_less word_sub_le split: option.splits if_splits sum.splits)

lemma Precompiled_CanRun_returns: "Precompiled_CanRun P c cfg \<Longrightarrow> \<exists>r. Precompiled_Run P c cfg = Some r"
  by (auto simp: Precompiled_CanRun_def Precompiled_Run_def Let_def split: if_splits sum.splits)

end
