(* ===== verification/Executor.thy ===== *)
theory Executor
  imports Bridge Precompiled
begin

text \<open>
  The executor (\<open>state/executor.go\<close>): the transition of a block, which runs calls and creations
  against a transaction of the world state and is the host of the contracts it runs.

  \<open>t.run\<close> tries the runtimes in the order in which the server registers them
  (\<open>pkg/server/server.go\<close>): the precompiled contracts, then the virtual machine.  A running contract
  calls back into \<open>Callx\<close>; the recursion is cut by fuel, and \<open>callFuel\<close> is shown to be enough, since
  a contract deeper than 1025 is refused.  \<open>None\<close> stands for a run that does not return (fuel or a Go
  panic).  The virtual machine takes its state from a pool; \<open>pool\<close> is the state taken.  Tracing
  (\<open>needDebug\<close>) is not modelled.
\<close>

section \<open>State\<close>

record ('t, 'n) Transition =
  tr_config :: ForksInTime
  tr_state :: "('t, 'n) Txn"
  tr_getHash :: "u64 \<Rightarrow> hash"
  tr_ctx :: TxContext
  tr_gasPool :: u64
  tr_receipts :: "Receipt list"
  tr_totalGas :: u64

type_synonym ('t, 'n) callback =
  "('t, 'n) Transition \<Rightarrow> Contract \<Rightarrow> (('t, 'n) Transition \<times> ExecutionResult) option"

section \<open>The host\<close>

definition Transition_Selfdestruct ::
  "('s, 't, 'n, 'v) TxnEnv \<Rightarrow> ('t, 'n) Transition \<Rightarrow> address \<Rightarrow> address \<Rightarrow> ('t, 'n) Transition" where
  "Transition_Selfdestruct E t addr beneficiary =
     (let T = tr_state t;
          T = (if \<not> HasSuicided E T addr then AddRefund E 24000 T else T);
          T = AddBalance E beneficiary (Txn_GetBalance E T addr) T
      in t\<lparr>tr_state := snd (Suicide E addr T)\<rparr>)"

definition Transition_SetStorage ::
  "('s, 't, 'n, 'v) TxnEnv \<Rightarrow> ('t, 'n) Transition \<Rightarrow> address \<Rightarrow> hash \<Rightarrow> hash \<Rightarrow> ForksInTime \<Rightarrow>
   StorageStatus \<times> ('t, 'n) Transition" where
  "Transition_SetStorage E t addr key val cfg =
     (let (status, T) = Txn_SetStorage E addr key val cfg (tr_state t) in (status, t\<lparr>tr_state := T\<rparr>))"

definition Transition_EmitLog ::
  "('s, 't, 'n, 'v) TxnEnv \<Rightarrow> ('t, 'n) Transition \<Rightarrow> address \<Rightarrow> hash list \<Rightarrow> byte list \<Rightarrow>
   ('t, 'n) Transition" where
  "Transition_EmitLog E t addr topics d = t\<lparr>tr_state := Txn_EmitLog E addr topics d (tr_state t)\<rparr>"

definition transitionHost ::
  "('s, 't, 'n, 'v) TxnEnv \<Rightarrow> ('t, 'n) callback \<Rightarrow> ('t, 'n) Transition Host" where
  "transitionHost E callx =
     \<lparr> AccountExists = (\<lambda>t. Exist E (tr_state t)),
       GetStorage = (\<lambda>t. GetState E (tr_state t)),
       SetStorage = Transition_SetStorage E,
       GetBalance = (\<lambda>t. Txn_GetBalance E (tr_state t)),
       GetCodeSize = (\<lambda>t. Txn_GetCodeSize E (tr_state t)),
       GetCodeHash = (\<lambda>t. Txn_GetCodeHash E (tr_state t)),
       GetCode = (\<lambda>t. Txn_GetCode E (tr_state t)),
       Selfdestruct = Transition_Selfdestruct E,
       GetTxContext = tr_ctx,
       GetBlockHash = (\<lambda>t n. tr_getHash t (word_of_int n)),
       EmitLog = Transition_EmitLog E,
       Callx = callx,
       Empty = (\<lambda>t. Txn_Empty E (tr_state t)),
       GetNonce = (\<lambda>t. Txn_GetNonce E (tr_state t)) \<rparr>"

section \<open>Running contracts\<close>

record ('t, 'n) Runtime =
  rt_CanRun :: "('t, 'n) Transition \<Rightarrow> Contract \<Rightarrow> bool"
  rt_Run :: "('t, 'n) Transition \<Rightarrow> Contract \<Rightarrow> (('t, 'n) Transition \<times> ExecutionResult) option"

definition runtimes ::
  "('s, 't, 'n, 'v) TxnEnv \<Rightarrow> contracts \<Rightarrow> ('t, 'n) Transition state \<Rightarrow> ('t, 'n) callback \<Rightarrow>
   ('t, 'n) Runtime list" where
  "runtimes E P pool callx =
     [\<lparr>rt_CanRun = (\<lambda>t c. Precompiled_CanRun P c (tr_config t)),
       rt_Run = (\<lambda>t c. map_option (\<lambda>r. (t, r)) (Precompiled_Run P c (tr_config t)))\<rparr>,
      \<lparr>rt_CanRun = (\<lambda>t c. EVM_CanRun c t (tr_config t)),
       rt_Run = (\<lambda>t c. map_option (\<lambda>(t', r, _). (t', r))
          (EVM_Run (transitionHost E callx) (env_crypto E) pool c t (tr_config t)))\<rparr>]"

fun run_first ::
  "('t, 'n) Runtime list \<Rightarrow> ('t, 'n) Transition \<Rightarrow> Contract \<Rightarrow>
   (('t, 'n) Transition \<times> ExecutionResult) option" where
  "run_first [] t c = Some (t, \<lparr>ReturnValue = [], GasLeft = 0, GasUsed = 0, Err = Some errNotFound\<rparr>)"
| "run_first (r # rs) t c = (if rt_CanRun r t c then rt_Run r t c else run_first rs t c)"

definition Transition_run ::
  "('s, 't, 'n, 'v) TxnEnv \<Rightarrow> contracts \<Rightarrow> ('t, 'n) Transition state \<Rightarrow> ('t, 'n) callback \<Rightarrow>
   ('t, 'n) Transition \<Rightarrow> Contract \<Rightarrow> (('t, 'n) Transition \<times> ExecutionResult) option" where
  "Transition_run E P pool callx t c = run_first (runtimes E P pool callx) t c"

definition transfer ::
  "('s, 't, 'n, 'v) TxnEnv \<Rightarrow> address \<Rightarrow> address \<Rightarrow> int option \<Rightarrow> ('t, 'n) Transition \<Rightarrow>
   vm_error option \<times> ('t, 'n) Transition" where
  "transfer E from to amount t =
     (case amount of
        None \<Rightarrow> (None, t)
      | Some am \<Rightarrow>
          (case SubBalance E from am (tr_state t) of
             (Some e, T) \<Rightarrow>
               (Some (if e = ErrNotEnoughFunds then ErrInsufficientBalance else e), t\<lparr>tr_state := T\<rparr>)
           | (None, T) \<Rightarrow> (None, t\<lparr>tr_state := AddBalance E to am T\<rparr>)))"

definition errorResult :: "u64 \<Rightarrow> vm_error \<Rightarrow> ExecutionResult" where
  "errorResult g e = \<lparr>ReturnValue = [], GasLeft = g, GasUsed = 0, Err = Some e\<rparr>"

text \<open>\<open>t.state.RevertToSnapshot(snapshot)\<close> followed by the return of a result.\<close>

definition revertWith ::
  "nat \<Rightarrow> ExecutionResult \<Rightarrow> ('t, 'n) Transition \<Rightarrow> (('t, 'n) Transition \<times> ExecutionResult) option" where
  "revertWith i result t =
     map_option (\<lambda>T. (t\<lparr>tr_state := T\<rparr>, result)) (RevertToSnapshot i (tr_state t))"

definition maxDepth :: int where
  "maxDepth = 1025"

definition applyCall ::
  "('s, 't, 'n, 'v) TxnEnv \<Rightarrow> contracts \<Rightarrow> ('t, 'n) Transition state \<Rightarrow> ('t, 'n) callback \<Rightarrow>
   ('t, 'n) Transition \<Rightarrow> Contract \<Rightarrow> CallType \<Rightarrow> (('t, 'n) Transition \<times> ExecutionResult) option" where
  "applyCall E P pool callx t c callType =
     (if Depth c > maxDepth then Some (t, errorResult (Gas c) ErrDepth)
      else
        let (snapshot, T) = Snapshot (tr_state t);
            t = t\<lparr>tr_state := TouchAccount E (Address c) T\<rparr> in
        case (if callType = Call then transfer E (Caller c) (Address c) (Value c) t else (None, t)) of
          (Some e, t) \<Rightarrow> Some (t, errorResult (Gas c) e)
        | (None, t) \<Rightarrow>
            Transition_run E P pool callx t c \<bind> (\<lambda>(t, result).
              if Failed result then revertWith snapshot result t else Some (t, result)))"

definition hasCodeOrNonce :: "('s, 't, 'n, 'v) TxnEnv \<Rightarrow> ('t, 'n) Transition \<Rightarrow> address \<Rightarrow> bool" where
  "hasCodeOrNonce E t addr =
     (if Txn_GetNonce E (tr_state t) addr \<noteq> 0 then True
      else
        let codeHash = Txn_GetCodeHash E (tr_state t) addr
        in codeHash \<noteq> BytesToHash (emptyCodeHash E) \<and> codeHash \<noteq> 0)"

definition spuriousDragonMaxCodeSize :: nat where
  "spuriousDragonMaxCodeSize = 24576"

text \<open>The part of \<open>applyCreate\<close> after the init code has run.\<close>

definition finishCreation ::
  "('s, 't, 'n, 'v) TxnEnv \<Rightarrow> nat \<Rightarrow> Contract \<Rightarrow> ('t, 'n) Transition \<Rightarrow> ExecutionResult \<Rightarrow>
   (('t, 'n) Transition \<times> ExecutionResult) option" where
  "finishCreation E snapshot c t result =
     (if Failed result then revertWith snapshot result t
      else if EIP158 (tr_config t) \<and> length (ReturnValue result) > spuriousDragonMaxCodeSize
      then revertWith snapshot (errorResult 0 ErrMaxCodeSizeExceeded) t
      else
        let gasCost = word_of_nat (length (ReturnValue result)) * 200 in
        if GasLeft result < gasCost then
          (let result = result\<lparr>Err := Some ErrCodeStoreOutOfGas, ReturnValue := []\<rparr> in
           if Homestead (tr_config t) then revertWith snapshot (result\<lparr>GasLeft := 0\<rparr>) t
           else Some (t, result))
        else
          Some (t\<lparr>tr_state := SetCode E (Address c) (ReturnValue result) (tr_state t)\<rparr>,
                result\<lparr>GasLeft := GasLeft result - gasCost\<rparr>))"

definition applyCreate ::
  "('s, 't, 'n, 'v) TxnEnv \<Rightarrow> contracts \<Rightarrow> ('t, 'n) Transition state \<Rightarrow> ('t, 'n) callback \<Rightarrow>
   ('t, 'n) Transition \<Rightarrow> Contract \<Rightarrow> (('t, 'n) Transition \<times> ExecutionResult) option" where
  "applyCreate E P pool callx t c =
     (if Depth c > maxDepth then Some (t, errorResult (Gas c) ErrDepth)
      else
        let t = t\<lparr>tr_state := IncrNonce E (Caller c) (tr_state t)\<rparr> in
        if hasCodeOrNonce E t (Address c) then Some (t, errorResult 0 ErrContractAddressCollision)
        else
          let (snapshot, T) = Snapshot (tr_state t);
              T = (if EIP158 (tr_config t)
                   then IncrNonce E (Address c) (CreateAccount E (Address c) T) else T) in
          case transfer E (Caller c) (Address c) (Value c) (t\<lparr>tr_state := T\<rparr>) of
            (Some e, t) \<Rightarrow> Some (t, errorResult (Gas c) e)
          | (None, t) \<Rightarrow>
              Transition_run E P pool callx t c \<bind> (\<lambda>(t, result).
                finishCreation E snapshot c t result))"

text \<open>\<open>Callx\<close>, with fuel for the depth of the calls it makes.\<close>

fun Transition_Callx ::
  "('s, 't, 'n, 'v) TxnEnv \<Rightarrow> contracts \<Rightarrow> ('t, 'n) Transition state \<Rightarrow> nat \<Rightarrow> ('t, 'n) callback" where
  "Transition_Callx E P pool 0 t c = None"
| "Transition_Callx E P pool (Suc n) t c =
     (if CType c = Create then applyCreate E P pool (Transition_Callx E P pool n) t c
      else applyCall E P pool (Transition_Callx E P pool n) t c (CType c))"

definition callFuel :: nat where
  "callFuel = 1026"

definition Create2_tx ::
  "('s, 't, 'n, 'v) TxnEnv \<Rightarrow> contracts \<Rightarrow> ('t, 'n) Transition state \<Rightarrow> ('t, 'n) Transition \<Rightarrow>
   address \<Rightarrow> byte list \<Rightarrow> int \<Rightarrow> u64 \<Rightarrow> (('t, 'n) Transition \<times> ExecutionResult) option" where
  "Create2_tx E P pool t caller cd val g =
     (let addr = CreateAddress (env_crypto E) caller (Txn_GetNonce E (tr_state t) caller)
      in applyCreate E P pool (Transition_Callx E P pool callFuel) t
           (NewContractCreation 1 caller caller addr (Some val) g cd))"

definition Call2 ::
  "('s, 't, 'n, 'v) TxnEnv \<Rightarrow> contracts \<Rightarrow> ('t, 'n) Transition state \<Rightarrow> ('t, 'n) Transition \<Rightarrow>
   address \<Rightarrow> address \<Rightarrow> byte list \<Rightarrow> int \<Rightarrow> u64 \<Rightarrow> (('t, 'n) Transition \<times> ExecutionResult) option" where
  "Call2 E P pool t caller to input val g =
     applyCall E P pool (Transition_Callx E P pool callFuel) t
       (NewContractCall 1 caller caller to (Some val) g (Txn_GetCode E (tr_state t) to) input) Call"

end
