(* ===== verification/Supply.thy ===== *)
theory Supply
  imports Txn_Laws Executor
begin

text \<open>
  The supply of native tokens, the sum of the balances of all accounts, under the operations of the world
  state: only \<open>AddBalance\<close>, \<open>SubBalance\<close> and \<open>SetBalance\<close> change it; a self-destruction never raises it.
\<close>

lemma supply_balances: "(\<And>b. Txn_GetBalance E T' b = Txn_GetBalance E T b) \<Longrightarrow> totalSupply E T' = totalSupply E T"
  by (simp add: totalSupply_def)

lemma same_world_supply: "same_world E T T' \<Longrightarrow> totalSupply E T' = totalSupply E T"
  by (rule supply_balances) (simp add: same_world_def Txn_GetBalance_eq)

lemma balance_nonneg [simp]: "0 \<le> Txn_GetBalance E T a"
  by (simp add: Txn_GetBalance_eq)

lemma supply_upsert:
  assumes "radix_laws (env_tree E)" and "\<And>obj. so_Deleted (f obj) = so_Deleted obj"
    and "\<And>obj. acc_Balance (so_Account (f obj)) = acc_Balance (so_Account obj)"
  shows "totalSupply E (upsertAccount E a True (map_option f) T) = totalSupply E T"
  using balance_nonneg [of E T a]
  by (intro supply_balances) (simp add: Txn_GetBalance_eq upsert_getters(1) [OF assms(1,2)] assms(3))

lemma supply_reserved:
  assumes "radix_laws (env_tree E)"
  shows "totalSupply E (tree_insert E logIndex e T) = totalSupply E T"
    and "totalSupply E (tree_insert E refundIndex e T) = totalSupply E T"
    and "totalSupply E (tree_delete E logIndex T) = totalSupply E T"
proof -
  have "getStateObject E (tree_delete E logIndex T) b = getStateObject E T b" for b
    by (auto simp: getStateObject_def tree_get_delete [OF assms] split: option.split)
  then show "totalSupply E (tree_delete E logIndex T) = totalSupply E T"
    by (intro supply_balances) (simp add: Txn_GetBalance_def)
qed (intro supply_balances, simp add: Txn_GetBalance_def getStateObject_insert_other [OF assms])+

lemma supply_ops:
  assumes "radix_laws (env_tree E)"
  shows "totalSupply E (IncrNonce E a T) = totalSupply E T" "totalSupply E (SetNonce E a n T) = totalSupply E T"
    "totalSupply E (SetState E a k v T) = totalSupply E T" "totalSupply E (SetCode E a cd T) = totalSupply E T"
    "totalSupply E (AddRefund E g T) = totalSupply E T" "totalSupply E (SubRefund E g T) = totalSupply E T"
    "totalSupply E (Txn_EmitLog E a ts d T) = totalSupply E T" "totalSupply E (snd (Logs E T)) = totalSupply E T"
    "totalSupply E (TouchAccount E a T) = totalSupply E T"
  by (simp_all add: IncrNonce_def SetNonce_def SetState_def SetCode_def AddRefund_def SubRefund_def Txn_EmitLog_def AddLog_def
      Logs_def supply_upsert [OF assms] supply_reserved [OF assms] same_world_supply [OF same_world_Touch [OF assms]]
      withNonce_def setSlot_def split: option.split)


lemma supply_SetStorage:
  "radix_laws (env_tree E) \<Longrightarrow> totalSupply E (snd (Txn_SetStorage E a k v cfg T)) = totalSupply E T"
  by (simp add: Txn_SetStorage_def Let_def supply_ops)

lemma supply_CreateAccount:
  assumes "radix_laws (env_tree E)"
  shows "totalSupply E (CreateAccount E a T) = totalSupply E T"
  by (rule supply_balances)
     (auto simp: CreateAccount_def Let_def Txn_GetBalance_def getStateObject_insert [OF assms] SetBytes_Bytes
       dest: getStateObject_SomeD split: option.split)

lemma balance_Suicide:
  assumes "radix_laws (env_tree E)"
  shows "Txn_GetBalance E (snd (Suicide E a T)) b = (if a = b then 0 else Txn_GetBalance E T b)"
  by (auto simp: Suicide_def upsertAccount_def Txn_GetBalance_def getStateObject_insert [OF assms]
      dest: getStateObject_SomeD split: option.split)

lemma supply_Selfdestruct:
  assumes "radix_laws (env_tree E)"
  shows "totalSupply E (tr_state (Transition_Selfdestruct E t a b)) \<le> totalSupply E (tr_state t)"
proof -
  define T1 where "T1 = (if \<not> HasSuicided E (tr_state t) a then AddRefund E 24000 (tr_state t) else tr_state t)"
  define T2 where "T2 = AddBalance E b (Txn_GetBalance E T1 a) T1"
  have s1: "totalSupply E T1 = totalSupply E (tr_state t)" by (simp add: T1_def supply_ops [OF assms])
  have s2: "totalSupply E T2 = totalSupply E T1 + Txn_GetBalance E T1 a" unfolding T2_def by (simp add: supply_AddBalance [OF assms])
  have "totalSupply E (snd (Suicide E a T2)) = totalSupply E T2 - Txn_GetBalance E T2 a"
    using totalSupply_upd [of E "snd (Suicide E a T2)" a 0 T2] by (simp add: balance_Suicide [OF assms])
  moreover have "Txn_GetBalance E T1 a \<le> Txn_GetBalance E T2 a"
    by (simp add: T2_def Txn_GetBalance_eq objectOrNew_ops [OF assms])
  moreover have "tr_state (Transition_Selfdestruct E t a b) = snd (Suicide E a T2)"
    by (simp add: Transition_Selfdestruct_def Let_def T1_def T2_def)
  ultimately show ?thesis using s1 s2 by simp
qed

lemma supply_transfer:
  assumes "radix_laws (env_tree E)" and "0 \<le> (case v of Some v \<Rightarrow> v | None \<Rightarrow> 0)" and "transfer E from to v t = (e, t')"
  shows "totalSupply E (tr_state t') = totalSupply E (tr_state t)"
  using assms(2,3) supply_AddBalance [OF assms(1)] supply_SubBalance [OF assms(1), of "from"]
  by (fastforce simp: transfer_def SubBalance_def split: option.splits if_splits prod.splits)

end
