(* ===== verification/Executor_Host.thy ===== *)
theory Executor_Host
  imports Supply "HOL-Library.Sublist"
begin

text \<open>
  The transition as the host of the virtual machine: it keeps the host contract of the interpreter
  (\<open>vm_host\<close>), so that every call and creation returns with no more gas than it was given, the depth
  limit bounds the recursion of \<open>Callx\<close>, a static call changes nothing, and a failed call restores
  the world it started from.
\<close>

section \<open>The relation of the transition\<close>

definition world_rel :: "('s, 't, 'n, 'v) TxnEnv \<Rightarrow> bool \<Rightarrow> ('t, 'n) Transition \<Rightarrow> ('t, 'n) Transition \<Rightarrow> bool" where
  "world_rel E static t t' \<longleftrightarrow>
     t' = t\<lparr>tr_state := tr_state t'\<rparr> \<and>
     txn_snapshot (tr_state t') = txn_snapshot (tr_state t) \<and>
     prefix (txn_snapshots (tr_state t)) (txn_snapshots (tr_state t')) \<and>
     (static \<and> radix_laws (env_tree E) \<longrightarrow> same_world E (tr_state t) (tr_state t'))"

lemma world_rel_refl: "world_rel E s t t"
  by (simp add: world_rel_def same_world_def)

lemma world_rel_trans:
  assumes "world_rel E s t1 t2" and "world_rel E s t2 t3"
  shows "world_rel E s t1 t3"
proof -
  have "t3 = t1\<lparr>tr_state := tr_state t3\<rparr>"
    using assms unfolding world_rel_def by (metis Transition.surjective Transition.update_convs(2))
  with assms show ?thesis
    by (auto simp: world_rel_def same_world_def intro: prefix_order.trans)
qed

lemma world_rel_weaken: "world_rel E True t t' \<Longrightarrow> world_rel E s t t'"
  by (auto simp: world_rel_def)

lemma world_rel_config: "world_rel E s t t' \<Longrightarrow> tr_config t' = tr_config t"
  unfolding world_rel_def by (metis Transition.select_convs(1) Transition.surjective Transition.update_convs(2))

lemma world_rel_update:
  "txn_snapshot T = txn_snapshot (tr_state t) \<Longrightarrow> txn_snapshots T = txn_snapshots (tr_state t) \<Longrightarrow>
   world_rel E False t (t\<lparr>tr_state := T\<rparr>)"
  by (simp add: world_rel_def)

text \<open>The supply of tokens never grows, and the context of the transaction stays.\<close>

definition keeps_supply :: "('s, 't, 'n, 'v) TxnEnv \<Rightarrow> ('t, 'n) Transition \<Rightarrow> ('t, 'n) Transition \<Rightarrow> bool" where
  "keeps_supply E t t' \<longleftrightarrow> tr_ctx t' = tr_ctx t \<and> totalSupply E (tr_state t') \<le> totalSupply E (tr_state t)"

text \<open>What this needs: the laws of the radix tree, a clean machine in the pool, and a block context without
  negative numbers.\<close>

definition fine_world :: "('s, 't, 'n, 'v) TxnEnv \<Rightarrow> ('t, 'n) Transition state \<Rightarrow> ('t, 'n) Transition \<Rightarrow> bool" where
  "fine_world E pool t \<longleftrightarrow> radix_laws (env_tree E) \<and> list_all ((\<le>) 0) (stack pool) \<and>
     0 \<le> Timestamp (tr_ctx t) \<and> 0 \<le> Number (tr_ctx t) \<and> 0 \<le> GasLimit (tr_ctx t)"

lemma keeps_supply_refl: "keeps_supply E t t"
  by (simp add: keeps_supply_def)

lemma keeps_supply_trans: "keeps_supply E t1 t2 \<Longrightarrow> keeps_supply E t2 t3 \<Longrightarrow> keeps_supply E t1 t3"
  by (simp add: keeps_supply_def)

lemma fine_world_keeps: "fine_world E pool t \<Longrightarrow> keeps_supply E t t' \<Longrightarrow> fine_world E pool t'"
  by (simp add: fine_world_def keeps_supply_def)

lemma fine_world_radix: "fine_world E pool t \<Longrightarrow> radix_laws (env_tree E)"
  by (simp add: fine_world_def)

lemma host_rel_transition: "host_rel (transitionHost E cb) (world_rel E) (fine_world E pool) (keeps_supply E)"
proof
  fix s h h1 h2 h3 a b k v cfg ts d
  show "world_rel E s h h" by (rule world_rel_refl)
  show "world_rel E s h1 h2 \<Longrightarrow> world_rel E s h2 h3 \<Longrightarrow> world_rel E s h1 h3" by (rule world_rel_trans)
  show "world_rel E False h (snd (SetStorage (transitionHost E cb) h a k v cfg))"
    by (simp add: transitionHost_def Transition_SetStorage_def case_prod_beta world_rel_update)
  show "world_rel E False h (Selfdestruct (transitionHost E cb) h a b)"
    by (simp add: transitionHost_def Transition_Selfdestruct_def Let_def Suicide_def world_rel_update)
  show "world_rel E False h (EmitLog (transitionHost E cb) h a ts d)"
    by (simp add: transitionHost_def Transition_EmitLog_def Txn_EmitLog_def AddLog_def world_rel_update)
  show "keeps_supply E h h" by (rule keeps_supply_refl)
  show "keeps_supply E h1 h2 \<Longrightarrow> keeps_supply E h2 h3 \<Longrightarrow> keeps_supply E h1 h3" by (rule keeps_supply_trans)
  show "fine_world E pool h \<Longrightarrow> keeps_supply E h h1 \<Longrightarrow> fine_world E pool h1" by (rule fine_world_keeps)
  assume fine: "fine_world E pool h"
  note laws = fine_world_radix [OF fine]
  show "keeps_supply E h (snd (SetStorage (transitionHost E cb) h a k v cfg))"
    by (simp add: transitionHost_def Transition_SetStorage_def case_prod_beta keeps_supply_def supply_SetStorage [OF laws])
  show "keeps_supply E h (Selfdestruct (transitionHost E cb) h a b)"
    using supply_Selfdestruct [OF laws, of h a b] by (simp add: transitionHost_def keeps_supply_def Transition_Selfdestruct_def Let_def)
  show "keeps_supply E h (EmitLog (transitionHost E cb) h a ts d)"
    by (simp add: transitionHost_def Transition_EmitLog_def keeps_supply_def supply_ops [OF laws])
  show "0 \<le> GetBalance (transitionHost E cb) h a \<and> 0 \<le> Timestamp (GetTxContext (transitionHost E cb) h) \<and>
      0 \<le> Number (GetTxContext (transitionHost E cb) h) \<and> 0 \<le> GasLimit (GetTxContext (transitionHost E cb) h)"
    using fine by (simp add: transitionHost_def fine_world_def)
qed

interpretation transition: host_rel "transitionHost E cb" "world_rel E" "fine_world E pool" "keeps_supply E" for E cb pool
  by (rule host_rel_transition)

section \<open>Calls return and account for their gas\<close>

definition eip150 :: "('t, 'n) Transition \<Rightarrow> bool" where
  "eip150 t \<longleftrightarrow> EIP150 (tr_config t)"

text \<open>A call with a value that is not negative does not raise the supply.\<close>

definition supply_le ::
  "('s, 't, 'n, 'v) TxnEnv \<Rightarrow> ('t, 'n) Transition state \<Rightarrow> Contract \<Rightarrow> ('t, 'n) Transition \<Rightarrow> ('t, 'n) Transition \<Rightarrow> bool" where
  "supply_le E pool c t t' \<longleftrightarrow> (fine_world E pool t \<and> 0 \<le> valueOf c \<longrightarrow> keeps_supply E t t')"

lemma supply_le_refl [simp]: "supply_le E pool c t t"
  by (simp add: supply_le_def keeps_supply_refl)

lemma supply_le_trans: "supply_le E pool c t1 t2 \<Longrightarrow> supply_le E pool c t2 t3 \<Longrightarrow> supply_le E pool c t1 t3"
  unfolding supply_le_def using fine_world_keeps keeps_supply_trans by blast

lemma supply_le_state:
  "(radix_laws (env_tree E) \<Longrightarrow> totalSupply E T \<le> totalSupply E (tr_state t)) \<Longrightarrow> supply_le E pool c t (t\<lparr>tr_state := T\<rparr>)"
  by (simp add: supply_le_def keeps_supply_def fine_world_def)

lemma supply_le_transfer:
  assumes "transfer E from to (Value c) t = (e, t')"
  shows "supply_le E pool c t t'"
proof -
  have "tr_ctx t' = tr_ctx t" using assms by (auto simp: transfer_def split: option.splits prod.splits)
  then show ?thesis
    using supply_transfer [OF _ _ assms] by (simp add: supply_le_def keeps_supply_def fine_world_def valueOf_def)
qed

text \<open>What a call or creation guarantees.\<close>

definition call_ok ::
  "('s, 't, 'n, 'v) TxnEnv \<Rightarrow> ('t, 'n) Transition state \<Rightarrow> ('t, 'n) Transition \<Rightarrow> Contract \<Rightarrow> bool \<Rightarrow>
   (('t, 'n) Transition \<times> ExecutionResult) option \<Rightarrow> bool" where
  "call_ok E pool t c static res \<longleftrightarrow>
     (\<exists>t' r. res = Some (t', r) \<and> GasLeft r \<le> Gas c \<and> world_rel E static t t' \<and> supply_le E pool c t t')"

abbreviation host_ok ::
  "('s, 't, 'n, 'v) TxnEnv \<Rightarrow> ('t, 'n) Transition state \<Rightarrow> ('t, 'n) callback \<Rightarrow> int \<Rightarrow> bool" where
  "host_ok E pool cb d \<equiv> vm_host (transitionHost E cb) (world_rel E) (fine_world E pool) (keeps_supply E) d eip150"

lemma Transition_run_ok:
  assumes "host_ok E pool cb (Depth c)" and "eip150 t"
  shows "call_ok E pool t c (Static c) (Transition_run E P pool cb t c)"
proof (cases "Precompiled_CanRun P c (tr_config t)")
  case True
  then obtain r where "Precompiled_Run P c (tr_config t) = Some r"
    using Precompiled_CanRun_returns by blast
  with True show ?thesis
    by (auto simp: call_ok_def Transition_run_def runtimes_def Precompiled_Run_gas world_rel_refl)
next
  case False
  obtain t' r s' where "EVM_Run (transitionHost E cb) (env_crypto E) pool c t (tr_config t) = Some (t', r, s')"
    "GasLeft r \<le> Gas c" "world_rel E (Static c) t t'" "supply_le E pool c t t'"
    using vm_host.EVM_Run_result [OF assms(1), of "tr_config t" c t "env_crypto E" pool] assms(2)
    unfolding eip150_def supply_le_def by (auto simp: fine_world_def)
  with False show ?thesis
    by (simp add: call_ok_def Transition_run_def runtimes_def EVM_CanRun_def)
qed

text \<open>A snapshot taken before a run is still there after it, and restores the world exactly.\<close>

lemma revertWith_ok:
  assumes "world_rel E s (t\<lparr>tr_state := T1\<rparr>) t3"
    and "txn_snapshots T1 = txn_snapshots (tr_state t) @ [txn_txn (tr_state t)]"
    and "txn_snapshot T1 = txn_snapshot (tr_state t)"
    and "GasLeft r \<le> Gas c"
  shows "call_ok E pool t c True (revertWith (length (txn_snapshots (tr_state t))) r t3)"
proof -
  from assms(1,2) obtain zs where zs:
    "txn_snapshots (tr_state t3) = txn_snapshots (tr_state t) @ txn_txn (tr_state t) # zs"
    by (auto simp: world_rel_def prefix_def)
  let ?T = "(tr_state t3)\<lparr>txn_txn := txn_txn (tr_state t)\<rparr>"
  have "RevertToSnapshot (length (txn_snapshots (tr_state t))) (tr_state t3) = Some ?T"
    by (simp add: RevertToSnapshot_def zs nth_append)
  moreover have "t3 = t\<lparr>tr_state := tr_state t3\<rparr>" using assms(1) by (simp add: world_rel_def)
  then have "t3\<lparr>tr_state := ?T\<rparr> = t\<lparr>tr_state := ?T\<rparr>"
    by (metis Transition.update_convs(2) Transition.surjective)
  moreover have "world_rel E True t (t\<lparr>tr_state := ?T\<rparr>)"
    using assms(1,3) zs same_world_cong [of ?T "tr_state t" E] by (auto simp: world_rel_def)
  moreover have "supply_le E pool c t (t\<lparr>tr_state := ?T\<rparr>)"
    using assms(1,3) by (intro supply_le_state eq_refl same_world_supply same_world_cong) (simp_all add: world_rel_def)
  ultimately show ?thesis using assms(4) by (simp add: call_ok_def revertWith_def)
qed

lemma call_ok_trans:
  "world_rel E s t t1 \<Longrightarrow> supply_le E pool c t t1 \<Longrightarrow> call_ok E pool t1 c s res \<Longrightarrow> call_ok E pool t c s res"
  by (auto simp: call_ok_def intro: world_rel_trans supply_le_trans)

lemma call_ok_weaken: "call_ok E pool t c True res \<Longrightarrow> call_ok E pool t c s res"
  by (auto simp: call_ok_def intro: world_rel_weaken)

lemma world_rel_eip150: "world_rel E s t t' \<Longrightarrow> eip150 t' = eip150 t"
  using world_rel_config [of E s t t'] by (simp add: eip150_def)

lemma SubBalance_frame:
  "SubBalance E a v T = (e, T') \<Longrightarrow> txn_snapshots T' = txn_snapshots T \<and> txn_snapshot T' = txn_snapshot T"
  by (auto simp: SubBalance_def split: if_splits)

lemma transfer_rel:
  assumes "transfer E from to v t = (e, t')"
  shows "world_rel E False t t'" and "v = Some 0 \<Longrightarrow> world_rel E True t t'"
proof -
  have "txn_snapshots (tr_state t') = txn_snapshots (tr_state t) \<and>
        txn_snapshot (tr_state t') = txn_snapshot (tr_state t) \<and> t' = t\<lparr>tr_state := tr_state t'\<rparr>"
    using assms by (auto simp: transfer_def split: option.splits prod.splits dest: SubBalance_frame)
  then show "world_rel E False t t'" by (auto simp: world_rel_def)
  then show "world_rel E True t t'" if "v = Some 0"
    using that assms same_world_Add0 [of E "tr_state t" to]
    by (auto simp: transfer_def SubBalance_def world_rel_def)
qed

lemma revertWith_txn:
  assumes "world_rel E s (t\<lparr>tr_state := T1\<rparr>) t3"
    and "txn_snapshots T1 = txn_snapshots (tr_state t) @ [txn_txn (tr_state t)]"
    and "revertWith (length (txn_snapshots (tr_state t))) r t3 = Some (t', r')"
  shows "r' = r \<and> txn_txn (tr_state t') = txn_txn (tr_state t)"
proof -
  from assms(1,2) obtain zs where
    "txn_snapshots (tr_state t3) = txn_snapshots (tr_state t) @ txn_txn (tr_state t) # zs"
    by (auto simp: world_rel_def prefix_def)
  with assms(3) show ?thesis by (auto simp: revertWith_def RevertToSnapshot_def nth_append)
qed

lemma transfer_error: "transfer E from to v t = (Some e, t') \<Longrightarrow> e = ErrInsufficientBalance"
  by (auto simp: transfer_def SubBalance_def split: option.splits if_splits prod.splits)

lemma transfer_succeeds:
  "v \<le> Txn_GetBalance E (tr_state t) from \<Longrightarrow> \<exists>t'. transfer E from to (Some v) t = (None, t')"
  by (auto simp: transfer_def SubBalance_def)

lemma applyCall_unfold:
  assumes "\<not> Depth c > maxDepth"
    and "T1 = TouchAccount E (Address c) ((tr_state t)\<lparr>txn_snapshots := txn_snapshots (tr_state t) @ [txn_txn (tr_state t)]\<rparr>)"
    and "(if callType = Call then transfer E (Caller c) (Address c) (Value c) (t\<lparr>tr_state := T1\<rparr>)
          else (None, t\<lparr>tr_state := T1\<rparr>)) = (e, t2)"
  shows "applyCall E P pool cb t c callType =
      (case e of Some er \<Rightarrow> Some (t2, errorResult (Gas c) er)
       | None \<Rightarrow> Transition_run E P pool cb t2 c \<bind> (\<lambda>(t', result).
           if Failed result then revertWith (length (txn_snapshots (tr_state t))) result t' else Some (t', result)))"
  unfolding applyCall_def if_not_P [OF assms(1)] Let_def Snapshot_def prod.case assms(2) [symmetric] assms(3)
  by (simp split: option.split)

lemma applyCall_ok:
  assumes "host_ok E pool cb (Depth c)" and "eip150 t"
    and "static \<Longrightarrow> Static c \<and> (callType = Call \<longrightarrow> Value c = Some 0)"
  shows "call_ok E pool t c static (applyCall E P pool cb t c callType)"
proof (cases "Depth c > maxDepth")
  case True
  then show ?thesis by (simp add: applyCall_def call_ok_def errorResult_def world_rel_refl)
next
  case False
  let ?T0 = "(tr_state t)\<lparr>txn_snapshots := txn_snapshots (tr_state t) @ [txn_txn (tr_state t)]\<rparr>"
  define T1 where "T1 = TouchAccount E (Address c) ?T0"
  let ?t1 = "t\<lparr>tr_state := T1\<rparr>"
  obtain e t2 where t2: "(if callType = Call then transfer E (Caller c) (Address c) (Value c) ?t1
      else (None, ?t1)) = (e, t2)" by force
  note eq = applyCall_unfold [OF False T1_def t2, of P pool cb]
  have "same_world E (tr_state t) ?T0" by (rule same_world_cong) simp_all
  then have 1: "world_rel E s t ?t1" for s
    using same_world_Touch [of E ?T0 "Address c"]
    by (auto simp: world_rel_def T1_def same_world_def)
  have 2: "world_rel E static ?t1 t2"
    using t2 transfer_rel [of E "Caller c" "Address c" "Value c" ?t1 e t2] assms(3)
    by (cases static) (auto simp: world_rel_refl split: if_splits)
  have "supply_le E pool c t ?t1"
    using \<open>same_world E (tr_state t) ?T0\<close> by (intro supply_le_state) (simp add: T1_def supply_ops same_world_supply)
  moreover have "supply_le E pool c ?t1 t2" using t2 by (auto intro: supply_le_transfer split: if_splits)
  ultimately have sup: "supply_le E pool c t t2" by (rule supply_le_trans)
  show ?thesis
  proof (cases e)
    case (Some er)
    with eq 2 1 [of static] sup show ?thesis
      by (auto simp: call_ok_def errorResult_def intro: world_rel_trans)
  next
    case None
    have "eip150 t2" using 1 2 assms(2) world_rel_eip150 by blast
    from Transition_run_ok [OF assms(1) this, of P] obtain t3 r where
      run: "Transition_run E P pool cb t2 c = Some (t3, r)" "GasLeft r \<le> Gas c" "world_rel E (Static c) t2 t3"
        "supply_le E pool c t2 t3"
      by (auto simp: call_ok_def)
    have 3: "world_rel E static t2 t3"
      using run(3) assms(3) world_rel_weaken by (cases "Static c"; cases static) auto
    show ?thesis
    proof (cases "Failed r")
      case True
      have "world_rel E static ?t1 t3" using 2 3 world_rel_trans by blast
      from revertWith_ok [OF this _ _ run(2)] have "call_ok E pool t c True (revertWith (length (txn_snapshots (tr_state t))) r t3)"
        by (simp add: T1_def)
      with eq None run(1) True show ?thesis by (auto intro: call_ok_weaken)
    next
      case False
      with eq None run 1 [of static] 2 3 sup show ?thesis
        by (auto simp: call_ok_def intro: world_rel_trans supply_le_trans)
    qed
  qed
qed

lemma applyCall_reverts:
  assumes host: "host_ok E pool cb (Depth c)" and eip: "eip150 t"
    and call: "applyCall E P pool cb t c callType = Some (t', r)"
    and failed: "Failed r" "Err r \<noteq> Some ErrInsufficientBalance"
  shows "txn_txn (tr_state t') = txn_txn (tr_state t)"
proof (cases "Depth c > maxDepth")
  case True
  with call show ?thesis by (simp add: applyCall_def)
next
  case False
  define T1 where "T1 = TouchAccount E (Address c) ((tr_state t)\<lparr>txn_snapshots := txn_snapshots (tr_state t) @ [txn_txn (tr_state t)]\<rparr>)"
  obtain e t2 where t2: "(if callType = Call then transfer E (Caller c) (Address c) (Value c) (t\<lparr>tr_state := T1\<rparr>)
      else (None, t\<lparr>tr_state := T1\<rparr>)) = (e, t2)" by force
  note eq = applyCall_unfold [OF False T1_def t2, of P pool cb]
  have e: "e = None"
    using call failed transfer_error [of E "Caller c" "Address c" "Value c" "t\<lparr>tr_state := T1\<rparr>" _ t2] t2
    by (cases e) (auto simp: eq errorResult_def split: if_splits)
  have 2: "world_rel E False (t\<lparr>tr_state := T1\<rparr>) t2"
    using t2 by (auto intro: transfer_rel simp: world_rel_refl split: if_splits)
  have "world_rel E False t (t\<lparr>tr_state := T1\<rparr>)" by (simp add: world_rel_def T1_def)
  with 2 eip have "eip150 t2" using world_rel_eip150 by blast
  from Transition_run_ok [OF host this, of P] obtain t3 r3 where
    run: "Transition_run E P pool cb t2 c = Some (t3, r3)" "world_rel E (Static c) t2 t3"
    by (auto simp: call_ok_def)
  have "world_rel E False t2 t3" using run(2) world_rel_weaken by (cases "Static c") auto
  with 2 have 3: "world_rel E False (t\<lparr>tr_state := T1\<rparr>) t3" by (rule world_rel_trans)
  from call failed(1) have "revertWith (length (txn_snapshots (tr_state t))) r3 t3 = Some (t', r)"
    by (auto simp: eq e run(1) split: if_splits)
  from revertWith_txn [OF 3 _ this] show ?thesis by (simp add: T1_def)
qed

lemma finishCreation_ok:
  assumes "world_rel E False (t\<lparr>tr_state := T1\<rparr>) t3"
    and "txn_snapshots T1 = txn_snapshots (tr_state t) @ [txn_txn (tr_state t)]"
    and "txn_snapshot T1 = txn_snapshot (tr_state t)"
    and "GasLeft r \<le> Gas c" and sup: "supply_le E pool c t t3"
  shows "call_ok E pool t c False (finishCreation E (length (txn_snapshots (tr_state t))) c t3 r)"
proof -
  have t3: "world_rel E False t t3"
    using assms(1,2,3) by (auto simp: world_rel_def intro: append_prefixD)
  have rev: "call_ok E pool t c False (revertWith (length (txn_snapshots (tr_state t))) r' t3)"
    if "GasLeft r' \<le> Gas c" for r'
    using revertWith_ok [OF assms(1,2,3) that] by (rule call_ok_weaken)
  have set: "world_rel E False t (t3\<lparr>tr_state := SetCode E a cd (tr_state t3)\<rparr>)" for a cd
    using t3 by (rule world_rel_trans) (simp add: world_rel_update)
  have set2: "supply_le E pool c t (t3\<lparr>tr_state := SetCode E a cd (tr_state t3)\<rparr>)" for a cd
    using sup by (rule supply_le_trans) (simp add: supply_le_state supply_ops)
  have sub: "GasLeft r - g \<le> Gas c" if "\<not> GasLeft r < g" for g
    using that assms(4) word_sub_le [of g "GasLeft r"] by (simp add: not_less)
  show ?thesis
    using assms(4) t3 set sub sup set2
    by (auto simp: finishCreation_def Let_def errorResult_def call_ok_def [of _ _ _ _ _ "Some _"] intro!: rev)
qed

lemma applyCreate_unfold:
  assumes "\<not> Depth c > maxDepth"
    and "t0 = t\<lparr>tr_state := IncrNonce E (Caller c) (tr_state t)\<rparr>"
    and "\<not> hasCodeOrNonce E t0 (Address c)"
    and "T0 = (tr_state t0)\<lparr>txn_snapshots := txn_snapshots (tr_state t0) @ [txn_txn (tr_state t0)]\<rparr>"
    and "T1 = (if EIP158 (tr_config t0) then IncrNonce E (Address c) (CreateAccount E (Address c) T0) else T0)"
    and "transfer E (Caller c) (Address c) (Value c) (t0\<lparr>tr_state := T1\<rparr>) = (e, t2)"
  shows "applyCreate E P pool cb t c =
      (case e of Some er \<Rightarrow> Some (t2, errorResult (Gas c) er)
       | None \<Rightarrow> Transition_run E P pool cb t2 c \<bind> (\<lambda>(t', result).
           finishCreation E (length (txn_snapshots (tr_state t0))) c t' result))"
  unfolding applyCreate_def if_not_P [OF assms(1)] Let_def assms(2) [symmetric] if_not_P [OF assms(3)]
    Snapshot_def prod.case assms(4) [symmetric] assms(5) [symmetric] assms(6)
  by (simp split: option.split)

text \<open>What happens up to the end of the init code.\<close>

lemma applyCreate_cases [consumes 2, case_names refused collision funds ran]:
  assumes host: "host_ok E pool cb (Depth c)" and eip: "eip150 t"
  obtains (refused) "Depth c > maxDepth" "applyCreate E P pool cb t c = Some (t, errorResult (Gas c) ErrDepth)"
  | (collision) t0 where "t0 = t\<lparr>tr_state := IncrNonce E (Caller c) (tr_state t)\<rparr>"
      "applyCreate E P pool cb t c = Some (t0, errorResult 0 ErrContractAddressCollision)"
  | (funds) t0 t2 where "t0 = t\<lparr>tr_state := IncrNonce E (Caller c) (tr_state t)\<rparr>" "world_rel E False t0 t2" "supply_le E pool c t0 t2"
      "applyCreate E P pool cb t c = Some (t2, errorResult (Gas c) ErrInsufficientBalance)"
  | (ran) t0 T1 t3 r where "t0 = t\<lparr>tr_state := IncrNonce E (Caller c) (tr_state t)\<rparr>"
      "txn_snapshots T1 = txn_snapshots (tr_state t0) @ [txn_txn (tr_state t0)]"
      "txn_snapshot T1 = txn_snapshot (tr_state t0)"
      "world_rel E False (t0\<lparr>tr_state := T1\<rparr>) t3" "GasLeft r \<le> Gas c" "supply_le E pool c t0 t3"
      "applyCreate E P pool cb t c = finishCreation E (length (txn_snapshots (tr_state t0))) c t3 r"
proof (cases "Depth c > maxDepth")
  case True
  then show ?thesis by (intro refused) (simp_all add: applyCreate_def)
next
  case False
  define t0 where "t0 = t\<lparr>tr_state := IncrNonce E (Caller c) (tr_state t)\<rparr>"
  have 0: "world_rel E False t t0" by (simp add: t0_def world_rel_update)
  show ?thesis
  proof (cases "hasCodeOrNonce E t0 (Address c)")
    case True
    with False show ?thesis by (intro collision) (simp_all add: applyCreate_def t0_def)
  next
    case free: False
    define T0 where "T0 = (tr_state t0)\<lparr>txn_snapshots := txn_snapshots (tr_state t0) @ [txn_txn (tr_state t0)]\<rparr>"
    define T1 where "T1 = (if EIP158 (tr_config t0) then IncrNonce E (Address c) (CreateAccount E (Address c) T0) else T0)"
    have T1: "txn_snapshots T1 = txn_snapshots (tr_state t0) @ [txn_txn (tr_state t0)]"
      "txn_snapshot T1 = txn_snapshot (tr_state t0)"
      by (simp_all add: T1_def T0_def)
    obtain e t2 where t2: "transfer E (Caller c) (Address c) (Value c) (t0\<lparr>tr_state := T1\<rparr>) = (e, t2)" by force
    note eq = applyCreate_unfold [OF False t0_def free T0_def T1_def t2, of P pool cb]
    have 1: "world_rel E False t0 (t0\<lparr>tr_state := T1\<rparr>)" using T1 by (auto simp: world_rel_def)
    note 2 = transfer_rel(1) [OF t2]
    have "totalSupply E T0 = totalSupply E (tr_state t0)"
      unfolding T0_def by (intro same_world_supply same_world_cong) simp_all
    then have "supply_le E pool c t0 (t0\<lparr>tr_state := T1\<rparr>)"
      by (intro supply_le_state) (simp add: T1_def supply_ops supply_CreateAccount)
    then have sup: "supply_le E pool c t0 t2" using supply_le_transfer [OF t2] by (rule supply_le_trans)
    show ?thesis
    proof (cases e)
      case (Some er)
      with sup eq transfer_error [of E "Caller c" "Address c" "Value c" "t0\<lparr>tr_state := T1\<rparr>" er t2] t2 world_rel_trans [OF 1 2]
      show ?thesis by (intro funds) (auto simp: t0_def)
    next
      case None
      have "eip150 t2" using 0 1 2 eip world_rel_eip150 by blast
      from Transition_run_ok [OF host this, of P] obtain t3 r where
        run: "Transition_run E P pool cb t2 c = Some (t3, r)" "GasLeft r \<le> Gas c" "world_rel E (Static c) t2 t3"
          "supply_le E pool c t2 t3"
        by (auto simp: call_ok_def)
      have "world_rel E False t2 t3" using run(3) world_rel_weaken by (cases "Static c") auto
      with 2 have "world_rel E False (t0\<lparr>tr_state := T1\<rparr>) t3" by (rule world_rel_trans)
      with T1 run(1,2) eq None supply_le_trans [OF sup run(4)] show ?thesis by (intro ran [OF t0_def]) auto
    qed
  qed
qed

lemma applyCreate_ok:
  assumes "host_ok E pool cb (Depth c)" and "eip150 t"
  shows "call_ok E pool t c False (applyCreate E P pool cb t c)"
proof -
  have 0: "world_rel E False t (t\<lparr>tr_state := IncrNonce E (Caller c) (tr_state t)\<rparr>)"
    by (simp add: world_rel_update)
  have 1: "supply_le E pool c t (t\<lparr>tr_state := IncrNonce E (Caller c) (tr_state t)\<rparr>)"
    by (simp add: supply_le_state supply_ops)
  show ?thesis
    using assms
  proof (cases rule: applyCreate_cases [where P = P])
    case (ran t0 T1 t3 r)
    with finishCreation_ok [OF ran(4,2,3,5,6)] 0 1 show ?thesis by (auto intro: call_ok_trans)
  qed (use 0 1 in \<open>auto simp: call_ok_def errorResult_def world_rel_refl intro: world_rel_trans supply_le_trans\<close>)
qed

text \<open>A failed creation leaves only the incremented nonce of the creator.\<close>

lemma applyCreate_reverts:
  assumes host: "host_ok E pool cb (Depth c)" and eip: "eip150 t" and hs: "Homestead (tr_config t)"
    and depth: "Depth c \<le> maxDepth"
    and create: "applyCreate E P pool cb t c = Some (t', r)"
    and failed: "Failed r" "Err r \<noteq> Some ErrInsufficientBalance"
  shows "txn_txn (tr_state t') = txn_txn (IncrNonce E (Caller c) (tr_state t))"
  using host eip
proof (cases rule: applyCreate_cases [where P = P])
  case (ran t0 T1 t3 r3)
  have "Homestead (tr_config t3)"
    using world_rel_config [OF ran(4)] ran(1) hs by simp
  with ran(7) create failed(1) obtain r' where
    "revertWith (length (txn_snapshots (tr_state t0))) r' t3 = Some (t', r)"
    by (auto simp: finishCreation_def Let_def Failed_def split: if_splits)
  from revertWith_txn [OF ran(4,2) this] ran(1) show ?thesis by simp
qed (use create failed depth in \<open>auto simp: errorResult_def\<close>)

text \<open>Enough fuel for a contract of depth \<open>d\<close>: beyond depth 1025 nothing is run any more.\<close>

lemma applyCall_depth:
  "Depth c > maxDepth \<Longrightarrow> call_ok E pool t c s (applyCall E P pool cb t c ct)"
  "Depth c > maxDepth \<Longrightarrow> call_ok E pool t c s (applyCreate E P pool cb t c)"
  by (simp_all add: applyCall_def applyCreate_def call_ok_def errorResult_def world_rel_refl)

definition callx_ok :: "('s, 't, 'n, 'v) TxnEnv \<Rightarrow> ('t, 'n) Transition state \<Rightarrow> ('t, 'n) callback \<Rightarrow> int \<Rightarrow> bool" where
  "callx_ok E pool cb d \<longleftrightarrow> (\<forall>t c. eip150 t \<longrightarrow> Depth c = d \<longrightarrow> call_ok E pool t c False (cb t c) \<and>
     (Static c \<longrightarrow> IsCallType (CType c) \<longrightarrow> (CType c = Call \<longrightarrow> Value c = Some 0) \<longrightarrow> call_ok E pool t c True (cb t c)))"

lemma callx_host:
  fixes E :: "('s, 't, 'n, 'v) TxnEnv"
  assumes "callx_ok E pool cb (d + 1)"
  shows "host_ok E pool cb d"
proof (intro vm_host.intro host_rel_transition vm_host_axioms.intro)
  fix h h' :: "('t, 'n) Transition" and s and ct :: Contract and r :: ExecutionResult
  show "eip150 h \<Longrightarrow> world_rel E s h h' \<Longrightarrow> eip150 h'" using world_rel_eip150 by blast
  assume h: "eip150 h" and d: "Depth ct = d + 1"
  note ok = assms [unfolded callx_ok_def, rule_format, OF h d]
  show "\<exists>h' r. Callx (transitionHost E cb) h ct = Some (h', r)"
    using ok by (auto simp: call_ok_def transitionHost_def)
  assume *: "Callx (transitionHost E cb) h ct = Some (h', r)"
  show "GasLeft r \<le> Gas ct" using ok * by (auto simp: call_ok_def transitionHost_def)
  show "world_rel E False h h'" using ok * by (auto simp: call_ok_def transitionHost_def)
  show "keeps_supply E h h'" if "fine_world E pool h" "0 \<le> valueOf ct"
    using ok * that by (auto simp: call_ok_def transitionHost_def supply_le_def)
  assume "Static ct" "IsCallType (CType ct)" "CType ct = Call \<longrightarrow> Value ct = Some 0"
  then show "world_rel E True h h'" using ok * by (auto simp: call_ok_def transitionHost_def)
qed

lemma Transition_Callx_ok:
  "maxDepth < d + int n \<Longrightarrow> callx_ok E pool (Transition_Callx E P pool (Suc n)) d"
proof (induction n arbitrary: d)
  case 0
  then show ?case by (auto simp: callx_ok_def applyCall_depth)
next
  case (Suc n)
  then have "callx_ok E pool (Transition_Callx E P pool (Suc n)) (d + 1)"
    by (simp del: Transition_Callx.simps)
  from callx_host [OF this] have "host_ok E pool (Transition_Callx E P pool (Suc n)) d" .
  then show ?case
    unfolding callx_ok_def Transition_Callx.simps(2) [of _ _ _ "Suc n"]
    by (auto simp del: Transition_Callx.simps simp: IsCallType_def intro: applyCall_ok applyCreate_ok)
qed

lemma callFuel_host: "1 \<le> d \<Longrightarrow> host_ok E pool (Transition_Callx E P pool callFuel) d"
  using Transition_Callx_ok [of "d + 1" 1025 E pool P]
  by (intro callx_host) (simp add: callFuel_def maxDepth_def del: Transition_Callx.simps)

interpretation calls: vm_host "transitionHost E (Transition_Callx E P pool callFuel)" "world_rel E" "fine_world E pool"
    "keeps_supply E" "1 + int k" eip150
  for E P pool k
  by (rule callFuel_host) simp

text \<open>The two entry points of a transaction.\<close>

lemma Call2_ok:
  assumes "eip150 t"
  shows "\<exists>t' r. Call2 E P pool t caller to input val g = Some (t', r) \<and> GasLeft r \<le> g \<and> world_rel E False t t' \<and>
    (fine_world E pool t \<and> 0 \<le> val \<longrightarrow> keeps_supply E t t')"
proof -
  let ?c = "NewContractCall 1 caller caller to (Some val) g (Txn_GetCode E (tr_state t) to) input"
  have "call_ok E pool t ?c False (Call2 E P pool t caller to input val g)"
    unfolding Call2_def by (rule applyCall_ok [OF callFuel_host assms]) (simp_all add: NewContractCall_def NewContract_def)
  then show ?thesis by (simp add: call_ok_def NewContractCall_def NewContract_def supply_le_def valueOf_def)
qed

lemma Create2_ok:
  assumes "eip150 t"
  shows "\<exists>t' r. Create2_tx E P pool t caller cd val g = Some (t', r) \<and> GasLeft r \<le> g \<and> world_rel E False t t' \<and>
    (fine_world E pool t \<and> 0 \<le> val \<longrightarrow> keeps_supply E t t')"
proof -
  let ?c = "NewContractCreation 1 caller caller
    (CreateAddress (env_crypto E) caller (Txn_GetNonce E (tr_state t) caller)) (Some val) g cd"
  have "call_ok E pool t ?c False (Create2_tx E P pool t caller cd val g)"
    unfolding Create2_tx_def Let_def
    by (rule applyCreate_ok [OF callFuel_host assms]) (simp add: NewContractCreation_def NewContract_def)
  then show ?thesis by (simp add: call_ok_def NewContractCreation_def NewContract_def supply_le_def valueOf_def)
qed

section \<open>Properties\<close>

text \<open>A transition for concrete instances: every fork is active, account 10 holds 1000, and a
  precompiled contract of price 3000 is registered at address 1.\<close>

definition demoTransition :: "(accounts, unit) Transition" where
  "demoTransition =
     \<lparr>tr_config = Forks_At AllForksEnabled 0, tr_state = SetBalance demoEnv 10 1000 (newTxn demoEnv ()),
      tr_getHash = (\<lambda>_. 0),
      tr_ctx = \<lparr>GasPrice = 0, Origin_ctx = 10, Coinbase = 3, Number = 1, Timestamp = 1, GasLimit = 5000,
                ChainID = 2000, Difficulty = 0\<rparr>,
      tr_gasPool = 5000, tr_receipts = [], tr_totalGas = 0\<rparr>"

definition demoContracts :: contracts where
  "demoContracts = [1 \<mapsto> \<lparr>pc_gas = (\<lambda>_ _. 3000), pc_run = Inr\<rparr>]"

definition demoPool :: "(accounts, unit) Transition state" where
  "demoPool = new_state (\<lambda>_ _. 0) demoTransition (NewContract 0 0 0 0 None 0 []) (Forks_At AllForksEnabled 0)"

lemma demo_simps [simp]:
  "EIP150 (tr_config demoTransition)" "Homestead (tr_config demoTransition)" "EIP158 (tr_config demoTransition)"
  "env_laws demoEnv" "radix_laws (env_tree demoEnv)"
  by (simp_all add: demoTransition_def Forks_At_def AllForksEnabled_def forks_active_def Fork_Active_def demoEnv_laws)

lemma demo_balance:
  "Txn_GetBalance demoEnv (TouchAccount demoEnv a ((tr_state demoTransition)\<lparr>txn_snapshots := S\<rparr>)) 10 = 1000"
proof -
  have "Txn_GetBalance demoEnv (tr_state demoTransition) 10 = 1000"
    using objectOrNew_ops(1) [OF demoEnv_laws(2), of 10 1000 "newTxn demoEnv ()" 10]
    by (simp add: demoTransition_def Txn_GetBalance_eq)
  moreover have "objectOrNew demoEnv ((tr_state demoTransition)\<lparr>txn_snapshots := S\<rparr>) 10 =
      objectOrNew demoEnv (tr_state demoTransition) 10"
    using same_world_cong [of "(tr_state demoTransition)\<lparr>txn_snapshots := S\<rparr>" "tr_state demoTransition" demoEnv]
    by (simp add: same_world_def)
  ultimately show ?thesis by (simp add: Txn_GetBalance_eq objectOrNew_ops [OF demoEnv_laws(2)])
qed

lemma demo_call_fails:
  assumes c: "c = (NewContractCall d 10 10 1 (Some v) 100 [] [7])\<lparr>Static := s\<rparr>" and d: "d \<le> 1025"
    and v: "0 \<le> v" "v \<le> 1000"
  shows "\<exists>t'. applyCall demoEnv demoContracts demoPool cb demoTransition c Call =
    Some (t', errorResult 0 ErrOutOfGas)"
proof -
  let ?T1 = "TouchAccount demoEnv (Address c) ((tr_state demoTransition)\<lparr>txn_snapshots :=
    txn_snapshots (tr_state demoTransition) @ [txn_txn (tr_state demoTransition)]\<rparr>)"
  obtain t2 where t2: "transfer demoEnv (Caller c) (Address c) (Value c) (demoTransition\<lparr>tr_state := ?T1\<rparr>) = (None, t2)"
    using transfer_succeeds [of v demoEnv "demoTransition\<lparr>tr_state := ?T1\<rparr>" 10 1] v
    by (auto simp: c NewContractCall_def NewContract_def demo_balance)
  have "world_rel demoEnv False (demoTransition\<lparr>tr_state := ?T1\<rparr>) t2" using t2 by (rule transfer_rel)
  then have "length (txn_snapshots (tr_state demoTransition)) < length (txn_snapshots (tr_state t2))"
    using prefix_length_le by (fastforce simp: world_rel_def)
  with applyCall_unfold [OF _ refl, where c = c and E = demoEnv and t = demoTransition and callType = Call
      and e = None and ?t2.0 = t2 and P = demoContracts and pool = demoPool and cb = cb] d t2 show ?thesis
    by (simp add: c maxDepth_def NewContractCall_def NewContract_def Transition_run_def runtimes_def
        Precompiled_CanRun_def demoContracts_def Precompiled_Run_def errorResult_def Failed_def revertWith_def
        RevertToSnapshot_def)
qed

text \<open>C3: termination of calls.  From EIP-150 on, every call and every creation a transaction makes
  returns, whatever code runs: it leaves at most the gas it was given and changes nothing of the
  transition but the world state.\<close>

theorem calls_terminate:
  assumes "EIP150 (tr_config t)"
  shows "(\<exists>t' r. Call2 E P pool t caller to input val g = Some (t', r) \<and> GasLeft r \<le> g \<and>
            t' = t\<lparr>tr_state := tr_state t'\<rparr>) \<and>
         (\<exists>t' r. Create2_tx E P pool t caller cd val g = Some (t', r) \<and> GasLeft r \<le> g \<and>
            t' = t\<lparr>tr_state := tr_state t'\<rparr>)"
proof -
  have "eip150 t" using assms by (simp add: eip150_def)
  from Call2_ok [OF this, of E P pool caller to input val g] Create2_ok [OF this, of E P pool caller cd val g]
  show ?thesis by (auto simp: world_rel_def)
qed

theorem calls_terminate_witness:
  "\<exists>t' r. Call2 demoEnv demoContracts demoPool demoTransition 10 2 [] 5 1000 = Some (t', r) \<and> GasLeft r \<le> 1000"
  using calls_terminate [of demoTransition demoEnv demoContracts demoPool 10 2 "[]" 5 1000 "[]"] by auto

text \<open>C4: safety of static calls.  A static call (and a message call inside one, which cannot carry
  value) leaves every balance, nonce, code and storage slot, the logs and the refund counter as they were,
  whatever it runs and however it ends.\<close>

theorem static_call_changes_nothing:
  assumes "env_laws E" and "EIP150 (tr_config t)" and "1 \<le> Depth c" and "Static c"
    and "callType = Call \<longrightarrow> Value c = Some 0"
    and "applyCall E P pool (Transition_Callx E P pool callFuel) t c callType = Some (t', r)"
  shows "Txn_GetBalance E (tr_state t') a = Txn_GetBalance E (tr_state t) a \<and>
    Txn_GetNonce E (tr_state t') a = Txn_GetNonce E (tr_state t) a \<and>
    Txn_GetCode E (tr_state t') a = Txn_GetCode E (tr_state t) a \<and>
    Txn_Empty E (tr_state t') a = Txn_Empty E (tr_state t) a \<and>
    GetState E (tr_state t') a k = GetState E (tr_state t) a k \<and>
    pendingLogs E (tr_state t') = pendingLogs E (tr_state t) \<and>
    GetRefund E (tr_state t') = GetRefund E (tr_state t)"
proof -
  have "call_ok E pool t c True (applyCall E P pool (Transition_Callx E P pool callFuel) t c callType)"
    using assms(2-5) by (intro applyCall_ok callFuel_host) (simp_all add: eip150_def)
  with assms(1,6) have "same_world E (tr_state t) (tr_state t')"
    by (auto simp: call_ok_def world_rel_def env_laws_def)
  then show ?thesis
    by (simp add: same_world_def Txn_GetBalance_eq Txn_GetNonce_eq Txn_GetCode_eq [OF assms(1)]
        Txn_Empty_eq GetState_eq [OF assms(1)])
qed

theorem static_call_changes_nothing_witness:
  "\<exists>t'. applyCall demoEnv demoContracts demoPool (Transition_Callx demoEnv demoContracts demoPool callFuel) demoTransition
      ((NewContractCall 2 10 10 1 (Some 0) 100 [] [7])\<lparr>Static := True\<rparr>) Call = Some (t', errorResult 0 ErrOutOfGas) \<and>
    GetState demoEnv (tr_state t') 1 5 = GetState demoEnv (tr_state demoTransition) 1 5"
proof -
  let ?c = "(NewContractCall 2 10 10 1 (Some 0) 100 [] [7])\<lparr>Static := True\<rparr>"
  have c: "1 \<le> Depth ?c" "Static ?c" "Call = Call \<longrightarrow> Value ?c = Some 0"
    by (simp_all add: NewContractCall_def NewContract_def)
  obtain t' where t': "applyCall demoEnv demoContracts demoPool (Transition_Callx demoEnv demoContracts demoPool callFuel)
      demoTransition ?c Call = Some (t', errorResult 0 ErrOutOfGas)"
    using demo_call_fails [OF refl, of 2 0 "Transition_Callx demoEnv demoContracts demoPool callFuel"] by auto
  with static_call_changes_nothing [OF demo_simps(4,1) c t'] show ?thesis by blast
qed





text \<open>C7: transfers.  A transfer of a non-negative amount succeeds exactly when the sender can pay,
  moves exactly that amount, never changes the sum of all balances, and a refused transfer changes nothing.\<close>

theorem transfer_conserves:
  assumes "radix_laws (env_tree E)" and "0 \<le> v"
    and "transfer E from to (Some v) t = (e, t')"
  shows "totalSupply E (tr_state t') = totalSupply E (tr_state t) \<and>
    (e = None \<longleftrightarrow> v \<le> Txn_GetBalance E (tr_state t) from) \<and>
    (e = None \<and> from \<noteq> to \<longrightarrow>
       Txn_GetBalance E (tr_state t') from = Txn_GetBalance E (tr_state t) from - v \<and>
       Txn_GetBalance E (tr_state t') to = Txn_GetBalance E (tr_state t) to + v) \<and>
    (e \<noteq> None \<longrightarrow> e = Some ErrInsufficientBalance \<and> t' = t)"
proof (cases "fst (SubBalance E from v (tr_state t))")
  case None
  then obtain T where T: "SubBalance E from v (tr_state t) = (None, T)" by (metis prod.collapse)
  with assms(3) have e: "e = None" "t' = t\<lparr>tr_state := AddBalance E to v T\<rparr>" by (auto simp: transfer_def)
  show ?thesis
    using e supply_AddBalance [OF assms(1,2), of to T] supply_SubBalance [OF assms(1) T] SubBalance_ok [OF assms(1) T] assms(2)
    by (auto simp: Txn_GetBalance_eq objectOrNew_ops [OF assms(1)])
next
  case (Some er)
  then have "SubBalance E from v (tr_state t) = (Some ErrNotEnoughFunds, tr_state t) \<and> Txn_GetBalance E (tr_state t) from < v"
    by (auto simp: SubBalance_def split: if_splits)
  with assms(3) show ?thesis by (auto simp: transfer_def)
qed

theorem transfer_conserves_witness:
  "\<exists>t'. transfer demoEnv 10 11 (Some 400) demoTransition = (None, t') \<and>
    totalSupply demoEnv (tr_state t') = totalSupply demoEnv (tr_state demoTransition)"
proof -
  have "Txn_GetBalance demoEnv (tr_state demoTransition) 10 = 1000"
    by (simp add: demoTransition_def Txn_GetBalance_eq objectOrNew_ops [OF demoEnv_laws(2)])
  then obtain t' where t': "transfer demoEnv 10 11 (Some 400) demoTransition = (None, t')"
    using transfer_succeeds [of 400 demoEnv demoTransition 10 11] by auto
  from transfer_conserves [OF demoEnv_laws(2) _ t'] t' show ?thesis by auto
qed

end
