(* ===== verification/Tx_Types.thy ===== *)
theory Tx_Types
  imports Rlp
begin

text \<open>
  Transactions (\<open>types/transaction.go\<close> and the transaction part of \<open>types/rlp_marshal_storage.go\<close>,
  \<open>types/rlp_unmarshal_storage.go\<close>): the record, its copy, cost and hash, and its two encodings, for the
  network and for the database.  A nil \<open>*big.Int\<close> or \<open>*Address\<close> is \<open>None\<close>; the two atomic caches are
  fields; a receive time is a number.
\<close>

record Transaction =
  tx_Nonce :: u64
  tx_GasPrice :: "int option"
  tx_Gas :: u64
  tx_To :: "address option"
  tx_Value :: "int option"
  tx_Input :: "byte list"
  tx_V :: "int option"
  tx_R :: "int option"
  tx_S :: "int option"
  tx_From :: address
  tx_size :: "u64 option"
  tx_hash :: "hash option"
  tx_ReceivedTime :: int

definition emptyTransaction :: Transaction where
  "emptyTransaction = \<lparr>tx_Nonce = 0, tx_GasPrice = None, tx_Gas = 0, tx_To = None, tx_Value = None, tx_Input = [],
     tx_V = None, tx_R = None, tx_S = None, tx_From = 0, tx_size = None, tx_hash = None, tx_ReceivedTime = 0\<rparr>"

definition IsContractCreation :: "Transaction \<Rightarrow> bool" where
  "IsContractCreation t \<longleftrightarrow> tx_To t = None"

text \<open>\<open>SetBits\<close> of the bits of a value is its magnitude.\<close>

definition Transaction_Copy :: "Transaction \<Rightarrow> Transaction" where
  "Transaction_Copy t =
     emptyTransaction\<lparr>tx_Nonce := tx_Nonce t, tx_Gas := tx_Gas t, tx_From := tx_From t,
       tx_GasPrice := Some (case tx_GasPrice t of None \<Rightarrow> 0 | Some p \<Rightarrow> p),
       tx_To := tx_To t,
       tx_Value := Some (case tx_Value t of None \<Rightarrow> 0 | Some v \<Rightarrow> v),
       tx_Input := tx_Input t,
       tx_V := map_option abs (tx_V t), tx_R := map_option abs (tx_R t), tx_S := map_option abs (tx_S t),
       tx_ReceivedTime := tx_ReceivedTime t\<rparr>"

definition Cost :: "Transaction \<Rightarrow> int option" where
  "Cost t =
     (case (tx_GasPrice t, tx_Value t) of
        (Some p, Some v) \<Rightarrow> Some (p * uint (tx_Gas t) + v)
      | _ \<Rightarrow> None)"

definition ExceedsBlockGasLimit :: "u64 \<Rightarrow> Transaction \<Rightarrow> bool" where
  "ExceedsBlockGasLimit blockGasLimit t \<longleftrightarrow> tx_Gas t > blockGasLimit"

definition IsUnderpriced :: "u64 \<Rightarrow> Transaction \<Rightarrow> bool option" where
  "IsUnderpriced priceLimit t = map_option (\<lambda>p. p < uint priceLimit) (tx_GasPrice t)"

section \<open>Encodings\<close>

definition Transaction_MarshalRLPWith :: "'v Fastrlp \<Rightarrow> Transaction \<Rightarrow> 'v" where
  "Transaction_MarshalRLPWith F t =
     rlp_NewArray F
       [rlp_NewUint F (tx_Nonce t), rlp_NewBigInt F (tx_GasPrice t), rlp_NewUint F (tx_Gas t),
        (case tx_To t of Some a \<Rightarrow> rlp_NewBytes F (address_bytes a) | None \<Rightarrow> rlp_NewNull F),
        rlp_NewBigInt F (tx_Value t), rlp_NewBytes F (tx_Input t),
        rlp_NewBigInt F (tx_V t), rlp_NewBigInt F (tx_R t), rlp_NewBigInt F (tx_S t)]"

definition Transaction_MarshalRLP :: "'v Fastrlp \<Rightarrow> Transaction \<Rightarrow> byte list" where
  "Transaction_MarshalRLP F t = MarshalRLPTo F (Transaction_MarshalRLPWith F t) []"

definition rlpHash :: "'v Fastrlp \<Rightarrow> Crypto \<Rightarrow> Transaction \<Rightarrow> hash" where
  "rlpHash F K t = Keccak256 K (Transaction_MarshalRLP F t)"

text \<open>\<open>Hash\<close> and \<open>Size\<close> return the transaction with the cache filled.\<close>

definition Transaction_Hash :: "'v Fastrlp \<Rightarrow> Crypto \<Rightarrow> Transaction \<Rightarrow> hash \<times> Transaction" where
  "Transaction_Hash F K t =
     (case tx_hash t of
        Some h \<Rightarrow> (h, t)
      | None \<Rightarrow> let h = rlpHash F K t in (h, t\<lparr>tx_hash := Some h\<rparr>))"

definition Transaction_Size :: "'v Fastrlp \<Rightarrow> Transaction \<Rightarrow> u64 \<times> Transaction" where
  "Transaction_Size F t =
     (case tx_size t of
        Some s \<Rightarrow> (s, t)
      | None \<Rightarrow> let s = word_of_nat (length (Transaction_MarshalRLP F t)) in (s, t\<lparr>tx_size := Some s\<rparr>))"

definition Transaction_UnmarshalRLPFrom :: "'v Fastrlp \<Rightarrow> Crypto \<Rightarrow> Transaction \<Rightarrow> 'v \<Rightarrow> Transaction option" where
  "Transaction_UnmarshalRLPFrom F K t v =
     (rlp_GetElems F v \<bind> (\<lambda>elems.
      if length elems < 9 then None else
      rlp_GetUint64 F (elems ! 0) \<bind> (\<lambda>nonce.
      rlp_GetBigInt F (elems ! 1) \<bind> (\<lambda>gasPrice.
      rlp_GetUint64 F (elems ! 2) \<bind> (\<lambda>gs.
      let to = (case rlp_GetBytes F (elems ! 3) of
                  Some vv \<Rightarrow> if length vv = 20 then Some (BytesToAddress vv) else None
                | None \<Rightarrow> None) in
      rlp_GetBigInt F (elems ! 4) \<bind> (\<lambda>val.
      rlp_GetBytes F (elems ! 5) \<bind> (\<lambda>input.
      rlp_GetBigInt F (elems ! 6) \<bind> (\<lambda>vV.
      rlp_GetBigInt F (elems ! 7) \<bind> (\<lambda>vR.
      rlp_GetBigInt F (elems ! 8) \<bind> (\<lambda>vS.
      Some (snd (Transaction_Hash F K
        (t\<lparr>tx_Nonce := nonce, tx_GasPrice := Some gasPrice, tx_Gas := gs, tx_To := to,
           tx_Value := Some val, tx_Input := input, tx_V := Some vV, tx_R := Some vR, tx_S := Some vS\<rparr>)))))))))))))"

definition Transaction_UnmarshalRLP :: "'v Fastrlp \<Rightarrow> Crypto \<Rightarrow> Transaction \<Rightarrow> byte list \<Rightarrow> Transaction option" where
  "Transaction_UnmarshalRLP F K t = UnmarshalRlp F (Transaction_UnmarshalRLPFrom F K t)"

definition Transaction_MarshalStoreRLPWith :: "'v Fastrlp \<Rightarrow> Transaction \<Rightarrow> 'v" where
  "Transaction_MarshalStoreRLPWith F t =
     rlp_NewArray F [Transaction_MarshalRLPWith F t, rlp_NewBytes F (address_bytes (tx_From t))]"

definition Transaction_MarshalStoreRLPTo :: "'v Fastrlp \<Rightarrow> Transaction \<Rightarrow> byte list \<Rightarrow> byte list" where
  "Transaction_MarshalStoreRLPTo F t dst = MarshalRLPTo F (Transaction_MarshalStoreRLPWith F t) dst"

definition Transaction_UnmarshalStoreRLPFrom ::
  "'v Fastrlp \<Rightarrow> Crypto \<Rightarrow> int \<Rightarrow> Transaction \<Rightarrow> 'v \<Rightarrow> Transaction option" where
  "Transaction_UnmarshalStoreRLPFrom F K now t v =
     (rlp_GetElems F v \<bind> (\<lambda>elems.
      if length elems < 2 then None else
      Transaction_UnmarshalRLPFrom F K t (elems ! 0) \<bind> (\<lambda>t.
      rlp_GetAddr F (elems ! 1) \<bind> (\<lambda>from.
      Some (t\<lparr>tx_From := from, tx_ReceivedTime := now\<rparr>)))))"

definition Transaction_UnmarshalStoreRLP ::
  "'v Fastrlp \<Rightarrow> Crypto \<Rightarrow> int \<Rightarrow> Transaction \<Rightarrow> byte list \<Rightarrow> Transaction option" where
  "Transaction_UnmarshalStoreRLP F K now t = UnmarshalRlp F (Transaction_UnmarshalStoreRLPFrom F K now t)"

section \<open>Round trips\<close>

text \<open>What decoding makes of the big integers of a transaction.\<close>

definition decodedInt :: "int option \<Rightarrow> int option" where
  "decodedInt x = Some (case x of None \<Rightarrow> 0 | Some i \<Rightarrow> \<bar>i\<bar>)"

lemma GetBigInt_NewBigInt: "rlp_laws F \<Longrightarrow> rlp_GetBigInt F (rlp_NewBigInt F x) = decodedInt x"
  by (auto simp: rlp_laws_def decodedInt_def split: option.split)

definition sameConsensus :: "Transaction \<Rightarrow> Transaction \<Rightarrow> Transaction" where
  "sameConsensus t0 t = t0\<lparr>tx_Nonce := tx_Nonce t, tx_GasPrice := decodedInt (tx_GasPrice t), tx_Gas := tx_Gas t,
     tx_To := tx_To t, tx_Value := decodedInt (tx_Value t), tx_Input := tx_Input t,
     tx_V := decodedInt (tx_V t), tx_R := decodedInt (tx_R t), tx_S := decodedInt (tx_S t)\<rparr>"

lemma Transaction_UnmarshalRLPFrom_Marshal:
  assumes "rlp_laws F"
  shows "Transaction_UnmarshalRLPFrom F K t0 (Transaction_MarshalRLPWith F t) =
    Some (snd (Transaction_Hash F K (sameConsensus t0 t)))"
proof -
  have to: "(case rlp_GetBytes F (case tx_To t of Some a \<Rightarrow> rlp_NewBytes F (address_bytes a) | None \<Rightarrow> rlp_NewNull F) of
      Some vv \<Rightarrow> if length vv = 20 then Some (BytesToAddress vv) else None | None \<Rightarrow> None) = tx_To t"
    by (cases "tx_To t") (simp_all add: rlp_lawsD [OF assms])
  show ?thesis
    by (simp add: Transaction_UnmarshalRLPFrom_def Transaction_MarshalRLPWith_def rlp_lawsD [OF assms]
        GetBigInt_NewBigInt [OF assms] to Let_def decodedInt_def sameConsensus_def)
qed

lemma sameConsensus_fields [simp]:
  "tx_From (sameConsensus t0 t) = tx_From t0" "tx_hash (sameConsensus t0 t) = tx_hash t0"
  "tx_size (sameConsensus t0 t) = tx_size t0" "tx_ReceivedTime (sameConsensus t0 t) = tx_ReceivedTime t0"
  by (simp_all add: sameConsensus_def)

lemma Transaction_Hash_fresh:
  "tx_hash t = None \<Longrightarrow> snd (Transaction_Hash F K t) = t\<lparr>tx_hash := Some (rlpHash F K t)\<rparr>"
  by (simp add: Transaction_Hash_def Let_def)

lemma rlpHash_sameConsensus:
  assumes "rlp_laws F"
  shows "rlpHash F K (sameConsensus t0 t) = rlpHash F K t"
proof -
  have "rlp_NewBigInt F (decodedInt x) = rlp_NewBigInt F x" for x
    using assms by (cases x) (simp_all add: rlp_laws_def decodedInt_def Bytes_def min_bytes.simps [of 0])
  then show ?thesis
    by (simp add: rlpHash_def Transaction_MarshalRLP_def Transaction_MarshalRLPWith_def sameConsensus_def)
qed

text \<open>Decoding an encoded transaction into a fresh one.\<close>

lemma Transaction_roundtrip:
  assumes "rlp_laws F"
  shows "Transaction_UnmarshalRLPFrom F K emptyTransaction (Transaction_MarshalRLPWith F t) =
      Some ((sameConsensus emptyTransaction t)\<lparr>tx_hash := Some (rlpHash F K t)\<rparr>)"
    and "Transaction_UnmarshalStoreRLPFrom F K now emptyTransaction (Transaction_MarshalStoreRLPWith F t) =
      Some ((sameConsensus emptyTransaction t)\<lparr>tx_hash := Some (rlpHash F K t), tx_From := tx_From t,
              tx_ReceivedTime := now\<rparr>)"
proof -
  have fresh: "tx_hash (sameConsensus emptyTransaction t) = None" by (simp add: emptyTransaction_def)
  show 1: "Transaction_UnmarshalRLPFrom F K emptyTransaction (Transaction_MarshalRLPWith F t) =
      Some ((sameConsensus emptyTransaction t)\<lparr>tx_hash := Some (rlpHash F K t)\<rparr>)"
    by (simp add: Transaction_UnmarshalRLPFrom_Marshal [OF assms] Transaction_Hash_fresh [OF fresh]
        rlpHash_sameConsensus [OF assms])
  show "Transaction_UnmarshalStoreRLPFrom F K now emptyTransaction (Transaction_MarshalStoreRLPWith F t) =
      Some ((sameConsensus emptyTransaction t)\<lparr>tx_hash := Some (rlpHash F K t), tx_From := tx_From t,
              tx_ReceivedTime := now\<rparr>)"
    by (simp add: Transaction_UnmarshalStoreRLPFrom_def Transaction_MarshalStoreRLPWith_def
        rlp_lawsD [OF assms] 1)
qed

text \<open>C24: transactions survive both encodings.  A transaction whose amounts and signature values are set and
  not negative decodes, from the bytes of its network encoding and from those of its storage encoding, to
  itself with its hash cached; the storage encoding keeps the sender, and the receive time is the time of
  decoding.\<close>

theorem transaction_encoding_roundtrip:
  assumes "rlp_laws F"
    and "tx_GasPrice t = Some p" "0 \<le> p" and "tx_Value t = Some v" "0 \<le> v"
    and "tx_V t = Some sv" "0 \<le> sv" and "tx_R t = Some sr" "0 \<le> sr" and "tx_S t = Some ss" "0 \<le> ss"
  shows "Transaction_UnmarshalRLP F K emptyTransaction (Transaction_MarshalRLP F t) =
      Some (t\<lparr>tx_hash := Some (rlpHash F K t), tx_size := None, tx_From := 0, tx_ReceivedTime := 0\<rparr>) \<and>
    Transaction_UnmarshalStoreRLP F K now emptyTransaction (Transaction_MarshalStoreRLPTo F t []) =
      Some (t\<lparr>tx_hash := Some (rlpHash F K t), tx_size := None, tx_ReceivedTime := now\<rparr>)"
proof -
  have "sameConsensus emptyTransaction t = t\<lparr>tx_hash := None, tx_size := None, tx_From := 0, tx_ReceivedTime := 0\<rparr>"
    using assms(2-) by (simp add: sameConsensus_def decodedInt_def emptyTransaction_def)
  then show ?thesis
    by (simp add: Transaction_UnmarshalRLP_def Transaction_MarshalRLP_def Transaction_UnmarshalStoreRLP_def
        Transaction_MarshalStoreRLPTo_def UnmarshalRlp_MarshalRLPTo [OF assms(1)] Transaction_roundtrip [OF assms(1)])
qed

definition demoTx :: Transaction where
  "demoTx = emptyTransaction\<lparr>tx_Nonce := 0, tx_GasPrice := Some 2, tx_Gas := 100000, tx_To := Some 11, tx_Value := Some 7,
     tx_Input := [1, 0], tx_V := Some 28, tx_R := Some 5, tx_S := Some 6, tx_From := 10\<rparr>"

theorem transaction_encoding_roundtrip_witness:
  "Transaction_UnmarshalStoreRLP demoRlp demoCrypto 99 emptyTransaction
     (Transaction_MarshalStoreRLPTo demoRlp demoTx []) =
   Some (demoTx\<lparr>tx_hash := Some (rlpHash demoRlp demoCrypto demoTx),
     tx_size := None, tx_ReceivedTime := 99\<rparr>)"
  using transaction_encoding_roundtrip [OF demoRlp_laws, of demoTx 2 7 28 5 6] by (simp add: demoTx_def)

end
