(* ===== verification/Headers.thy ===== *)
theory Headers
  imports Tx_Types Receipts
begin

text \<open>
  Headers, blocks and bodies with their encodings (\<open>types/header.go\<close>, \<open>types/block.go\<close>, the body part of
  \<open>types/rlp_marshal_storage.go\<close> and \<open>types/rlp_unmarshal_storage.go\<close>), the extra field of the consensus and
  the hash of a header (\<open>types/istanbulExtra.go\<close>, \<open>types/header_hash.go\<close>).  A \<open>Nonce\<close> (\<open>[8]byte\<close>) is a list of
  eight bytes.
\<close>

section \<open>Data\<close>

record Header =
  hd_ParentHash :: hash
  hd_Sha3Uncles :: hash
  hd_Miner :: address
  hd_StateRoot :: hash
  hd_TxRoot :: hash
  hd_ReceiptsRoot :: hash
  hd_LogsBloom :: Bloom
  hd_Difficulty :: u64
  hd_Number :: u64
  hd_GasLimit :: u64
  hd_GasUsed :: u64
  hd_Timestamp :: u64
  hd_ExtraData :: "byte list"
  hd_MixHash :: hash
  hd_Nonce :: "byte list"
  hd_Hash :: hash

record Body =
  body_Transactions :: "Transaction list"
  body_Uncles :: "Header list"

record Block =
  bl_Header :: Header
  bl_Transactions :: "Transaction list"
  bl_Uncles :: "Header list"

record IstanbulExtra =
  ie_Validators :: "address list"
  ie_Seal :: "byte list"
  ie_CommittedSeal :: "byte list list"

definition EmptyRootHash :: hash where
  "EmptyRootHash = 0x56e81f171bcc55a6ff8345e692c0f86e5b48e01b996cadc001622fb5e363b421"

definition EmptyUncleHash :: hash where
  "EmptyUncleHash = 0x1dcc4de8dec75d7aab85b567b6ccd41ad312451b948a7413f0a142fd40d49347"

definition emptyHeader :: Header where
  "emptyHeader = \<lparr>hd_ParentHash = 0, hd_Sha3Uncles = 0, hd_Miner = 0, hd_StateRoot = 0, hd_TxRoot = 0, hd_ReceiptsRoot = 0,
     hd_LogsBloom = replicate BloomByteLength 0, hd_Difficulty = 0, hd_Number = 0, hd_GasLimit = 0, hd_GasUsed = 0,
     hd_Timestamp = 0, hd_ExtraData = [], hd_MixHash = 0, hd_Nonce = replicate 8 0, hd_Hash = 0\<rparr>"

definition Header_Equal :: "Header \<Rightarrow> Header \<Rightarrow> bool" where
  "Header_Equal h hh \<longleftrightarrow> hd_Hash h = hd_Hash hh"

definition HasBody :: "Header \<Rightarrow> bool" where
  "HasBody h \<longleftrightarrow> hd_TxRoot h \<noteq> EmptyRootHash \<or> hd_Sha3Uncles h \<noteq> EmptyUncleHash"

definition HasReceipts :: "Header \<Rightarrow> bool" where
  "HasReceipts h \<longleftrightarrow> hd_ReceiptsRoot h \<noteq> EmptyRootHash"

definition Header_SetNonce :: "u64 \<Rightarrow> Header \<Rightarrow> Header" where
  "Header_SetNonce i h = h\<lparr>hd_Nonce := be_bytes 8 (unat i)\<rparr>"

section \<open>The extra field\<close>

text \<open>An empty committed seal is written to the outer array, before the array of committed seals.\<close>

definition IstanbulExtra_MarshalRLPWith :: "'v Fastrlp \<Rightarrow> IstanbulExtra \<Rightarrow> 'v" where
  "IstanbulExtra_MarshalRLPWith F i =
     rlp_NewArray F
       ([rlp_NewArray F (map (\<lambda>a. rlp_NewBytes F (address_bytes a)) (ie_Validators i)),
         (if ie_Seal i = [] then rlp_NewNull F else rlp_NewBytes F (ie_Seal i))] @
        (if ie_CommittedSeal i = [] then [rlp_NewNullArray F]
         else map (\<lambda>_. rlp_NewNull F) (filter (\<lambda>a. a = []) (ie_CommittedSeal i)) @
              [rlp_NewArray F (map (rlp_NewBytes F) (filter (\<lambda>a. a \<noteq> []) (ie_CommittedSeal i)))]))"

definition IstanbulExtra_UnmarshalRLPFrom :: "'v Fastrlp \<Rightarrow> 'v \<Rightarrow> IstanbulExtra option" where
  "IstanbulExtra_UnmarshalRLPFrom F v =
     (rlp_GetElems F v \<bind> (\<lambda>elems.
      if length elems < 3 then None else
      rlp_GetElems F (elems ! 0) \<bind> (\<lambda>vals.
      those (map (rlp_GetAddr F) vals) \<bind> (\<lambda>validators.
      rlp_GetBytes F (elems ! 1) \<bind> (\<lambda>seal.
      rlp_GetElems F (elems ! 2) \<bind> (\<lambda>vals.
      those (map (rlp_GetBytes F) vals) \<bind> (\<lambda>committed.
      Some \<lparr>ie_Validators = validators, ie_Seal = seal, ie_CommittedSeal = committed\<rparr>)))))))"

definition IstanbulExtraVanity :: nat where
  "IstanbulExtraVanity = 32"

definition GetIbftExtra :: "'v Fastrlp \<Rightarrow> Header \<Rightarrow> IstanbulExtra option" where
  "GetIbftExtra F h =
     (if length (hd_ExtraData h) < IstanbulExtraVanity then None
      else UnmarshalRlp F (IstanbulExtra_UnmarshalRLPFrom F) (drop IstanbulExtraVanity (hd_ExtraData h)))"

definition PutIbftExtraValidators :: "'v Fastrlp \<Rightarrow> address list \<Rightarrow> Header \<Rightarrow> Header" where
  "PutIbftExtraValidators F validators h =
     (let extra = hd_ExtraData h;
          extra = (if length extra < IstanbulExtraVanity
                   then extra @ take (IstanbulExtraVanity - length extra) (replicate 32 0)
                   else take IstanbulExtraVanity extra);
          ibftExtra = \<lparr>ie_Validators = validators, ie_Seal = [], ie_CommittedSeal = []\<rparr>
      in h\<lparr>hd_ExtraData := MarshalRLPTo F (IstanbulExtra_MarshalRLPWith F ibftExtra) extra\<rparr>)"

definition CalculateHeaderHash :: "'v Fastrlp \<Rightarrow> Crypto \<Rightarrow> Header \<Rightarrow> hash option" where
  "CalculateHeaderHash F K h =
     (case GetIbftExtra F h of
        None \<Rightarrow> None
      | Some extra \<Rightarrow>
          let h = PutIbftExtraValidators F (ie_Validators extra) h in
          Some (Keccak256 K (rlp_Marshal F (rlp_NewArray F
            [rlp_NewBytes F (hash_bytes (hd_ParentHash h)), rlp_NewBytes F (hash_bytes (hd_Sha3Uncles h)),
             rlp_NewBytes F (address_bytes (hd_Miner h)), rlp_NewBytes F (hash_bytes (hd_StateRoot h)),
             rlp_NewBytes F (hash_bytes (hd_TxRoot h)), rlp_NewBytes F (hash_bytes (hd_ReceiptsRoot h)),
             rlp_NewBytes F (hd_LogsBloom h), rlp_NewUint F (hd_Difficulty h), rlp_NewUint F (hd_Number h),
             rlp_NewUint F (hd_GasLimit h), rlp_NewUint F (hd_GasUsed h), rlp_NewUint F (hd_Timestamp h),
             rlp_NewBytes F (hd_ExtraData h)]))))"

text \<open>The error of \<open>CalculateHeaderHash\<close> is dropped, and the hash of nil bytes is zero.\<close>

definition defHeaderHash :: "'v Fastrlp \<Rightarrow> Crypto \<Rightarrow> Header \<Rightarrow> hash" where
  "defHeaderHash F K h = (case CalculateHeaderHash F K h of None \<Rightarrow> BytesToHash [] | Some msg \<Rightarrow> msg)"

definition ComputeHash :: "'v Fastrlp \<Rightarrow> Crypto \<Rightarrow> Header \<Rightarrow> Header" where
  "ComputeHash F K h = h\<lparr>hd_Hash := defHeaderHash F K h\<rparr>"

section \<open>Encodings\<close>

definition Header_MarshalRLPWith :: "'v Fastrlp \<Rightarrow> Header \<Rightarrow> 'v" where
  "Header_MarshalRLPWith F h =
     rlp_NewArray F
       [rlp_NewBytes F (hash_bytes (hd_ParentHash h)), rlp_NewBytes F (hash_bytes (hd_Sha3Uncles h)),
        rlp_NewBytes F (address_bytes (hd_Miner h)), rlp_NewBytes F (hash_bytes (hd_StateRoot h)),
        rlp_NewBytes F (hash_bytes (hd_TxRoot h)), rlp_NewBytes F (hash_bytes (hd_ReceiptsRoot h)),
        rlp_NewBytes F (hd_LogsBloom h), rlp_NewUint F (hd_Difficulty h), rlp_NewUint F (hd_Number h),
        rlp_NewUint F (hd_GasLimit h), rlp_NewUint F (hd_GasUsed h), rlp_NewUint F (hd_Timestamp h),
        rlp_NewBytes F (hd_ExtraData h), rlp_NewBytes F (hash_bytes (hd_MixHash h)), rlp_NewBytes F (hd_Nonce h)]"

definition Header_UnmarshalRLPFrom :: "'v Fastrlp \<Rightarrow> Crypto \<Rightarrow> Header \<Rightarrow> 'v \<Rightarrow> Header option" where
  "Header_UnmarshalRLPFrom F K h v =
     (rlp_GetElems F v \<bind> (\<lambda>elems.
      if length elems < 15 then None else
      rlp_GetHash F (elems ! 0) \<bind> (\<lambda>parentHash.
      rlp_GetHash F (elems ! 1) \<bind> (\<lambda>sha3uncles.
      rlp_GetAddr F (elems ! 2) \<bind> (\<lambda>miner.
      rlp_GetHash F (elems ! 3) \<bind> (\<lambda>stateroot.
      rlp_GetHash F (elems ! 4) \<bind> (\<lambda>txroot.
      rlp_GetHash F (elems ! 5) \<bind> (\<lambda>receiptroot.
      rlp_GetBytes F (elems ! 6) \<bind> (\<lambda>logsBloom.
      if length logsBloom \<noteq> BloomByteLength then None else
      rlp_GetUint64 F (elems ! 7) \<bind> (\<lambda>difficulty.
      rlp_GetUint64 F (elems ! 8) \<bind> (\<lambda>number.
      rlp_GetUint64 F (elems ! 9) \<bind> (\<lambda>gasLimit.
      rlp_GetUint64 F (elems ! 10) \<bind> (\<lambda>gasused.
      rlp_GetUint64 F (elems ! 11) \<bind> (\<lambda>timestamp.
      rlp_GetBytes F (elems ! 12) \<bind> (\<lambda>extraData.
      rlp_GetHash F (elems ! 13) \<bind> (\<lambda>mixHash.
      rlp_GetUint64 F (elems ! 14) \<bind> (\<lambda>nonce.
      Some (ComputeHash F K (Header_SetNonce nonce
        (h\<lparr>hd_ParentHash := parentHash, hd_Sha3Uncles := sha3uncles, hd_Miner := miner, hd_StateRoot := stateroot,
           hd_TxRoot := txroot, hd_ReceiptsRoot := receiptroot, hd_LogsBloom := logsBloom, hd_Difficulty := difficulty,
           hd_Number := number, hd_GasLimit := gasLimit, hd_GasUsed := gasused, hd_Timestamp := timestamp,
           hd_ExtraData := extraData, hd_MixHash := mixHash\<rparr>))))))))))))))))))))"

definition arrayOrNull :: "'v Fastrlp \<Rightarrow> 'v list \<Rightarrow> 'v" where
  "arrayOrNull F vs = (if vs = [] then rlp_NewNullArray F else rlp_NewArray F vs)"

definition Body_MarshalRLPWith :: "'v Fastrlp \<Rightarrow> Body \<Rightarrow> 'v" where
  "Body_MarshalRLPWith F b =
     rlp_NewArray F
       [arrayOrNull F (map (Transaction_MarshalStoreRLPWith F) (body_Transactions b)),
        arrayOrNull F (map (Header_MarshalRLPWith F) (body_Uncles b))]"

definition Body_UnmarshalRLPFrom :: "'v Fastrlp \<Rightarrow> Crypto \<Rightarrow> int \<Rightarrow> 'v \<Rightarrow> Body option" where
  "Body_UnmarshalRLPFrom F K now v =
     (rlp_GetElems F v \<bind> (\<lambda>tuple.
      if length tuple < 2 then None else
      rlp_GetElems F (tuple ! 0) \<bind> (\<lambda>txns.
      those (map (Transaction_UnmarshalStoreRLPFrom F K now emptyTransaction) txns) \<bind> (\<lambda>txs.
      rlp_GetElems F (tuple ! 1) \<bind> (\<lambda>uncles.
      those (map (Header_UnmarshalRLPFrom F K emptyHeader) uncles) \<bind> (\<lambda>us.
      Some \<lparr>body_Transactions = txs, body_Uncles = us\<rparr>))))))"

definition Block_Body :: "Block \<Rightarrow> Body" where
  "Block_Body b = \<lparr>body_Transactions = bl_Transactions b, body_Uncles = bl_Uncles b\<rparr>"

definition WithSeal :: "Header \<Rightarrow> Block \<Rightarrow> Block" where
  "WithSeal header b = \<lparr>bl_Header = header, bl_Transactions = bl_Transactions b, bl_Uncles = bl_Uncles b\<rparr>"

definition Block_Compare :: "Block \<Rightarrow> Block \<Rightarrow> int" where
  "Block_Compare b other =
     (if hd_Number (bl_Header other) < hd_Number (bl_Header b) then 1
      else if hd_Number (bl_Header other) = hd_Number (bl_Header b) then 0
      else - 1)"

definition Block_MarshalRLPWith :: "'v Fastrlp \<Rightarrow> Block \<Rightarrow> 'v" where
  "Block_MarshalRLPWith F b =
     rlp_NewArray F
       [Header_MarshalRLPWith F (bl_Header b),
        arrayOrNull F (map (Transaction_MarshalRLPWith F) (bl_Transactions b)),
        arrayOrNull F (map (Header_MarshalRLPWith F) (bl_Uncles b))]"

definition Block_UnmarshalRLPFrom :: "'v Fastrlp \<Rightarrow> Crypto \<Rightarrow> 'v \<Rightarrow> Block option" where
  "Block_UnmarshalRLPFrom F K v =
     (rlp_GetElems F v \<bind> (\<lambda>elems.
      if length elems < 3 then None else
      Header_UnmarshalRLPFrom F K emptyHeader (elems ! 0) \<bind> (\<lambda>header.
      rlp_GetElems F (elems ! 1) \<bind> (\<lambda>txns.
      those (map (Transaction_UnmarshalRLPFrom F K emptyTransaction) txns) \<bind> (\<lambda>txs.
      rlp_GetElems F (elems ! 2) \<bind> (\<lambda>uncles.
      those (map (Header_UnmarshalRLPFrom F K emptyHeader) uncles) \<bind> (\<lambda>us.
      Some \<lparr>bl_Header = header, bl_Transactions = txs, bl_Uncles = us\<rparr>)))))))"

section \<open>Lemmas on encodings\<close>

definition header_ok :: "Header \<Rightarrow> bool" where
  "header_ok h \<longleftrightarrow> length (hd_LogsBloom h) = BloomByteLength \<and> length (hd_Nonce h) = 8"

lemma SetNonce_roundtrip:
  "length n = 8 \<Longrightarrow> be_bytes 8 (unat (word_of_nat (be_nat n) :: u64)) = n"
  using be_nat_less [of n] be_bytes_be_nat [of n 8] by (simp add: unat_of_nat)

lemma ComputeHash_hash: "ComputeHash F K (h\<lparr>hd_Hash := x\<rparr>) = ComputeHash F K h"
  by (simp add: ComputeHash_def defHeaderHash_def CalculateHeaderHash_def GetIbftExtra_def PutIbftExtraValidators_def Let_def
      split: option.split)

lemma Header_roundtrip:
  assumes F: "rlp_laws F" and h: "header_ok h"
  shows "Header_UnmarshalRLPFrom F K emptyHeader (Header_MarshalRLPWith F h) = Some (ComputeHash F K h)"
proof -
  have nonce: "be_bytes 8 (unat (word_of_nat (be_nat (hd_Nonce h)) :: u64)) = hd_Nonce h"
    using h by (simp add: header_ok_def SetNonce_roundtrip)
  have "Header_UnmarshalRLPFrom F K emptyHeader (Header_MarshalRLPWith F h) = Some (ComputeHash F K (h\<lparr>hd_Hash := 0\<rparr>))"
    using h by (simp add: Header_UnmarshalRLPFrom_def Header_MarshalRLPWith_def rlp_lawsD [OF F] header_ok_def
        Header_SetNonce_def nonce emptyHeader_def) (cases h; simp)
  then show ?thesis by (simp add: ComputeHash_hash)
qed

lemma GetElems_arrayOrNull: "rlp_laws F \<Longrightarrow> rlp_GetElems F (arrayOrNull F vs) = Some vs"
  by (simp add: arrayOrNull_def rlp_lawsD)

lemma Headers_roundtrip:
  assumes "rlp_laws F" and "\<forall>h\<in>set hs. header_ok h"
  shows "those (map (Header_UnmarshalRLPFrom F K emptyHeader) (map (Header_MarshalRLPWith F) hs)) =
    Some (map (ComputeHash F K) hs)"
  using those_map_roundtrip [of hs "Header_UnmarshalRLPFrom F K emptyHeader" "Header_MarshalRLPWith F" "ComputeHash F K"]
    Header_roundtrip [OF assms(1)] assms(2) by blast

section \<open>Lemmas on the extra field\<close>

lemma validators_roundtrip:
  "rlp_laws F \<Longrightarrow> those (map (rlp_GetAddr F) (map (\<lambda>a. rlp_NewBytes F (address_bytes a)) vs)) = Some vs"
  using those_map_roundtrip [of vs "rlp_GetAddr F" "\<lambda>a. rlp_NewBytes F (address_bytes a)" id] by (simp add: rlp_lawsD)

lemma seals_roundtrip: "rlp_laws F \<Longrightarrow> those (map (rlp_GetBytes F) (map (rlp_NewBytes F) vs)) = Some vs"
  using those_map_roundtrip [of vs "rlp_GetBytes F" "rlp_NewBytes F" id] by (simp add: rlp_lawsD)

lemma IstanbulExtra_roundtrip:
  assumes F: "rlp_laws F" and c: "[] \<notin> set (ie_CommittedSeal i)"
  shows "IstanbulExtra_UnmarshalRLPFrom F (IstanbulExtra_MarshalRLPWith F i) = Some i"
proof -
  have f: "filter (\<lambda>a. a = []) (ie_CommittedSeal i) = []" "filter (\<lambda>a. a \<noteq> []) (ie_CommittedSeal i) = ie_CommittedSeal i"
    using c by (auto simp: filter_empty_conv filter_id_conv)
  show ?thesis
    by (simp add: IstanbulExtra_UnmarshalRLPFrom_def IstanbulExtra_MarshalRLPWith_def rlp_lawsD [OF F] f
        validators_roundtrip [OF F] seals_roundtrip [OF F] del: map_map)
qed

lemma CalculateHeaderHash_extra:
  assumes F: "rlp_laws F" and van: "length van = IstanbulExtraVanity" and c: "[] \<notin> set (ie_CommittedSeal i)"
    and h: "hd_ExtraData h = MarshalRLPTo F (IstanbulExtra_MarshalRLPWith F i) van"
  shows "CalculateHeaderHash F K h =
    CalculateHeaderHash F K (h\<lparr>hd_ExtraData := MarshalRLPTo F (IstanbulExtra_MarshalRLPWith F (i\<lparr>ie_Seal := [], ie_CommittedSeal := []\<rparr>)) van\<rparr>)"
proof -
  have ext: "GetIbftExtra F (h\<lparr>hd_ExtraData := MarshalRLPTo F (IstanbulExtra_MarshalRLPWith F j) van\<rparr>) = Some j"
    if "[] \<notin> set (ie_CommittedSeal j)" for j
    using van IstanbulExtra_roundtrip [OF F that]
    by (simp add: GetIbftExtra_def MarshalRLPTo_def UnmarshalRlp_def rlp_lawsD [OF F])
  have h': "h = h\<lparr>hd_ExtraData := MarshalRLPTo F (IstanbulExtra_MarshalRLPWith F i) van\<rparr>" using h by simp
  have "GetIbftExtra F h = Some i" using ext [OF c] h' by metis
  moreover have "PutIbftExtraValidators F vs (h\<lparr>hd_ExtraData := MarshalRLPTo F (IstanbulExtra_MarshalRLPWith F j) van\<rparr>) =
      h\<lparr>hd_ExtraData := MarshalRLPTo F (IstanbulExtra_MarshalRLPWith F \<lparr>ie_Validators = vs, ie_Seal = [], ie_CommittedSeal = []\<rparr>) van\<rparr>" for vs j
    using van by (simp add: PutIbftExtraValidators_def Let_def MarshalRLPTo_def)
  moreover note this [of "ie_Validators i" i, folded h']
  ultimately show ?thesis
    using ext [of "i\<lparr>ie_Seal := [], ie_CommittedSeal := []\<rparr>"]
    by (simp add: CalculateHeaderHash_def Let_def)
qed

section \<open>Properties\<close>

text \<open>C26: blocks and bodies survive their encodings.  A block whose headers are well formed (256 bytes of bloom,
  8 bytes of nonce) decodes to the same block with the hashes of its headers recomputed and its transactions
  decoded into fresh ones; a body keeps the senders of its transactions.\<close>

theorem block_encoding_roundtrip:
  assumes F: "rlp_laws F" and "header_ok (bl_Header b)" and u: "\<forall>h\<in>set (bl_Uncles b). header_ok h"
  shows "UnmarshalRlp F (Block_UnmarshalRLPFrom F K) (MarshalRLPTo F (Block_MarshalRLPWith F b) []) =
      Some \<lparr>bl_Header = ComputeHash F K (bl_Header b),
            bl_Transactions = map (\<lambda>t. (sameConsensus emptyTransaction t)\<lparr>tx_hash := Some (rlpHash F K t)\<rparr>) (bl_Transactions b),
            bl_Uncles = map (ComputeHash F K) (bl_Uncles b)\<rparr> \<and>
    UnmarshalRlp F (Body_UnmarshalRLPFrom F K now) (MarshalRLPTo F (Body_MarshalRLPWith F (Block_Body b)) []) =
      Some \<lparr>body_Transactions = map (\<lambda>t. (sameConsensus emptyTransaction t)\<lparr>tx_hash := Some (rlpHash F K t),
              tx_From := tx_From t, tx_ReceivedTime := now\<rparr>) (bl_Transactions b),
            body_Uncles = map (ComputeHash F K) (bl_Uncles b)\<rparr>"
proof -
  have 1: "those (map (Transaction_UnmarshalRLPFrom F K emptyTransaction) (map (Transaction_MarshalRLPWith F) (bl_Transactions b))) =
      Some (map (\<lambda>t. (sameConsensus emptyTransaction t)\<lparr>tx_hash := Some (rlpHash F K t)\<rparr>) (bl_Transactions b))"
    by (rule those_map_roundtrip) (rule Transaction_roundtrip(1) [OF F])
  have 2: "those (map (Transaction_UnmarshalStoreRLPFrom F K now emptyTransaction) (map (Transaction_MarshalStoreRLPWith F) (bl_Transactions b))) =
      Some (map (\<lambda>t. (sameConsensus emptyTransaction t)\<lparr>tx_hash := Some (rlpHash F K t), tx_From := tx_From t,
        tx_ReceivedTime := now\<rparr>) (bl_Transactions b))"
    by (rule those_map_roundtrip) (rule Transaction_roundtrip(2) [OF F])
  show ?thesis
    by (simp add: UnmarshalRlp_MarshalRLPTo [OF F] Block_UnmarshalRLPFrom_def Block_MarshalRLPWith_def
        Body_UnmarshalRLPFrom_def Body_MarshalRLPWith_def Block_Body_def rlp_lawsD [OF F] GetElems_arrayOrNull [OF F]
        Header_roundtrip [OF F assms(2)] Headers_roundtrip [OF F u] 1 2 del: map_map)
qed

theorem block_encoding_roundtrip_witness:
  "UnmarshalRlp demoRlp (Block_UnmarshalRLPFrom demoRlp demoCrypto)
     (MarshalRLPTo demoRlp (Block_MarshalRLPWith demoRlp
       \<lparr>bl_Header = emptyHeader, bl_Transactions = [], bl_Uncles = []\<rparr>) []) =
   Some \<lparr>bl_Header = ComputeHash demoRlp demoCrypto emptyHeader,
     bl_Transactions = [], bl_Uncles = []\<rparr>"
  using block_encoding_roundtrip [OF demoRlp_laws, of "\<lparr>bl_Header = emptyHeader, bl_Transactions = [], bl_Uncles = []\<rparr>"
      demoCrypto]
  by (simp add: header_ok_def emptyHeader_def)



text \<open>C28: the extra field.  It decodes to what was encoded as long as no committed seal is empty; an empty
  committed seal is written into the wrong array, and the encoding can then not be decoded at all.\<close>

theorem istanbul_extra_roundtrip:
  assumes "rlp_laws F"
  shows "UnmarshalRlp F (IstanbulExtra_UnmarshalRLPFrom F) (MarshalRLPTo F (IstanbulExtra_MarshalRLPWith F i) []) =
    (if [] \<in> set (ie_CommittedSeal i) then None else Some i)"
proof (cases "[] \<in> set (ie_CommittedSeal i)")
  case True
  then have "filter (\<lambda>a. a = []) (ie_CommittedSeal i) \<noteq> []" by (auto simp: filter_empty_conv)
  then obtain x xs where "filter (\<lambda>a. a = []) (ie_CommittedSeal i) = x # xs" by (meson neq_Nil_conv)
  with True show ?thesis
    by (auto simp: UnmarshalRlp_MarshalRLPTo [OF assms] IstanbulExtra_UnmarshalRLPFrom_def IstanbulExtra_MarshalRLPWith_def
        rlp_lawsD [OF assms] validators_roundtrip [OF assms] simp del: map_map)
next
  case False
  then show ?thesis by (simp add: UnmarshalRlp_MarshalRLPTo [OF assms] IstanbulExtra_roundtrip [OF assms])
qed

theorem istanbul_extra_roundtrip_witness:
  "UnmarshalRlp demoRlp (IstanbulExtra_UnmarshalRLPFrom demoRlp) (MarshalRLPTo demoRlp
     (IstanbulExtra_MarshalRLPWith demoRlp \<lparr>ie_Validators = [5], ie_Seal = [1], ie_CommittedSeal = [[2], []]\<rparr>) []) = None"
  using istanbul_extra_roundtrip [OF demoRlp_laws, of "\<lparr>ie_Validators = [5], ie_Seal = [1], ie_CommittedSeal = [[2], []]\<rparr>"]
  by simp

end
