(* ===== verification/Signer.thy ===== *)
theory Signer
  imports Tx_Types
begin

text \<open>
  Signatures and senders of transactions (\<open>crypto/crypto.go\<close>, \<open>crypto/txsigner.go\<close>).  The curve
  operations of \<open>btcec\<close> are a parameter; a public key is its pair of coordinates.  Errors are values;
  \<open>goPanic\<close> is a Go run-time panic.
\<close>

section \<open>Curve\<close>

record 'k Btcec =
  SignCompact :: "'k \<Rightarrow> byte list \<Rightarrow> byte list option"
  RecoverCompact :: "byte list \<Rightarrow> byte list \<Rightarrow> (int \<times> int) option"
  PublicKey :: "'k \<Rightarrow> int \<times> int"

text \<open>The documented behaviour: a compact signature is a header byte, 27 or 28 for an uncompressed key,
  followed by 32 bytes of \<open>r\<close> and 32 bytes of \<open>s\<close>, and recovering from it yields the signer's key.\<close>

definition btcec_laws :: "'k Btcec \<Rightarrow> bool" where
  "btcec_laws C \<longleftrightarrow>
     (\<forall>k h s. SignCompact C k h = Some s \<longrightarrow>
        length s = 65 \<and> (s ! 0 = 27 \<or> s ! 0 = 28) \<and> RecoverCompact C s h = Some (PublicKey C k))"

datatype crypto_error = errInvalidSignature | ErrEmptySignature | errRecover | errSign | goPanic

section \<open>Signature values\<close>

fun trimLeftZeros :: "byte list \<Rightarrow> byte list" where
  "trimLeftZeros [] = []"
| "trimLeftZeros [b] = [b]"
| "trimLeftZeros (b # c # bs) = (if b \<noteq> 0 then b # c # bs else trimLeftZeros (c # bs))"

text \<open>\<open>bytes.Compare\<close>: lexicographic.\<close>

fun bytesCompare :: "byte list \<Rightarrow> byte list \<Rightarrow> int" where
  "bytesCompare [] [] = 0"
| "bytesCompare [] (y # ys) = - 1"
| "bytesCompare (x # xs) [] = 1"
| "bytesCompare (x # xs) (y # ys) = (if x < y then - 1 else if y < x then 1 else bytesCompare xs ys)"

definition secp256k1N :: "byte list" where
  "secp256k1N = be_bytes 32 0xfffffffffffffffffffffffffffffffebaaedce6af48a03bbfd25e8cd0364141"

definition validScalar :: "int \<Rightarrow> bool" where
  "validScalar r =
     (let rr = trimLeftZeros (Bytes r)
      in \<not> (bytesCompare rr secp256k1N \<ge> 0 \<or> bytesCompare rr [1] < 0))"

definition ValidateSignatureValues :: "byte \<Rightarrow> int option \<Rightarrow> int option \<Rightarrow> bool" where
  "ValidateSignatureValues v r s =
     (case (r, s) of
        (Some r, Some s) \<Rightarrow> (if v > 1 then False else validScalar r \<and> validScalar s)
      | _ \<Rightarrow> False)"

section \<open>Recovering and signing\<close>

definition MarshalPublicKey :: "int \<times> int \<Rightarrow> byte list" where
  "MarshalPublicKey pub = 4 # be_bytes 32 (nat (fst pub)) @ be_bytes 32 (nat (snd pub))"

definition RecoverPubkey :: "'k Btcec \<Rightarrow> byte list \<Rightarrow> byte list \<Rightarrow> crypto_error + int \<times> int" where
  "RecoverPubkey C signature h =
     (if signature = [] then Inl ErrEmptySignature
      else
        let term = (if last signature = 1 then 28 else 27) in
        case RecoverCompact C (term # butlast signature) h of
          None \<Rightarrow> Inl errRecover
        | Some pub \<Rightarrow> Inr pub)"

definition Ecrecover :: "'k Btcec \<Rightarrow> byte list \<Rightarrow> byte list \<Rightarrow> crypto_error + byte list" where
  "Ecrecover C h sig =
     (case RecoverPubkey C sig h of Inl e \<Rightarrow> Inl e | Inr pub \<Rightarrow> Inr (MarshalPublicKey pub))"

definition Sign :: "'k Btcec \<Rightarrow> 'k \<Rightarrow> byte list \<Rightarrow> crypto_error + byte list" where
  "Sign C priv h =
     (case SignCompact C priv h of
        None \<Rightarrow> Inl errSign
      | Some sig \<Rightarrow> Inr (drop 1 (sig @ [if sig ! 0 = 28 then 1 else 0])))"

definition PubKeyToAddress :: "Crypto \<Rightarrow> int \<times> int \<Rightarrow> address" where
  "PubKeyToAddress K pub = BytesToAddress (drop 12 (hash_bytes (Keccak256 K (drop 1 (MarshalPublicKey pub)))))"

section \<open>Signers\<close>

datatype TxSigner = FrontierSigner | EIP155Signer u64

definition NewSigner :: "ForksInTime \<Rightarrow> u64 \<Rightarrow> TxSigner" where
  "NewSigner forks chainID = (if EIP155 forks then EIP155Signer chainID else FrontierSigner)"

definition calcTxHash :: "'v Fastrlp \<Rightarrow> Crypto \<Rightarrow> Transaction \<Rightarrow> u64 \<Rightarrow> hash" where
  "calcTxHash F K tx chainID =
     Keccak256 K (rlp_Marshal F (rlp_NewArray F
       ([rlp_NewUint F (tx_Nonce tx), rlp_NewBigInt F (tx_GasPrice tx), rlp_NewUint F (tx_Gas tx),
         (case tx_To tx of None \<Rightarrow> rlp_NewNull F | Some a \<Rightarrow> rlp_NewBytes F (address_bytes a)),
         rlp_NewBigInt F (tx_Value tx), rlp_NewBytes F (tx_Input tx)] @
        (if chainID \<noteq> 0 then [rlp_NewUint F chainID, rlp_NewUint F 0, rlp_NewUint F 0] else []))))"

fun Signer_Hash :: "'v Fastrlp \<Rightarrow> Crypto \<Rightarrow> TxSigner \<Rightarrow> Transaction \<Rightarrow> hash" where
  "Signer_Hash F K FrontierSigner tx = calcTxHash F K tx 0"
| "Signer_Hash F K (EIP155Signer chainID) tx = calcTxHash F K tx chainID"

text \<open>\<open>copy(sig[off:], bs)\<close>.\<close>

definition copyAt :: "nat \<Rightarrow> byte list \<Rightarrow> byte list \<Rightarrow> byte list" where
  "copyAt off bs sig = take off sig @ bs @ drop (off + length bs) sig"

text \<open>A value of \<open>R\<close> of more than 32 bytes, or of \<open>S\<close> of more than 64, makes the slice bounds negative.\<close>

definition encodeSignature :: "int option \<Rightarrow> int option \<Rightarrow> byte \<Rightarrow> crypto_error + byte list" where
  "encodeSignature R S V =
     (if \<not> ValidateSignatureValues V R S then Inl errInvalidSignature
      else
        let r = Bytes (the R); s = Bytes (the S) in
        if length r > 32 \<or> length s > 64 then Inl goPanic
        else Inr ((copyAt (64 - length s) s (copyAt (32 - length r) r (replicate 65 0)))[64 := V]))"

text \<open>\<open>byte(v.Int64())\<close>.\<close>

definition lowByte :: "int \<Rightarrow> byte" where
  "lowByte v = word_of_int (Int64 v)"

definition recoverSender ::
  "'k Btcec \<Rightarrow> Crypto \<Rightarrow> hash \<Rightarrow> Transaction \<Rightarrow> int \<Rightarrow> crypto_error + address" where
  "recoverSender C K h tx v =
     (case encodeSignature (tx_R tx) (tx_S tx) (lowByte v) of
        Inl e \<Rightarrow> Inl e
      | Inr sig \<Rightarrow>
          (case Ecrecover C (hash_bytes h) sig of
             Inl e \<Rightarrow> Inl e
           | Inr pub \<Rightarrow> Inr (BytesToAddress (drop 12 (hash_bytes (Keccak256 K (drop 1 pub)))))))"

definition bigV :: "Transaction \<Rightarrow> int" where
  "bigV tx = (case tx_V tx of None \<Rightarrow> 0 | Some v \<Rightarrow> SetBytes (Bytes v))"

text \<open>Whether \<open>V\<close> follows EIP-155.\<close>

definition protectedV :: "int \<Rightarrow> bool" where
  "protectedV v = (let vv = Uint64 v in if vv < 256 then vv \<noteq> 27 \<and> vv \<noteq> 28 else True)"

fun Sender :: "'v Fastrlp \<Rightarrow> 'k Btcec \<Rightarrow> Crypto \<Rightarrow> TxSigner \<Rightarrow> Transaction \<Rightarrow> crypto_error + address" where
  "Sender F C K FrontierSigner tx = recoverSender C K (Signer_Hash F K FrontierSigner tx) tx (bigV tx - 27)"
| "Sender F C K (EIP155Signer chainID) tx =
     (if \<not> protectedV (bigV tx)
      then recoverSender C K (Signer_Hash F K FrontierSigner tx) tx (bigV tx - 27)
      else recoverSender C K (Signer_Hash F K (EIP155Signer chainID) tx) tx (bigV tx - sint chainID * 2 - 35))"

fun CalculateV :: "TxSigner \<Rightarrow> byte \<Rightarrow> byte list" where
  "CalculateV FrontierSigner parity = Bytes (uint parity + 27)"
| "CalculateV (EIP155Signer chainID) parity = Bytes (uint parity + 35 + sint chainID * 2)"

definition SignTx ::
  "'v Fastrlp \<Rightarrow> 'k Btcec \<Rightarrow> Crypto \<Rightarrow> TxSigner \<Rightarrow> Transaction \<Rightarrow> 'k \<Rightarrow> crypto_error + Transaction" where
  "SignTx F C K signer tx priv =
     (let tx = Transaction_Copy tx in
      case Sign C priv (hash_bytes (Signer_Hash F K signer tx)) of
        Inl e \<Rightarrow> Inl e
      | Inr sig \<Rightarrow>
          Inr (tx\<lparr>tx_R := Some (SetBytes (take 32 sig)), tx_S := Some (SetBytes (take 32 (drop 32 sig))),
                  tx_V := Some (SetBytes (CalculateV signer (sig ! 64)))\<rparr>))"

section \<open>Lemmas on signature values\<close>

lemma bytesCompare_less:
  "length xs = length ys \<Longrightarrow> bytesCompare xs ys < 0 \<longleftrightarrow> be_nat xs < be_nat ys"
proof (induction xs ys rule: bytesCompare.induct)
  case (4 x xs y ys)
  let ?n = "256 ^ length ys"
  have less: "unat a * ?n + u < unat b * ?n + v" if "unat a < unat b" "u < ?n" for a b :: byte and u v
  proof -
    have "unat a * ?n + u < (unat a + 1) * ?n" using that by simp
    also have "\<dots> \<le> unat b * ?n" using that by (intro mult_right_mono) auto
    finally show ?thesis by simp
  qed
  have b: "be_nat xs < ?n" "be_nat ys < ?n" using be_nat_less [of xs] be_nat_less [of ys] 4(2) by simp_all
  show ?case
    using 4 less [of x y "be_nat xs" "be_nat ys"] less [of y x "be_nat ys" "be_nat xs"] b
    by (auto simp: word_less_nat_alt dest: word_unat_eq_iff [THEN iffD2] split: if_splits)
qed simp_all

lemma hd_min_bytes: "min_bytes n = b # bs \<Longrightarrow> b \<noteq> 0"
proof (induction n arbitrary: bs rule: min_bytes.induct)
  case (1 n)
  show ?case
  proof (cases "min_bytes (n div 256)")
    case Nil
    then have "n div 256 = 0" using be_nat_min_bytes [of "n div 256"] by simp
    then have "n < 256" by (simp add: div_eq_0_iff)
    moreover have "n \<noteq> 0" using "1.prems" by (cases n) (simp_all add: min_bytes.simps [of 0])
    ultimately show ?thesis using "1.prems" Nil
      by (auto simp: min_bytes.simps [of n] word_unat_eq_iff)
  next
    case (Cons c cs)
    then have "n \<noteq> 0" by (cases n) (simp_all add: min_bytes.simps [of 0])
    with "1.prems" "1.IH" Cons show ?thesis by (auto simp: min_bytes.simps [of n])
  qed
qed

lemma trimLeftZeros_id: "(\<And>c cs. bs = c # cs \<Longrightarrow> c \<noteq> 0) \<Longrightarrow> trimLeftZeros bs = bs"
  by (cases bs rule: trimLeftZeros.cases) auto

lemma trimLeftZeros_Bytes [simp]: "trimLeftZeros (Bytes r) = Bytes r"
  unfolding Bytes_def by (rule trimLeftZeros_id) (rule hd_min_bytes)

lemma secp256k1N_nat: "be_nat secp256k1N = 0xfffffffffffffffffffffffffffffffebaaedce6af48a03bbfd25e8cd0364141"
  unfolding secp256k1N_def be_nat_be_bytes by simp

lemma length_secp256k1N [simp]: "length secp256k1N = 32"
  by (simp add: secp256k1N_def)

lemma length_Bytes_32:
  assumes "2 ^ 248 \<le> r" and "r < 2 ^ 256"
  shows "length (Bytes r) = 32"
proof -
  have "nat \<bar>r\<bar> < 256 ^ 32" using assms by (simp add: nat_less_iff)
  moreover have "\<not> nat \<bar>r\<bar> < 256 ^ 31" using assms by (simp add: nat_less_iff)
  ultimately show ?thesis using length_min_bytes [of "nat \<bar>r\<bar>" 32] length_min_bytes [of "nat \<bar>r\<bar>" 31]
    unfolding Bytes_def by linarith
qed

lemma validScalar_32:
  assumes "2 ^ 248 \<le> r" and "r < 2 ^ 256"
  shows "validScalar r \<longleftrightarrow> r < int (be_nat secp256k1N)"
proof -
  note len = length_Bytes_32 [OF assms]
  then obtain b bs where b: "Bytes r = b # bs" "bs \<noteq> []" by (cases "Bytes r"; cases "tl (Bytes r)") auto
  then have "b \<noteq> 0" unfolding Bytes_def by (rule_tac hd_min_bytes)
  then have "\<not> bytesCompare (Bytes r) [1] < 0" using b by (cases bs) (auto simp: word_less_nat_alt word_unat_eq_iff)
  moreover have "bytesCompare (Bytes r) secp256k1N < 0 \<longleftrightarrow> nat \<bar>r\<bar> < be_nat secp256k1N"
    using bytesCompare_less [of "Bytes r" secp256k1N] len by simp
  moreover have "nat \<bar>r\<bar> < be_nat secp256k1N \<longleftrightarrow> r < int (be_nat secp256k1N)" using assms by (simp add: nat_less_iff)
  ultimately show ?thesis by (simp add: validScalar_def Let_def not_le)
qed

lemma min_bytes_step: "n \<noteq> 0 \<Longrightarrow> (word_of_nat n :: byte) = w \<Longrightarrow> min_bytes n = min_bytes (n div 256) @ [w]"
  by (simp add: min_bytes.simps [of n])

lemma byte_eqI: "x mod 256 = unat w \<Longrightarrow> (word_of_nat x :: byte) = w"
  by (simp only: word_unat_eq_iff unat_word_of_nat_byte)

lemma min_bytes_power: "min_bytes (256 ^ n) = 1 # replicate n 0"
proof (induction n)
  case (Suc n)
  have "min_bytes (256 * 256 ^ n) = min_bytes (256 * 256 ^ n div 256) @ [0]"
    by (rule min_bytes_step) (simp, rule byte_eqI, simp)
  with Suc show ?case by (simp add: replicate_append_same)
qed (simp add: min_bytes.simps)

lemma min_bytes_ones: "min_bytes (256 ^ n - 1) = replicate n 255"
proof (induction n)
  case (Suc n)
  obtain k where k: "256 ^ n = Suc k" by (cases "256 ^ n :: nat") simp_all
  have "min_bytes (256 * 256 ^ n - 1) = min_bytes ((256 * 256 ^ n - 1) div 256) @ [255]"
    by (rule min_bytes_step) (simp add: k, rule byte_eqI, simp add: k)
  moreover have "(256 * 256 ^ n - 1) div 256 = 256 ^ n - (1 :: nat)" by (simp add: k)
  ultimately show ?case using Suc by (simp add: replicate_append_same)
qed (simp add: min_bytes.simps)

section \<open>Lemmas on senders\<close>

lemma Bytes_SetBytes_32:
  assumes "length bs = 32" and "2 ^ 248 \<le> SetBytes bs"
  shows "Bytes (SetBytes bs) = bs"
proof -
  have "SetBytes bs < 2 ^ 256" using SetBytes_less [of bs 32] assms(1) by simp
  with assms have "length (Bytes (SetBytes bs)) = 32" by (simp add: length_Bytes_32)
  then have "be_bytes 32 (be_nat (Bytes (SetBytes bs))) = Bytes (SetBytes bs)" by (rule be_bytes_be_nat)
  then show ?thesis using assms(1) be_bytes_be_nat [of bs 32] by (simp add: SetBytes_def)
qed

lemma encodeSignature_32:
  assumes "length r = 32" "length s = 32" and "2 ^ 248 \<le> SetBytes r" "2 ^ 248 \<le> SetBytes s"
    and "be_nat r < be_nat secp256k1N" "be_nat s < be_nat secp256k1N" and "v \<le> 1"
  shows "encodeSignature (Some (SetBytes r)) (Some (SetBytes s)) v = Inr (r @ s @ [v])"
proof -
  have b: "Bytes (SetBytes r) = r" "Bytes (SetBytes s) = s" using assms by (simp_all add: Bytes_SetBytes_32)
  have "SetBytes r < 2 ^ 256" "SetBytes s < 2 ^ 256"
    using SetBytes_less [of r 32] SetBytes_less [of s 32] assms by simp_all
  then have "validScalar (SetBytes r)" "validScalar (SetBytes s)"
    using assms by (simp_all add: validScalar_32 SetBytes_def)
  then have "ValidateSignatureValues v (Some (SetBytes r)) (Some (SetBytes s))"
    using assms(7) by (simp add: ValidateSignatureValues_def not_less)
  then show ?thesis
    using assms(1,2) b by (simp add: encodeSignature_def Let_def copyAt_def list_update_append)
qed

lemma Sign_sig:
  assumes "btcec_laws C" and "Sign C k h = Inr sig"
  shows "length sig = 65 \<and> (sig ! 64 = 0 \<or> sig ! 64 = 1) \<and>
    RecoverPubkey C (take 32 sig @ take 32 (drop 32 sig) @ [sig ! 64]) h = Inr (PublicKey C k)"
proof -
  from assms(2) obtain s where s: "SignCompact C k h = Some s" "sig = drop 1 (s @ [if s ! 0 = 28 then 1 else 0])"
    by (auto simp: Sign_def split: option.splits)
  with assms(1) have l: "length s = 65" "s ! 0 = 27 \<or> s ! 0 = 28" "RecoverCompact C s h = Some (PublicKey C k)"
    by (auto simp: btcec_laws_def)
  then obtain t ts where t: "s = t # ts" "length ts = 64" by (cases s) auto
  have "butlast (take 32 ts @ drop 32 ts @ [x]) = ts" for x by (simp add: butlast_append)
  with s l t show ?thesis by (auto simp: RecoverPubkey_def nth_append)
qed

lemma lowByte_parity: "p = 0 \<or> p = 1 \<Longrightarrow> lowByte (uint p) = p"
  by (auto simp: lowByte_def Int64_def)

lemma lowByte_eq: "lowByte v = word_of_int v"
proof -
  have "word_of_int (sint (word_of_int v :: u64)) = (word_of_int v :: byte)"
    by (rule bit_eqI) (simp add: bit_word_of_int_iff bit_signed_iff min_def)
  then show ?thesis by (simp add: lowByte_def Int64_def)
qed

lemma recoverSender_signed:
  assumes C: "btcec_laws C" and sig: "Sign C k (hash_bytes h) = Inr sig"
    and tx: "tx_R tx = Some (SetBytes (take 32 sig))" "tx_S tx = Some (SetBytes (take 32 (drop 32 sig)))"
    and big: "2 ^ 248 \<le> SetBytes (take 32 sig)" "2 ^ 248 \<le> SetBytes (take 32 (drop 32 sig))"
    and N: "be_nat (take 32 sig) < be_nat secp256k1N" "be_nat (take 32 (drop 32 sig)) < be_nat secp256k1N"
    and v: "v = uint (sig ! 64)"
  shows "recoverSender C K h tx v = Inr (PubKeyToAddress K (PublicKey C k))"
proof -
  note s = Sign_sig [OF C sig]
  have "encodeSignature (tx_R tx) (tx_S tx) (lowByte v) = Inr (take 32 sig @ take 32 (drop 32 sig) @ [sig ! 64])"
    unfolding tx v by (subst lowByte_parity) (use s big N in \<open>auto intro!: encodeSignature_32\<close>)
  with s show ?thesis by (simp add: recoverSender_def Ecrecover_def PubKeyToAddress_def)
qed

lemma Signer_Hash_sig [simp]:
  "Signer_Hash F K sg (tx\<lparr>tx_R := r, tx_S := s, tx_V := v\<rparr>) = Signer_Hash F K sg tx"
  "Signer_Hash F K sg (tx\<lparr>tx_V := v\<rparr>) = Signer_Hash F K sg tx"
  "Signer_Hash F K sg (tx\<lparr>tx_R := r, tx_S := s\<rparr>) = Signer_Hash F K sg tx"
  by (cases sg; simp add: calcTxHash_def)+

lemma eip155_v:
  assumes "chainID < (2 ^ 62 :: u64)" and "p = 0 \<or> p = (1 :: byte)"
  shows "sint chainID = uint chainID" and "protectedV (uint p + 35 + sint chainID * 2)"
    and "SetBytes (CalculateV (EIP155Signer chainID) p) = uint p + 35 + sint chainID * 2"
proof -
  have u: "uint chainID < 2 ^ 62" using assms(1) by (simp add: word_less_def)
  show s: "sint chainID = uint chainID"
    using u signed_take_bit_int_eq_self [of 63 "uint chainID"] uint_ge_0 [of chainID] by (simp add: sint_uint)
  have p: "0 \<le> uint p" "uint p \<le> 1" using assms(2) by auto
  have v: "0 \<le> uint p + 35 + uint chainID * 2" "uint p + 35 + uint chainID * 2 < 2 ^ 64" using u p by simp_all
  have "uint (Uint64 (uint p + 35 + uint chainID * 2)) = uint p + 35 + uint chainID * 2" using v by (rule uint_Uint64)
  then have "35 \<le> uint (Uint64 (uint p + 35 + uint chainID * 2))" using p by simp
  then show "protectedV (uint p + 35 + sint chainID * 2)" by (auto simp: protectedV_def Let_def s)
  show "SetBytes (CalculateV (EIP155Signer chainID) p) = uint p + 35 + sint chainID * 2"
    using v by (simp add: SetBytes_def s)
qed

lemma bytesCompare_swap: "bytesCompare xs ys > 0 \<longleftrightarrow> bytesCompare ys xs < 0"
  by (induction xs ys rule: bytesCompare.induct) auto

lemma bytesCompare_take: "bytesCompare xs (take (length xs) ys) > 0 \<Longrightarrow> bytesCompare xs ys > 0"
  by (induction xs ys rule: bytesCompare.induct) (auto split: if_splits)

lemma hd_255:
  assumes "length ys = 32" and "255 * 256 ^ 31 \<le> be_nat ys"
  shows "\<exists>zs. ys = 255 # zs"
proof -
  obtain y zs where ys: "ys = y # zs" "length zs = 31" using assms(1) by (cases ys) auto
  have "be_nat zs < 256 ^ 31" using be_nat_less [of zs] ys by simp
  then have "255 * 256 ^ 31 < (unat y + 1) * 256 ^ 31" using assms(2) ys by simp
  then have "255 < unat y + 1" by (simp only: mult_less_cancel2)
  moreover have "unat y < 256" by simp
  ultimately have "unat y = 255" by linarith
  then have "y = 255" by (simp add: word_unat_eq_iff)
  with ys show ?thesis by simp
qed

lemma be_nat_replicate_255: "be_nat (replicate n 255) = 256 ^ n - 1"
  by (rule subst [OF min_bytes_ones [of n]]) (rule be_nat_min_bytes)

lemma validScalar_long: "validScalar (256 ^ Suc n)" "validScalar 1"
proof -
  obtain zs where N: "secp256k1N = 255 # zs" using hd_255 [of secp256k1N] by (auto simp: secp256k1N_nat)
  have lt: "(1 :: byte) < 255" by (simp add: word_less_nat_alt)
  have nat: "nat \<bar>256 ^ Suc n\<bar> = 256 ^ Suc n" "nat \<bar>1\<bar> = 256 ^ 0" by (simp_all add: nat_power_eq nat_mult_distrib)
  have "Bytes (256 ^ Suc n) = 1 # 0 # replicate n 0" "Bytes 1 = [1]"
    unfolding Bytes_def nat min_bytes_power by simp_all
  then show "validScalar (256 ^ Suc n)" "validScalar 1"
    unfolding validScalar_def Let_def trimLeftZeros_Bytes N using lt by simp_all
qed

lemma validScalar_31: "\<not> validScalar (256 ^ 31 - 1)"
proof -
  have nat: "nat \<bar>256 ^ 31 - 1\<bar> = 256 ^ 31 - 1" by simp
  have B: "Bytes (256 ^ 31 - 1) = replicate 31 255" unfolding Bytes_def nat by (rule min_bytes_ones)
  have "be_nat secp256k1N = be_nat (take 31 secp256k1N) * 256 + be_nat (drop 31 secp256k1N)"
    using be_nat_append [of "take 31 secp256k1N" "drop 31 secp256k1N"] by simp
  moreover have "be_nat (drop 31 secp256k1N) < 256" using be_nat_less [of "drop 31 secp256k1N"] by simp
  ultimately have "be_nat (take 31 secp256k1N) < 256 ^ 31 - 1" by (simp add: secp256k1N_nat)
  then have "be_nat (take 31 secp256k1N) < be_nat (replicate 31 255)" unfolding be_nat_replicate_255 .
  then have "bytesCompare (take 31 secp256k1N) (replicate 31 255) < 0"
    using bytesCompare_less [of "take 31 secp256k1N" "replicate 31 255"] by simp
  then have "bytesCompare (replicate 31 255) (take (length (replicate 31 (255 :: byte))) secp256k1N) > 0"
    unfolding bytesCompare_swap length_replicate .
  from bytesCompare_take [OF this] have "bytesCompare (Bytes (256 ^ 31 - 1)) secp256k1N > 0" unfolding B .
  then show ?thesis by (simp only: validScalar_def Let_def trimLeftZeros_Bytes) simp
qed

lemma lowByte_mod: "lowByte (v + 256 * n) = lowByte v"
proof -
  have "word_of_int (v + 256 * n) = (word_of_int v + 256 * word_of_int n :: byte)" by (simp add: wi_hom_syms)
  also have "(256 :: byte) = 0" by simp
  finally show ?thesis by (simp add: lowByte_eq)
qed

section \<open>A concrete curve\<close>

definition demoBtcec :: "unit Btcec" where
  "demoBtcec = \<lparr>SignCompact = (\<lambda>_ _. Some (27 # (1 # replicate 31 0) @ (1 # replicate 31 0))),
     RecoverCompact = (\<lambda>_ _. Some (3, 4)), PublicKey = (\<lambda>_. (3, 4))\<rparr>"

lemma demoBtcec_laws: "btcec_laws demoBtcec"
  by (simp add: btcec_laws_def demoBtcec_def)

lemma demo_signed:
  "\<exists>tx'. SignTx demoRlp demoBtcec demoCrypto (EIP155Signer 2000) demoTx () = Inr tx' \<and>
     tx_R tx' = Some (256 ^ 31) \<and> tx_S tx' = Some (256 ^ 31)"
  by (simp add: SignTx_def Let_def Sign_def demoBtcec_def SetBytes_def del: replicate.simps)

section \<open>Properties\<close>



text \<open>C22: the range check on signature values compares byte strings lexicographically, so it is right for values of 32
  bytes only.  It accepts \<open>R = 2 ^ 256\<close>, on which the recovery of the sender then panics, and it rejects
  \<open>2 ^ 248 - 1\<close>, which is below the order of the curve.\<close>

theorem signature_values_misjudged:
  "(\<forall>r. 2 ^ 248 \<le> r \<and> r < 2 ^ 256 \<longrightarrow>
      ValidateSignatureValues 0 (Some r) (Some 1) = (r < int (be_nat secp256k1N))) \<and>
   ValidateSignatureValues 0 (Some (256 ^ 32)) (Some 1) \<and>
   Sender F C K FrontierSigner (tx\<lparr>tx_V := Some 27, tx_R := Some (256 ^ 32), tx_S := Some 1\<rparr>) = Inl goPanic \<and>
   \<not> ValidateSignatureValues 0 (Some (256 ^ 31 - 1)) (Some 1) \<and> 256 ^ 31 - 1 < be_nat secp256k1N"
proof -
  have V: "ValidateSignatureValues 0 (Some r) (Some 1) = validScalar r" for r
    using validScalar_long(2) by (simp add: ValidateSignatureValues_def)
  have 1: "validScalar (256 ^ 32)" using validScalar_long(1) [of 31] by simp
  have "\<not> length (Bytes (256 ^ 32)) \<le> 32" unfolding Bytes_def length_min_bytes by simp
  then have "encodeSignature (Some (256 ^ 32)) (Some 1) (lowByte 0) = Inl goPanic"
    using V [of "256 ^ 32"] 1 by (simp only: encodeSignature_def lowByte_eq word_of_int_0 Let_def option.sel) simp
  then have "Sender F C K FrontierSigner (tx\<lparr>tx_V := Some 27, tx_R := Some (256 ^ 32), tx_S := Some 1\<rparr>) = Inl goPanic"
    by (simp add: recoverSender_def bigV_def)
  moreover have "256 ^ 31 - 1 < be_nat secp256k1N" by (simp add: secp256k1N_nat)
  ultimately show ?thesis using 1 validScalar_31 validScalar_32 by (simp only: V) blast
qed

theorem signature_values_misjudged_witness:
  "ValidateSignatureValues 0 (Some (2 ^ 255)) (Some 1) \<and>
   Sender demoRlp demoBtcec demoCrypto FrontierSigner (demoTx\<lparr>tx_V := Some 27, tx_R := Some (256 ^ 32), tx_S := Some 1\<rparr>) = Inl goPanic"
proof -
  have "(2 :: int) ^ 248 \<le> 2 ^ 255 \<and> (2 :: int) ^ 255 < 2 ^ 256" "(2 :: int) ^ 255 < int (be_nat secp256k1N)"
    by (simp_all add: secp256k1N_nat)
  then show ?thesis using signature_values_misjudged [of demoRlp demoBtcec demoCrypto demoTx] by blast
qed



end
