(* ===== verification/Processor.thy ===== *)
theory Processor
  imports Executor_Host Headers Signer
begin

text \<open>
  Processing of transactions and blocks (the rest of \<open>state/executor.go\<close>): the checks and the gas accounting
  of \<open>apply\<close>, the receipts of \<open>Write\<close>, the events of the bridge, the loop over the transactions of a
  block, and the genesis state.  \<open>None\<close> stands for a Go panic or a call that does not return.

  \<open>Platform\<close> collects what is not state: the environment of the world state, the precompiled contracts,
  a virtual machine from the pool, the curve and the event decoder.  \<open>ex_stopped i\<close> is the value that
  \<open>IsStopped\<close> reads before the \<open>i\<close>-th transaction, since another goroutine may call \<open>Stop\<close> at any time.
\<close>

section \<open>Data\<close>

record ('s, 't, 'n, 'v, 'k) Platform =
  pf_env :: "('s, 't, 'n, 'v) TxnEnv"
  pf_contracts :: contracts
  pf_pool :: "('t, 'n) Transition state"
  pf_curve :: "'k Btcec"
  pf_abi :: BridgeABI

record ('t, 'n) Executor =
  ex_forks :: Forks
  ex_chainID :: int
  ex_GetHash :: "Header \<Rightarrow> u64 \<Rightarrow> hash"
  ex_stopped :: "nat \<Rightarrow> bool"
  ex_PostHook :: "(('t, 'n) Transition \<Rightarrow> ('t, 'n) Transition) option"

record GenesisAccount =
  ga_Code :: "byte list"
  ga_Storage :: "(hash \<times> hash) list"
  ga_Balance :: "int option"
  ga_Nonce :: u64

datatype state_error =
    ErrNonceIncorrect | ErrNotEnoughFundsForGas | ErrBlockLimitReached | ErrIntrinsicGasOverflow
  | ErrNotEnoughIntrinsicGas | ErrNotEnoughFundsForValue | ErrAllGasUsed | ErrExecutionStop
  | errSender crypto_error | errRuntime vm_error | errBridgeLog | errAccountExists

text \<open>\<open>IsRecoverable\<close> is a field of a \<open>TransitionApplicationError\<close>; the other wrappers fix it.\<close>

datatype apply_error =
    TransitionApplicationError state_error bool
  | NonceTooLowError state_error u64
  | NonceTooHighError state_error u64
  | GasLimitReachedTransitionApplicationError state_error
  | AllGasUsedError state_error
  | PlainError state_error

definition IsRecoverable :: "apply_error \<Rightarrow> bool" where
  "IsRecoverable e =
     (case e of
        TransitionApplicationError _ r \<Rightarrow> r
      | NonceTooLowError _ _ \<Rightarrow> False
      | NonceTooHighError _ _ \<Rightarrow> False
      | GasLimitReachedTransitionApplicationError _ \<Rightarrow> True
      | AllGasUsedError _ \<Rightarrow> True
      | PlainError _ \<Rightarrow> False)"

section \<open>Gas of a transaction\<close>

definition TxGas :: u64 where
  "TxGas = 21000"

definition TxGasContractCreation :: u64 where
  "TxGasContractCreation = 53000"

definition TransactionGasCost :: "Transaction \<Rightarrow> bool \<Rightarrow> bool \<Rightarrow> state_error + u64" where
  "TransactionGasCost tx isHomestead isIstanbul =
     (let cost = (if IsContractCreation tx \<and> isHomestead then TxGasContractCreation else TxGas);
          payload = tx_Input tx in
      if payload = [] then Inr cost
      else
        let zeros = word_of_nat (length (filter (\<lambda>b. b = 0) payload));
            nonZeros = word_of_nat (length payload) - zeros;
            nonZeroCost = (if isIstanbul then 16 else 68) in
        if (- 1 - cost) div nonZeroCost < nonZeros then Inl ErrIntrinsicGasOverflow
        else
          let cost = cost + nonZeros * nonZeroCost in
          if (- 1 - cost) div 4 < zeros then Inl ErrIntrinsicGasOverflow
          else Inr (cost + zeros * 4))"

definition subGasPool :: "u64 \<Rightarrow> ('t, 'n) Transition \<Rightarrow> ('t, 'n) Transition option" where
  "subGasPool amount t =
     (if tr_gasPool t < amount then None else Some (t\<lparr>tr_gasPool := tr_gasPool t - amount\<rparr>))"

definition addGasPool :: "u64 \<Rightarrow> ('t, 'n) Transition \<Rightarrow> ('t, 'n) Transition" where
  "addGasPool amount t = t\<lparr>tr_gasPool := tr_gasPool t + amount\<rparr>"

definition IncreaseSystemTransactionGas :: "u64 \<Rightarrow> ('t, 'n) Transition \<Rightarrow> ('t, 'n) Transition" where
  "IncreaseSystemTransactionGas amount t =
     (let t = addGasPool amount t;
          limit = sint (word_of_int (GasLimit (tr_ctx t)) + amount)
      in t\<lparr>tr_ctx := (tr_ctx t)\<lparr>GasLimit := limit\<rparr>\<rparr>)"

section \<open>Applying a transaction\<close>

definition subGasLimitPrice ::
  "('s, 't, 'n, 'v) TxnEnv \<Rightarrow> Transaction \<Rightarrow> int \<Rightarrow> ('t, 'n) Transition \<Rightarrow> state_error option \<times> ('t, 'n) Transition" where
  "subGasLimitPrice E tx gasPrice t =
     (case SubBalance E (tx_From tx) (gasPrice * uint (tx_Gas tx)) (tr_state t) of
        (Some e, T) \<Rightarrow> (Some (if e = ErrNotEnoughFunds then ErrNotEnoughFundsForGas else errRuntime e), t\<lparr>tr_state := T\<rparr>)
      | (None, T) \<Rightarrow> (None, t\<lparr>tr_state := T\<rparr>))"

definition nonceCheck ::
  "('s, 't, 'n, 'v) TxnEnv \<Rightarrow> ('t, 'n) Transition \<Rightarrow> Transaction \<Rightarrow> apply_error option" where
  "nonceCheck E t tx =
     (let nonce = Txn_GetNonce E (tr_state t) (tx_From tx) in
      if tx_Nonce tx < nonce then Some (NonceTooLowError ErrNonceIncorrect nonce)
      else if tx_Nonce tx > nonce then Some (NonceTooHighError ErrNonceIncorrect nonce)
      else None)"

text \<open>The part of \<open>apply\<close> from the call on: the refund, and who gets what for the gas.\<close>

definition settleGas ::
  "('s, 't, 'n, 'v) TxnEnv \<Rightarrow> Transaction \<Rightarrow> int \<Rightarrow> ('t, 'n) Transition \<Rightarrow> ExecutionResult \<Rightarrow>
   ('t, 'n) Transition \<times> ExecutionResult" where
  "settleGas E tx gasPrice t result =
     (let refund = GetRefund E (tr_state t);
          result = UpdateGasUsed (tx_Gas tx) refund result;
          T = AddBalance E (tx_From tx) (uint (GasLeft result) * gasPrice) (tr_state t);
          T = AddBalance E (Coinbase (tr_ctx t)) (uint (GasUsed result) * gasPrice) T
      in (addGasPool (GasLeft result) (t\<lparr>tr_state := T\<rparr>), result))"

definition executeMessage ::
  "('s, 't, 'n, 'v, 'k) Platform \<Rightarrow> Transaction \<Rightarrow> int \<Rightarrow> int \<Rightarrow> u64 \<Rightarrow> ('t, 'n) Transition \<Rightarrow>
   (('t, 'n) Transition \<times> ExecutionResult) option" where
  "executeMessage N tx gasPrice val gasLeft t =
     (let E = pf_env N;
          t = t\<lparr>tr_ctx := (tr_ctx t)\<lparr>GasPrice := BytesToHash (Bytes gasPrice), Origin_ctx := tx_From tx\<rparr>\<rparr>
      in map_option (\<lambda>(t, result). settleGas E tx gasPrice t result)
           (case tx_To tx of
              None \<Rightarrow> Create2_tx E (pf_contracts N) (pf_pool N) t (tx_From tx) (tx_Input tx) val gasLeft
            | Some to \<Rightarrow>
                Call2 E (pf_contracts N) (pf_pool N) (t\<lparr>tr_state := IncrNonce E (tx_From tx) (tr_state t)\<rparr>)
                  (tx_From tx) to (tx_Input tx) val gasLeft))"

text \<open>The checks of \<open>apply\<close>: the error or the gas left for execution, with the transition so far.\<close>

definition checkMessage ::
  "('s, 't, 'n, 'v) TxnEnv \<Rightarrow> Transaction \<Rightarrow> int \<Rightarrow> int \<Rightarrow> ('t, 'n) Transition \<Rightarrow>
   (apply_error + u64) \<times> ('t, 'n) Transition" where
  "checkMessage E tx gasPrice val t =
     (if tr_gasPool t < TxGas then (Inl (AllGasUsedError ErrAllGasUsed), t)
      else case nonceCheck E t tx of
        Some e \<Rightarrow> (Inl e, t)
      | None \<Rightarrow>
      case subGasLimitPrice E tx gasPrice t of
        (Some e, t) \<Rightarrow> (Inl (TransitionApplicationError e True), t)
      | (None, t) \<Rightarrow>
      case subGasPool (tx_Gas tx) t of
        None \<Rightarrow> (Inl (GasLimitReachedTransitionApplicationError ErrBlockLimitReached), t)
      | Some t \<Rightarrow>
      case TransactionGasCost tx (Homestead (tr_config t)) (Istanbul (tr_config t)) of
        Inl e \<Rightarrow> (Inl (TransitionApplicationError e False), t)
      | Inr intrinsicGasCost \<Rightarrow>
      let gasLeft = tx_Gas tx - intrinsicGasCost in
      if gasLeft > tx_Gas tx then (Inl (TransitionApplicationError ErrNotEnoughIntrinsicGas False), t)
      else if Txn_GetBalance E (tr_state t) (tx_From tx) < val
      then (Inl (TransitionApplicationError ErrNotEnoughFundsForValue True), t)
      else (Inr gasLeft, t))"

text \<open>A message with a nil price or value is a nil pointer dereference; \<open>Write\<close> passes a copy, where they are set.\<close>

definition applyMsg ::
  "('s, 't, 'n, 'v, 'k) Platform \<Rightarrow> Transaction \<Rightarrow> ('t, 'n) Transition \<Rightarrow>
   ((apply_error + ExecutionResult) \<times> ('t, 'n) Transition) option" where
  "applyMsg N tx t =
     (case (tx_GasPrice tx, tx_Value tx) of
        (Some gasPrice, Some val) \<Rightarrow>
          (case checkMessage (pf_env N) tx gasPrice val t of
             (Inl e, t) \<Rightarrow> Some (Inl e, t)
           | (Inr gasLeft, t) \<Rightarrow>
               map_option (\<lambda>(t, result). (Inr result, t)) (executeMessage N tx gasPrice val gasLeft t))
      | _ \<Rightarrow> None)"

definition Apply ::
  "('s, 't, 'n, 'v, 'k) Platform \<Rightarrow> ('t, 'n) Executor \<Rightarrow> Transaction \<Rightarrow> ('t, 'n) Transition \<Rightarrow>
   ((apply_error + ExecutionResult) \<times> ('t, 'n) Transition) option" where
  "Apply N x tx t =
     (let (s, T) = Snapshot (tr_state t);
          hook = (case ex_PostHook x of None \<Rightarrow> id | Some f \<Rightarrow> f) in
      case applyMsg N tx (t\<lparr>tr_state := T\<rparr>) of
        None \<Rightarrow> None
      | Some (Inr result, t) \<Rightarrow> Some (Inr result, hook t)
      | Some (Inl e, t) \<Rightarrow>
          map_option (\<lambda>T. (Inl e, hook (t\<lparr>tr_state := T\<rparr>))) (RevertToSnapshot s (tr_state t)))"

section \<open>Events of the bridge\<close>

definition bridgeLog ::
  "('s, 't, 'n, 'v) TxnEnv \<Rightarrow> BridgeABI \<Rightarrow> Log \<Rightarrow> ('t, 'n) Txn \<Rightarrow> state_error option \<times> ('t, 'n) Txn" where
  "bridgeLog E abi log T =
     (case log_Topics log of
        [] \<Rightarrow> (None, T)
      | topic # _ \<Rightarrow>
          if topic = ev_ID (BridgeDepositedEvent abi) then
            (case ParseBridgeDepositedLog abi log of
               None \<Rightarrow> (Some errBridgeLog, T)
             | Some parsedLog \<Rightarrow> (None, AddBalance E (dep_Receiver parsedLog) (dep_Amount parsedLog) T))
          else if topic = ev_ID (BridgeWithdrawnEvent abi) then
            (case ParseBridgeWithdrawnLog abi log of
               None \<Rightarrow> (Some errBridgeLog, T)
             | Some parsedLog \<Rightarrow>
                 (case SubBalance E (wd_Contract parsedLog) (wd_Amount parsedLog + wd_Fee parsedLog) T of
                    (Some e, T) \<Rightarrow> (Some (errRuntime e), T)
                  | (None, T) \<Rightarrow> (None, AddBalance E AddrVaultContract (wd_Fee parsedLog) T)))
          else if topic = ev_ID (BridgeEventBurnedEvent abi) then
            (case ParseBridgeBurnedLog abi log of
               None \<Rightarrow> (Some errBridgeLog, T)
             | Some parsedLog \<Rightarrow>
                 (case SubBalance E (burn_Sender parsedLog) (burn_Amount parsedLog) T of
                    (Some e, T) \<Rightarrow> (Some (errRuntime e), T)
                  | (None, T) \<Rightarrow> (None, T)))
          else (None, T))"

fun bridgeLogs ::
  "('s, 't, 'n, 'v) TxnEnv \<Rightarrow> BridgeABI \<Rightarrow> Log list \<Rightarrow> ('t, 'n) Txn \<Rightarrow> state_error option \<times> ('t, 'n) Txn" where
  "bridgeLogs E abi [] T = (None, T)"
| "bridgeLogs E abi (log # logs) T =
     (case bridgeLog E abi log T of
        (Some e, T) \<Rightarrow> (Some e, T)
      | (None, T) \<Rightarrow> bridgeLogs E abi logs T)"

definition handleBridgeLogs ::
  "('s, 't, 'n, 'v) TxnEnv \<Rightarrow> BridgeABI \<Rightarrow> Transaction \<Rightarrow> Log list \<Rightarrow> ('t, 'n) Transition \<Rightarrow>
   state_error option \<times> ('t, 'n) Transition" where
  "handleBridgeLogs E abi tx logs t =
     (if logs = [] \<or> tx_To tx = None \<or> tx_To tx \<noteq> Some AddrBridgeContract then (None, t)
      else let (e, T) = bridgeLogs E abi logs (tr_state t) in (e, t\<lparr>tr_state := T\<rparr>))"

section \<open>Writing a transaction\<close>

text \<open>The sender is recovered from the signature unless it is already set.\<close>

definition resolveSender ::
  "('s, 't, 'n, 'v, 'k) Platform \<Rightarrow> ('t, 'n) Executor \<Rightarrow> Transaction \<Rightarrow> ('t, 'n) Transition \<Rightarrow>
   (apply_error + Transaction) option" where
  "resolveSender N x tx t =
     (if tx_From tx = 0 then
        (case Sender (env_rlp (pf_env N)) (pf_curve N) (env_crypto (pf_env N))
                (NewSigner (tr_config t) (word_of_int (ex_chainID x))) tx of
           Inl goPanic \<Rightarrow> None
         | Inl e \<Rightarrow> Some (Inl (TransitionApplicationError (errSender e) False))
         | Inr from \<Rightarrow> Some (Inr (tx\<lparr>tx_From := from\<rparr>)))
      else Some (Inr tx))"

definition WriteFailedReceipt ::
  "('s, 't, 'n, 'v, 'k) Platform \<Rightarrow> ('t, 'n) Executor \<Rightarrow> Transaction \<Rightarrow> ('t, 'n) Transition \<Rightarrow>
   (apply_error + ('t, 'n) Transition \<times> Transaction) option" where
  "WriteFailedReceipt N x tx t =
     (case resolveSender N x tx t of
        None \<Rightarrow> None
      | Some (Inl e) \<Rightarrow> Some (Inl e)
      | Some (Inr tx) \<Rightarrow>
          let E = pf_env N;
              (txHash, tx) = Transaction_Hash (env_rlp E) (env_crypto E) tx;
              (logs, T) = Logs E (tr_state t);
              receipt = emptyReceipt\<lparr>rc_CumulativeGasUsed := tr_totalGas t, rc_TxHash := txHash, rc_Logs := logs\<rparr>;
              receipt = SetStatus ReceiptFailed (receipt\<lparr>rc_LogsBloom := CreateBloom (env_crypto E) [receipt]\<rparr>);
              receipt = receipt\<lparr>rc_ContractAddress :=
                (if tx_To tx = None then Some (CreateAddress (env_crypto E) (tx_From tx) (tx_Nonce tx)) else None)\<rparr>
          in Some (Inr (t\<lparr>tr_state := T, tr_receipts := tr_receipts t @ [receipt]\<rparr>, tx)))"

text \<open>The end of a transaction: before Byzantium the changes are committed and the receipt carries the root.\<close>

definition finishTransaction ::
  "('s, 't, 'n, 'v) TxnEnv \<Rightarrow> ExecutionResult \<Rightarrow> Receipt \<Rightarrow> ('t, 'n) Transition \<Rightarrow> (Receipt \<times> ('t, 'n) Transition) option" where
  "finishTransaction E result receipt t =
     (if Byzantium (tr_config t) then
        map_option (\<lambda>T. (SetStatus (if Failed result then ReceiptFailed else ReceiptSuccess) receipt, t\<lparr>tr_state := T\<rparr>))
          (CleanDeleteObjects E True (tr_state t))
      else
        map_option (\<lambda>(objs, T).
            let (ss, aux) = Snapshot_Commit E (txn_snapshot T) objs
            in (receipt\<lparr>rc_Root := BytesToHash aux\<rparr>, t\<lparr>tr_state := newTxn E ss\<rparr>))
          (Txn_Commit E (EIP155 (tr_config t)) (tr_state t)))"

definition Write ::
  "('s, 't, 'n, 'v, 'k) Platform \<Rightarrow> ('t, 'n) Executor \<Rightarrow> Transaction \<Rightarrow> ('t, 'n) Transition \<Rightarrow>
   (apply_error + ('t, 'n) Transition \<times> Transaction) option" where
  "Write N x tx t =
     (case resolveSender N x tx t of
        None \<Rightarrow> None
      | Some (Inl e) \<Rightarrow> Some (Inl e)
      | Some (Inr tx) \<Rightarrow>
      let m = Transaction_Copy tx in
      case Apply N x m t of
        None \<Rightarrow> None
      | Some (Inl e, t) \<Rightarrow> Some (Inl e)
      | Some (Inr result, t) \<Rightarrow>
          let E = pf_env N;
              t = t\<lparr>tr_totalGas := tr_totalGas t + GasUsed result\<rparr>;
              (logs, T) = Logs E (tr_state t);
              (txHash, tx) = Transaction_Hash (env_rlp E) (env_crypto E) tx;
              receipt = emptyReceipt\<lparr>rc_CumulativeGasUsed := tr_totalGas t, rc_TxHash := txHash,
                          rc_GasUsed := GasUsed result\<rparr> in
          finishTransaction E result receipt (t\<lparr>tr_state := T\<rparr>) \<bind> (\<lambda>(receipt, t).
            let receipt = receipt\<lparr>rc_ContractAddress :=
                 (if tx_To m = None then Some (CreateAddress (env_crypto E) (tx_From m) (tx_Nonce tx)) else None)\<rparr> in
            case handleBridgeLogs E (pf_abi N) m logs t of
              (Some e, t) \<Rightarrow> Some (Inl (PlainError e))
            | (None, t) \<Rightarrow>
                let receipt = receipt\<lparr>rc_Logs := logs\<rparr>;
                    receipt = receipt\<lparr>rc_LogsBloom := CreateBloom (env_crypto E) [receipt]\<rparr>
                in Some (Inr (t\<lparr>tr_receipts := tr_receipts t @ [receipt]\<rparr>, tx))))"

section \<open>Blocks\<close>

definition BeginTxn ::
  "('s, 't, 'n, 'v, 'k) Platform \<Rightarrow> ('t, 'n) Executor \<Rightarrow> hash \<Rightarrow> Header \<Rightarrow> address \<Rightarrow> ('t, 'n) Transition option" where
  "BeginTxn N x parentRoot header coinbaseReceiver =
     (case NewSnapshotAt (pf_env N) parentRoot of
        None \<Rightarrow> None
      | Some auxSnap2 \<Rightarrow>
          Some \<lparr>tr_config = Forks_At (ex_forks x) (hd_Number header), tr_state = newTxn (pf_env N) auxSnap2,
                tr_getHash = ex_GetHash x header,
                tr_ctx = \<lparr>GasPrice = 0, Origin_ctx = 0, Coinbase = coinbaseReceiver, Number = sint (hd_Number header),
                          Timestamp = sint (hd_Timestamp header), GasLimit = sint (hd_GasLimit header),
                          ChainID = ex_chainID x,
                          Difficulty = BytesToHash (Bytes (uint (hd_Difficulty header)))\<rparr>,
                tr_gasPool = hd_GasLimit header, tr_receipts = [], tr_totalGas = 0\<rparr>)"

text \<open>\<open>i\<close> counts the transactions, \<open>PlainError ErrExecutionStop\<close> is the error of a stopped executor.\<close>

fun ProcessTransactions ::
  "('s, 't, 'n, 'v, 'k) Platform \<Rightarrow> ('t, 'n) Executor \<Rightarrow> nat \<Rightarrow> u64 \<Rightarrow> Transaction list \<Rightarrow> ('t, 'n) Transition \<Rightarrow>
   (apply_error + ('t, 'n) Transition) option" where
  "ProcessTransactions N x i gasLimit [] t = Some (Inr t)"
| "ProcessTransactions N x i gasLimit (tx # txs) t =
     (if ex_stopped x i then Some (Inl (PlainError ErrExecutionStop))
      else case (if ExceedsBlockGasLimit gasLimit tx then WriteFailedReceipt N x tx t else Write N x tx t) of
        None \<Rightarrow> None
      | Some (Inl e) \<Rightarrow> Some (Inl e)
      | Some (Inr (t, _)) \<Rightarrow> ProcessTransactions N x (i + 1) gasLimit txs t)"

text \<open>\<open>Inl None\<close> is the error of \<open>BeginTxn\<close>.\<close>

definition ProcessBlock ::
  "('s, 't, 'n, 'v, 'k) Platform \<Rightarrow> ('t, 'n) Executor \<Rightarrow> hash \<Rightarrow> Block \<Rightarrow> address \<Rightarrow>
   (apply_error option + ('t, 'n) Transition) option" where
  "ProcessBlock N x parentRoot block blockCreator =
     (case BeginTxn N x parentRoot (bl_Header block) blockCreator of
        None \<Rightarrow> Some (Inl None)
      | Some t \<Rightarrow>
          map_option (map_sum Some id)
            (ProcessTransactions N x 0 (hd_GasLimit (bl_Header block)) (bl_Transactions block) t))"

definition Transition_Commit ::
  "('s, 't, 'n, 'v) TxnEnv \<Rightarrow> ('t, 'n) Transition \<Rightarrow> ('n \<times> hash) option" where
  "Transition_Commit E t =
     map_option (\<lambda>(objs, T). let (s2, root) = Snapshot_Commit E (txn_snapshot T) objs in (s2, BytesToHash root))
       (Txn_Commit E (EIP155 (tr_config t)) (tr_state t))"

section \<open>Genesis\<close>

text \<open>The allocation is a Go map; the list is the order in which it is traversed.\<close>

definition genesisAccount :: "('s, 't, 'n, 'v) TxnEnv \<Rightarrow> address \<times> GenesisAccount \<Rightarrow> ('t, 'n) Txn \<Rightarrow> ('t, 'n) Txn" where
  "genesisAccount E a T =
     (let (addr, account) = a;
          T = (case ga_Balance account of Some b \<Rightarrow> AddBalance E addr b T | None \<Rightarrow> T);
          T = (if ga_Nonce account \<noteq> 0 then SetNonce E addr (ga_Nonce account) T else T);
          T = (if ga_Code account \<noteq> [] then SetCode E addr (ga_Code account) T else T)
      in fold (\<lambda>(key, val). SetState E addr key val) (ga_Storage account) T)"

definition WriteGenesis ::
  "('s, 't, 'n, 'v) TxnEnv \<Rightarrow> (address \<times> GenesisAccount) list \<Rightarrow> hash option" where
  "WriteGenesis E alloc =
     map_option (\<lambda>(objs, T). BytesToHash (snd (Snapshot_Commit E (NewSnapshot E) objs)))
       (Txn_Commit E False (fold (genesisAccount E) alloc (newTxn E (NewSnapshot E))))"

text \<open>A nil balance panics in \<open>SetBalance\<close>.\<close>

definition SetAccountDirectly ::
  "('s, 't, 'n, 'v) TxnEnv \<Rightarrow> address \<Rightarrow> GenesisAccount \<Rightarrow> ('t, 'n) Transition \<Rightarrow> (state_error + ('t, 'n) Transition) option" where
  "SetAccountDirectly E addr account t =
     (if Exist E (tr_state t) addr then Some (Inl errAccountExists)
      else
        let T = SetCode E addr (ga_Code account) (tr_state t);
            T = fold (\<lambda>(key, val) T. snd (Txn_SetStorage E addr key val (tr_config t) T)) (ga_Storage account) T
        in case ga_Balance account of
             None \<Rightarrow> None
           | Some b \<Rightarrow> Some (Inr (t\<lparr>tr_state := SetNonce E addr (ga_Nonce account) (SetBalance E addr b T)\<rparr>)))"

end
