(* ===== verification/Processor_Laws.thy ===== *)
theory Processor_Laws
  imports Processor
begin

text \<open>
  What holds of the processing of transactions and blocks: the intrinsic gas against its formula over the
  numbers, the checks of \<open>apply\<close> against the consensus rules, the gas pool and the receipts of a block,
  and the supply of native tokens.
\<close>

section \<open>Intrinsic gas\<close>

definition intrinsicGas :: "Transaction \<Rightarrow> bool \<Rightarrow> bool \<Rightarrow> nat" where
  "intrinsicGas tx isHomestead isIstanbul =
     (if tx_To tx = None \<and> isHomestead then 53000 else 21000)
     + 4 * length (filter (\<lambda>b. b = 0) (tx_Input tx))
     + (if isIstanbul then 16 else 68) * length (filter (\<lambda>b. b \<noteq> 0) (tx_Input tx))"

lemma u64_bound: "unat (w :: u64) \<le> 2 ^ 64 - 1"
  using unat_lt_2p [of w] by simp

lemma nat_overflow: "c \<le> 2 ^ 64 - 1 \<Longrightarrow> 2 ^ 64 - 1 - c < p \<longleftrightarrow> 2 ^ 64 \<le> c + (p :: nat)"
  by auto

lemma overflow_check:
  fixes cost n k :: u64
  assumes "0 < k"
  shows "(- 1 - cost) div k < n \<longleftrightarrow> 2 ^ 64 \<le> unat cost + unat n * unat k"
proof -
  have k: "0 < unat k" using assms by (simp add: word_less_nat_alt)
  have m: "unat (- 1 - cost) = 2 ^ 64 - 1 - unat cost"
    by (subst unat_sub) (simp_all add: unsigned_minus_1_eq_mask mask_eq_exp_minus_1)
  have "(- 1 - cost) div k < n \<longleftrightarrow> (2 ^ 64 - 1 - unat cost) div unat k < unat n"
    by (simp only: word_less_nat_alt unat_div m)
  also have "\<dots> \<longleftrightarrow> 2 ^ 64 - 1 - unat cost < unat n * unat k"
    using k by (rule div_less_iff_less_mult)
  also have "\<dots> \<longleftrightarrow> 2 ^ 64 \<le> unat cost + unat n * unat k"
    by (rule nat_overflow [OF u64_bound])
  finally show ?thesis .
qed

lemma unat_no_overflow:
  fixes cost n k :: u64
  assumes "\<not> 2 ^ 64 \<le> unat cost + unat n * unat k"
  shows "unat (cost + n * k) = unat cost + unat n * unat k"
proof -
  have "unat n * unat k < 2 ^ 64" using assms by linarith
  then have m: "unat (n * k) = unat n * unat k" by (simp add: unat_word_ariths)
  then have "unat cost + unat (n * k) < 2 ^ 64" using assms by linarith
  then have "unat (cost + n * k) = unat cost + unat (n * k)" by (simp add: unat_word_ariths)
  with m show ?thesis by simp
qed

lemma filter_zero_length: "length (filter (\<lambda>b. b = 0) xs) + length (filter (\<lambda>b. b \<noteq> 0) xs) = length xs"
  by (rule sum_length_filter_compl)

lemma TransactionGasCost_eq:
  assumes "length (tx_Input tx) < 2 ^ 64"
  shows "TransactionGasCost tx h i =
    (if intrinsicGas tx h i < 2 ^ 64 then Inr (word_of_nat (intrinsicGas tx h i)) else Inl ErrIntrinsicGasOverflow)"
proof -
  define cost :: u64 where "cost = (if IsContractCreation tx \<and> h then TxGasContractCreation else TxGas)"
  define z where "z = length (filter (\<lambda>b. b = 0) (tx_Input tx))"
  define nz where "nz = length (filter (\<lambda>b. b \<noteq> 0) (tx_Input tx))"
  define k :: u64 where "k = (if i then 16 else 68)"
  have len: "z + nz = length (tx_Input tx)" unfolding z_def nz_def by (rule filter_zero_length)
  then have uz: "unat (word_of_nat z :: u64) = z" "unat (word_of_nat nz :: u64) = nz"
    using assms by (simp_all add: unat_of_nat)
  have nzw: "word_of_nat (length (tx_Input tx)) - word_of_nat z = (word_of_nat nz :: u64)" by (simp add: len [symmetric])
  have k: "0 < k" "unat k = (if i then 16 else 68)" by (simp_all add: k_def)
  have ig: "intrinsicGas tx h i = unat cost + 4 * z + unat k * nz"
    by (simp add: intrinsicGas_def cost_def z_def nz_def k IsContractCreation_def TxGas_def TxGasContractCreation_def)
  have check4: "(- 1 - c) div 4 < n \<longleftrightarrow> 2 ^ 64 \<le> unat c + unat n * 4" for c n :: u64
    using overflow_check [of 4 c n] by simp
  show ?thesis
  proof (cases "tx_Input tx = []")
    case True
    then have "intrinsicGas tx h i = unat cost" using ig by (simp add: z_def nz_def)
    with True show ?thesis using unat_lt_2p [of cost] by (simp add: TransactionGasCost_def Let_def cost_def [symmetric])
  next
    case False
    have T: "TransactionGasCost tx h i =
        (if 2 ^ 64 \<le> unat cost + nz * unat k then Inl ErrIntrinsicGasOverflow
         else if 2 ^ 64 \<le> unat (cost + word_of_nat nz * k) + z * 4 then Inl ErrIntrinsicGasOverflow
         else Inr (cost + word_of_nat nz * k + word_of_nat z * 4))"
      using False by (simp only: TransactionGasCost_def Let_def cost_def [symmetric] z_def [symmetric] nzw k_def [symmetric]
          overflow_check [OF k(1)] check4 uz if_False)
    show ?thesis
    proof (cases "2 ^ 64 \<le> unat cost + nz * unat k")
      case True
      then have "\<not> intrinsicGas tx h i < 2 ^ 64" using ig by (simp add: mult.commute)
      with T True show ?thesis by simp
    next
      case no: False
      have u: "unat (cost + word_of_nat nz * k) = unat cost + nz * unat k"
        using unat_no_overflow [of cost "word_of_nat nz" k] no uz by simp
      have "word_of_nat (intrinsicGas tx h i) = cost + word_of_nat nz * k + word_of_nat z * 4"
        by (simp add: ig algebra_simps)
      with T no u show ?thesis by (auto simp: ig algebra_simps)
    qed
  qed
qed

section \<open>The rules for accepting a transaction\<close>

text \<open>The consensus rules over the numbers themselves, in the order in which they are applied.\<close>

definition violatedRule ::
  "('s, 't, 'n, 'v) TxnEnv \<Rightarrow> Transaction \<Rightarrow> int \<Rightarrow> int \<Rightarrow> ('t, 'n) Transition \<Rightarrow> apply_error option" where
  "violatedRule E tx gasPrice val t =
     (let balance = Txn_GetBalance E (tr_state t) (tx_From tx);
          nonce = Txn_GetNonce E (tr_state t) (tx_From tx);
          fee = gasPrice * int (unat (tx_Gas tx));
          intrinsic = intrinsicGas tx (Homestead (tr_config t)) (Istanbul (tr_config t)) in
      if unat (tr_gasPool t) < 21000 then Some (AllGasUsedError ErrAllGasUsed)
      else if unat (tx_Nonce tx) < unat nonce then Some (NonceTooLowError ErrNonceIncorrect nonce)
      else if unat nonce < unat (tx_Nonce tx) then Some (NonceTooHighError ErrNonceIncorrect nonce)
      else if balance < fee then Some (TransitionApplicationError ErrNotEnoughFundsForGas True)
      else if unat (tr_gasPool t) < unat (tx_Gas tx) then Some (GasLimitReachedTransitionApplicationError ErrBlockLimitReached)
      else if 2 ^ 64 \<le> intrinsic then Some (TransitionApplicationError ErrIntrinsicGasOverflow False)
      else if unat (tx_Gas tx) < intrinsic then Some (TransitionApplicationError ErrNotEnoughIntrinsicGas False)
      else if balance - fee < val then Some (TransitionApplicationError ErrNotEnoughFundsForValue True)
      else None)"

lemma gas_underflow: "(g - c > (g :: u64)) \<longleftrightarrow> g < c"
proof (cases "g < c")
  case True
  then have "unat (g - c) = 2 ^ 64 + unat g - unat c"
    by (simp add: unat_sub_if' word_le_nat_alt word_less_nat_alt)
  moreover have "unat c < 2 ^ 64" using unat_lt_2p [of c] by simp
  ultimately show ?thesis using True by (simp add: word_less_nat_alt)
next
  case False
  then have "c \<le> g" by (simp add: not_less)
  with False word_sub_le [of c g] show ?thesis by (simp add: leD)
qed

lemma SubBalance_eq:
  assumes "radix_laws (env_tree E)" and "0 \<le> v"
  shows "Txn_GetBalance E T a < v \<Longrightarrow> SubBalance E a v T = (Some ErrNotEnoughFunds, T)"
    and "v \<le> Txn_GetBalance E T a \<Longrightarrow> fst (SubBalance E a v T) = None"
    and "v \<le> Txn_GetBalance E T a \<Longrightarrow> Txn_GetBalance E (snd (SubBalance E a v T)) a = Txn_GetBalance E T a - v"
proof -
  have "v \<noteq> 0" if "Txn_GetBalance E T a < v" using that balance_nonneg [of E T a] by linarith
  then show "Txn_GetBalance E T a < v \<Longrightarrow> SubBalance E a v T = (Some ErrNotEnoughFunds, T)"
    by (simp add: SubBalance_def)
  show none: "v \<le> Txn_GetBalance E T a \<Longrightarrow> fst (SubBalance E a v T) = None" by (simp add: SubBalance_def)
  assume v: "v \<le> Txn_GetBalance E T a"
  obtain T' where T': "SubBalance E a v T = (None, T')" using none [OF v] by (metis prod.collapse)
  from SubBalance_ok(1) [OF assms(1) T', of a] v
  show "Txn_GetBalance E (snd (SubBalance E a v T)) a = Txn_GetBalance E T a - v"
    by (auto simp: T' Txn_GetBalance_eq)
qed

lemma subGasLimitPrice_eq:
  assumes "radix_laws (env_tree E)" and "0 \<le> gasPrice"
  shows "subGasLimitPrice E tx gasPrice t =
    (if Txn_GetBalance E (tr_state t) (tx_From tx) < gasPrice * int (unat (tx_Gas tx)) then (Some ErrNotEnoughFundsForGas, t)
     else (None, t\<lparr>tr_state := snd (SubBalance E (tx_From tx) (gasPrice * int (unat (tx_Gas tx))) (tr_state t))\<rparr>))"
proof -
  define fee where "fee = gasPrice * int (unat (tx_Gas tx))"
  have fee: "0 \<le> fee" "gasPrice * uint (tx_Gas tx) = fee" using assms(2) by (simp_all add: fee_def)
  note eq = SubBalance_eq [OF assms(1) fee(1), of "tr_state t" "tx_From tx"]
  show ?thesis
  proof (cases "Txn_GetBalance E (tr_state t) (tx_From tx) < fee")
    case True
    then show ?thesis using eq(1) by (simp add: subGasLimitPrice_def fee(2) fee_def [symmetric])
  next
    case False
    then obtain T' where "SubBalance E (tx_From tx) fee (tr_state t) = (None, T')"
      using eq(2) by (metis not_less prod.collapse)
    with False show ?thesis by (simp add: subGasLimitPrice_def fee(2) fee_def [symmetric])
  qed
qed

lemma checkMessage_eq:
  assumes "radix_laws (env_tree E)" and "length (tx_Input tx) < 2 ^ 64" and "0 \<le> gasPrice"
  shows "fst (checkMessage E tx gasPrice val t) =
    (case violatedRule E tx gasPrice val t of
       Some e \<Rightarrow> Inl e
     | None \<Rightarrow> Inr (word_of_nat (unat (tx_Gas tx) - intrinsicGas tx (Homestead (tr_config t)) (Istanbul (tr_config t)))))"
proof -
  define fee where "fee = gasPrice * uint (tx_Gas tx)"
  have fee: "0 \<le> fee" "gasPrice * int (unat (tx_Gas tx)) = fee" using assms(3) by (simp_all add: fee_def)
  define ig where "ig = intrinsicGas tx (Homestead (tr_config t)) (Istanbul (tr_config t))"
  have less1: "unat (tx_Gas tx) < unat (tx_Gas tx - word_of_nat ig) \<longleftrightarrow> unat (tx_Gas tx) < ig" if "ig < 2 ^ 64"
    using that gas_underflow [of "tx_Gas tx" "word_of_nat ig"] by (simp add: word_less_nat_alt unat_of_nat)
  have bal: "gasPrice * uint (tx_Gas tx) \<le> Txn_GetBalance E (tr_state t) (tx_From tx) \<Longrightarrow>
      Txn_GetBalance E (snd (SubBalance E (tx_From tx) (gasPrice * uint (tx_Gas tx)) (tr_state t))) (tx_From tx) =
      Txn_GetBalance E (tr_state t) (tx_From tx) - gasPrice * uint (tx_Gas tx)"
    using SubBalance_eq(3) [OF assms(1) fee(1), of "tr_state t" "tx_From tx"] by (simp add: fee_def)
  show ?thesis
    by (simp add: checkMessage_def violatedRule_def nonceCheck_def Let_def TxGas_def word_less_nat_alt
        subGasLimitPrice_eq [OF assms(1,3)] subGasPool_def TransactionGasCost_eq [OF assms(2)]
        ig_def [symmetric] less1 bal not_less)
qed

section \<open>Gas of an applied transaction\<close>

lemma world_rel_ctx: "world_rel E s (t\<lparr>tr_ctx := x\<rparr>) t' \<Longrightarrow> t' = t\<lparr>tr_ctx := x, tr_state := tr_state t'\<rparr>"
  by (simp add: world_rel_def)

lemma runMessage_ok:
  assumes "EIP150 (tr_config t)"
  shows "\<exists>t' r. (case tx_To tx of
              None \<Rightarrow> Create2_tx E P pool t (tx_From tx) (tx_Input tx) val g
            | Some to \<Rightarrow> Call2 E P pool (t\<lparr>tr_state := IncrNonce E (tx_From tx) (tr_state t)\<rparr>) (tx_From tx) to (tx_Input tx) val g)
          = Some (t', r) \<and> GasLeft r \<le> g \<and> world_rel E False t t'"
proof (cases "tx_To tx")
  case None
  then show ?thesis using Create2_ok [of t E P pool "tx_From tx" "tx_Input tx" val g] assms by (auto simp: eip150_def)
next
  case (Some to)
  let ?t = "t\<lparr>tr_state := IncrNonce E (tx_From tx) (tr_state t)\<rparr>"
  have "eip150 ?t" using assms by (simp add: eip150_def)
  from Call2_ok [OF this, of E P pool "tx_From tx" to "tx_Input tx" val g] obtain t' r where
    "Call2 E P pool ?t (tx_From tx) to (tx_Input tx) val g = Some (t', r)" "GasLeft r \<le> g" "world_rel E False ?t t'" by blast
  moreover have "world_rel E False t ?t" by (simp add: world_rel_update)
  then have "world_rel E False t t'" using \<open>world_rel E False ?t t'\<close> by (rule world_rel_trans)
  ultimately show ?thesis using Some by auto
qed

lemma settleGas_ok:
  assumes "GasLeft r \<le> tx_Gas tx"
  shows "\<exists>t' r'. settleGas E tx p t r = (t', r') \<and>
    unat (GasUsed r') + unat (GasLeft r') = unat (tx_Gas tx) \<and>
    t' = t\<lparr>tr_state := tr_state t', tr_gasPool := tr_gasPool t + GasLeft r'\<rparr> \<and>
    txn_snapshots (tr_state t') = txn_snapshots (tr_state t) \<and> txn_snapshot (tr_state t') = txn_snapshot (tr_state t)"
  using UpdateGasUsed_sum(1) [OF assms] by (simp add: settleGas_def Let_def addGasPool_def)

lemma executeMessage_ok:
  assumes "EIP150 (tr_config t)" and "g \<le> tx_Gas tx"
  shows "\<exists>t' r. executeMessage N tx p v g t = Some (t', r) \<and>
    unat (GasUsed r) + unat (GasLeft r) = unat (tx_Gas tx) \<and>
    t' = t\<lparr>tr_ctx := tr_ctx t', tr_state := tr_state t', tr_gasPool := tr_gasPool t + GasLeft r\<rparr> \<and>
    prefix (txn_snapshots (tr_state t)) (txn_snapshots (tr_state t')) \<and> txn_snapshot (tr_state t') = txn_snapshot (tr_state t)"
proof -
  let ?t = "t\<lparr>tr_ctx := (tr_ctx t)\<lparr>GasPrice := BytesToHash (Bytes p), Origin_ctx := tx_From tx\<rparr>\<rparr>"
  have "EIP150 (tr_config ?t)" using assms(1) by simp
  from runMessage_ok [OF this, where tx = tx and E = "pf_env N" and P = "pf_contracts N" and pool = "pf_pool N" and val = v and g = g] obtain t1 r1 where
    run: "(case tx_To tx of
              None \<Rightarrow> Create2_tx (pf_env N) (pf_contracts N) (pf_pool N) ?t (tx_From tx) (tx_Input tx) v g
            | Some to \<Rightarrow> Call2 (pf_env N) (pf_contracts N) (pf_pool N)
                (?t\<lparr>tr_state := IncrNonce (pf_env N) (tx_From tx) (tr_state ?t)\<rparr>) (tx_From tx) to (tx_Input tx) v g)
          = Some (t1, r1)" "GasLeft r1 \<le> g" "world_rel (pf_env N) False ?t t1" by blast
  have "GasLeft r1 \<le> tx_Gas tx" using run(2) assms(2) by simp
  from settleGas_ok [OF this, of "pf_env N" p t1] obtain t2 r2 where
    s: "settleGas (pf_env N) tx p t1 r1 = (t2, r2)" "unat (GasUsed r2) + unat (GasLeft r2) = unat (tx_Gas tx)"
      "t2 = t1\<lparr>tr_state := tr_state t2, tr_gasPool := tr_gasPool t1 + GasLeft r2\<rparr>"
      "txn_snapshots (tr_state t2) = txn_snapshots (tr_state t1)" "txn_snapshot (tr_state t2) = txn_snapshot (tr_state t1)"
    by blast
  have t1: "t1 = ?t\<lparr>tr_state := tr_state t1\<rparr>" and w: "txn_snapshot (tr_state t1) = txn_snapshot (tr_state t)"
    "prefix (txn_snapshots (tr_state t)) (txn_snapshots (tr_state t1))"
    using run(3) by (simp_all add: world_rel_def)
  have "executeMessage N tx p v g t = Some (t2, r2)" using run(1) s(1) by (simp add: executeMessage_def Let_def)
  moreover have "t2 = t\<lparr>tr_ctx := tr_ctx t2, tr_state := tr_state t2, tr_gasPool := tr_gasPool t + GasLeft r2\<rparr>"
    using s(3) t1 by (cases t; cases t1; cases t2) simp
  ultimately show ?thesis using s w by auto
qed

lemma subGasLimitPrice_frame:
  assumes "subGasLimitPrice E tx p t = (e, t')"
  shows "t' = t\<lparr>tr_state := tr_state t'\<rparr> \<and> txn_snapshots (tr_state t') = txn_snapshots (tr_state t) \<and>
    txn_snapshot (tr_state t') = txn_snapshot (tr_state t)"
  using assms by (auto simp: subGasLimitPrice_def split: prod.splits option.splits dest: SubBalance_frame)

text \<open>What a check leaves of the transition, and what it has established when it passes.\<close>

definition checked :: "Transaction \<Rightarrow> ('t, 'n) Transition \<Rightarrow> ('t, 'n) Transition \<Rightarrow> bool" where
  "checked tx t t' \<longleftrightarrow> t' = t\<lparr>tr_state := tr_state t', tr_gasPool := tr_gasPool t'\<rparr> \<and>
     txn_snapshots (tr_state t') = txn_snapshots (tr_state t) \<and> txn_snapshot (tr_state t') = txn_snapshot (tr_state t)"

lemma subGasPool_SomeD:
  "subGasPool g t = Some t' \<Longrightarrow> g \<le> tr_gasPool t \<and> t' = t\<lparr>tr_gasPool := tr_gasPool t - g\<rparr>"
  by (auto simp: subGasPool_def not_less split: if_splits)

lemma checkMessage_frame:
  assumes "checkMessage E tx p v t = (res, t')"
  shows "checked tx t t'"
    and "res = Inr g \<Longrightarrow> tx_Gas tx \<le> tr_gasPool t \<and> tr_gasPool t' = tr_gasPool t - tx_Gas tx \<and> g \<le> tx_Gas tx"
proof -
  have t: "checked tx t t" by (simp add: checked_def)
  obtain e1 t1 where 1: "subGasLimitPrice E tx p t = (e1, t1)" by force
  note f1 = subGasLimitPrice_frame [OF 1]
  have c1: "checked tx t t1" using f1 by (cases t; cases t1) (simp add: checked_def)
  have c2: "checked tx t (t1\<lparr>tr_gasPool := x\<rparr>)" for x using f1 by (cases t; cases t1) (simp add: checked_def)
  have pool: "tr_gasPool t1 = tr_gasPool t" using f1 by (cases t; cases t1) simp
  note unf = assms [unfolded checkMessage_def 1 prod.case]
  show "checked tx t t'"
    using unf t c1 c2 by (auto simp: Let_def dest: subGasPool_SomeD split: if_splits option.splits sum.splits)
  show "tx_Gas tx \<le> tr_gasPool t \<and> tr_gasPool t' = tr_gasPool t - tx_Gas tx \<and> g \<le> tx_Gas tx" if "res = Inr g"
    using unf that pool by (auto simp: Let_def not_less dest: subGasPool_SomeD split: if_splits option.splits sum.splits)
qed

lemma applyMsg_ok [consumes 3, case_names rejected applied]:
  assumes eip: "EIP150 (tr_config t)" and tx: "tx_GasPrice tx = Some p" "tx_Value tx = Some v"
  obtains (rejected) e t' where "applyMsg N tx t = Some (Inl e, t')" "checked tx t t'"
  | (applied) r t' where "applyMsg N tx t = Some (Inr r, t')"
      "unat (GasUsed r) + unat (GasLeft r) = unat (tx_Gas tx)"
      "unat (tr_gasPool t') + unat (GasUsed r) = unat (tr_gasPool t)"
      "t' = t\<lparr>tr_ctx := tr_ctx t', tr_state := tr_state t', tr_gasPool := tr_gasPool t'\<rparr>"
      "prefix (txn_snapshots (tr_state t)) (txn_snapshots (tr_state t'))" "txn_snapshot (tr_state t') = txn_snapshot (tr_state t)"
proof -
  obtain res t1 where c: "checkMessage (pf_env N) tx p v t = (res, t1)" by force
  note f = checkMessage_frame [OF c]
  show ?thesis
  proof (cases res)
    case (Inl e)
    with c tx have "applyMsg N tx t = Some (Inl e, t1)" by (simp add: applyMsg_def)
    with f(1) show ?thesis by (rule_tac rejected)
  next
    case (Inr g)
    note g = f(2) [OF Inr]
    have t1: "t1 = t\<lparr>tr_state := tr_state t1, tr_gasPool := tr_gasPool t1\<rparr>" and sn:
      "txn_snapshots (tr_state t1) = txn_snapshots (tr_state t)" "txn_snapshot (tr_state t1) = txn_snapshot (tr_state t)"
      using f(1) by (simp_all add: checked_def)
    have "tr_config t1 = tr_config t" using t1 by (cases t; cases t1) simp
    with eip have "EIP150 (tr_config t1)" by simp
    from executeMessage_ok [OF this, of g tx N p v] g obtain t2 r where
      x: "executeMessage N tx p v g t1 = Some (t2, r)" "unat (GasUsed r) + unat (GasLeft r) = unat (tx_Gas tx)"
        "t2 = t1\<lparr>tr_ctx := tr_ctx t2, tr_state := tr_state t2, tr_gasPool := tr_gasPool t1 + GasLeft r\<rparr>"
        "prefix (txn_snapshots (tr_state t1)) (txn_snapshots (tr_state t2))" "txn_snapshot (tr_state t2) = txn_snapshot (tr_state t1)"
      by blast
    have "tr_gasPool t2 = tr_gasPool t1 + GasLeft r" using x(3) by (cases t1; cases t2) simp
    moreover have "unat (tr_gasPool t1) = unat (tr_gasPool t) - unat (tx_Gas tx)" "unat (tx_Gas tx) \<le> unat (tr_gasPool t)"
      using g by (simp_all add: unat_sub word_le_nat_alt)
    moreover have "unat (tr_gasPool t) < 2 ^ 64" using unat_lt_2p [of "tr_gasPool t"] by simp
    ultimately have pool: "unat (tr_gasPool t2) + unat (GasUsed r) = unat (tr_gasPool t)"
      using x(2) by (simp add: unat_word_ariths)
    have A: "applyMsg N tx t = Some (Inr r, t2)" using c Inr tx x(1) by (simp add: applyMsg_def)
    have B: "t2 = t\<lparr>tr_ctx := tr_ctx t2, tr_state := tr_state t2, tr_gasPool := tr_gasPool t2\<rparr>"
      using x(3) t1 by (cases t; cases t1; cases t2) simp
    show ?thesis by (rule applied [OF A x(2) pool B]) (use x(4,5) sn in simp_all)
  qed
qed

section \<open>Apply\<close>

lemma RevertToSnapshot_prefix:
  assumes "prefix (txn_snapshots T @ [txn_txn T]) (txn_snapshots T')" and "txn_snapshot T' = txn_snapshot T"
  shows "\<exists>T''. RevertToSnapshot (length (txn_snapshots T)) T' = Some T'' \<and> txn_txn T'' = txn_txn T \<and>
    txn_snapshot T'' = txn_snapshot T"
  using assms by (auto simp: RevertToSnapshot_def prefix_def nth_append)

text \<open>The outcome of \<open>Apply\<close> without a post hook.\<close>

lemma Apply_ok [consumes 4, case_names rejected applied]:
  assumes eip: "EIP150 (tr_config t)" and tx: "tx_GasPrice tx = Some p" "tx_Value tx = Some v" and hook: "ex_PostHook x = None"
  obtains (rejected) e t' where "Apply N x tx t = Some (Inl e, t')"
      "t' = t\<lparr>tr_state := tr_state t', tr_gasPool := tr_gasPool t'\<rparr>"
      "txn_txn (tr_state t') = txn_txn (tr_state t)" "txn_snapshot (tr_state t') = txn_snapshot (tr_state t)"
  | (applied) r t' where "Apply N x tx t = Some (Inr r, t')"
      "unat (GasUsed r) + unat (GasLeft r) = unat (tx_Gas tx)"
      "unat (tr_gasPool t') + unat (GasUsed r) = unat (tr_gasPool t)"
      "t' = t\<lparr>tr_ctx := tr_ctx t', tr_state := tr_state t', tr_gasPool := tr_gasPool t'\<rparr>"
proof -
  let ?T = "(tr_state t)\<lparr>txn_snapshots := txn_snapshots (tr_state t) @ [txn_txn (tr_state t)]\<rparr>"
  have unf: "Apply N x tx t = (case applyMsg N tx (t\<lparr>tr_state := ?T\<rparr>) of
        None \<Rightarrow> None
      | Some (Inr result, t) \<Rightarrow> Some (Inr result, t)
      | Some (Inl e, t') \<Rightarrow> map_option (\<lambda>T. (Inl e, t'\<lparr>tr_state := T\<rparr>)) (RevertToSnapshot (length (txn_snapshots (tr_state t))) (tr_state t')))"
    by (simp add: Apply_def Snapshot_def hook split: option.split prod.split sum.split)
  have "EIP150 (tr_config (t\<lparr>tr_state := ?T\<rparr>))" using eip by simp
  from this tx show ?thesis
  proof (cases rule: applyMsg_ok [where N = N])
    case (rejected e t')
    have "prefix (txn_snapshots (tr_state t) @ [txn_txn (tr_state t)]) (txn_snapshots (tr_state t'))"
      "txn_snapshot (tr_state t') = txn_snapshot (tr_state t)" using rejected(2) by (simp_all add: checked_def)
    from RevertToSnapshot_prefix [OF this] obtain T'' where T'':
      "RevertToSnapshot (length (txn_snapshots (tr_state t))) (tr_state t') = Some T''" "txn_txn T'' = txn_txn (tr_state t)"
      "txn_snapshot T'' = txn_snapshot (tr_state t)" by blast
    have "Apply N x tx t = Some (Inl e, t'\<lparr>tr_state := T''\<rparr>)" using unf rejected(1) T''(1) by simp
    moreover have "t'\<lparr>tr_state := T''\<rparr> = t\<lparr>tr_state := T'', tr_gasPool := tr_gasPool t'\<rparr>"
      using rejected(2) by (cases t; cases t') (simp add: checked_def)
    ultimately show ?thesis using T'' by (intro that(1) [of e "t'\<lparr>tr_state := T''\<rparr>"]) simp_all
  next
    case (applied r t')
    have "Apply N x tx t = Some (Inr r, t')" using unf applied(1) by simp
    moreover have "t' = t\<lparr>tr_ctx := tr_ctx t', tr_state := tr_state t', tr_gasPool := tr_gasPool t'\<rparr>"
      using applied(4) by simp
    moreover have "unat (tr_gasPool t') + unat (GasUsed r) = unat (tr_gasPool t)" using applied(3) by simp
    ultimately show ?thesis using applied(2) that(2) by blast
  qed
qed

section \<open>Writing transactions\<close>

lemma finishTransaction_ok:
  assumes "radix_laws (env_tree E)"
  shows "\<exists>r' t'. finishTransaction E result r t = Some (r', t') \<and> t' = t\<lparr>tr_state := tr_state t'\<rparr> \<and>
    rc_CumulativeGasUsed r' = rc_CumulativeGasUsed r \<and> rc_GasUsed r' = rc_GasUsed r"
proof (cases "Byzantium (tr_config t)")
  case True
  obtain T where "CleanDeleteObjects E True (tr_state t) = Some T" using CleanDeleteObjects_eq [OF assms] by blast
  with True show ?thesis by (simp add: finishTransaction_def SetStatus_def)
next
  case False
  obtain T where T: "CleanDeleteObjects E (EIP155 (tr_config t)) (tr_state t) = Some T"
    using CleanDeleteObjects_eq [OF assms] by blast
  then obtain objs where objs: "Txn_Commit E (EIP155 (tr_config t)) (tr_state t) = Some (objs, T)" by (simp add: Txn_Commit_def)
  obtain ss aux where "Snapshot_Commit E (txn_snapshot T) objs = (ss, aux)" by force
  with False objs show ?thesis by (simp add: finishTransaction_def)
qed

lemma handleBridgeLogs_frame:
  "handleBridgeLogs E abi tx logs t = (e, t') \<Longrightarrow> t' = t\<lparr>tr_state := tr_state t'\<rparr>"
  by (auto simp: handleBridgeLogs_def split: if_splits prod.splits)

lemma Copy_amounts: "\<exists>p v. tx_GasPrice (Transaction_Copy tx) = Some p \<and> tx_Value (Transaction_Copy tx) = Some v"
  by (simp add: Transaction_Copy_def)

text \<open>What a written transaction does to the transition.\<close>

definition written :: "('t, 'n) Transition \<Rightarrow> Receipt \<Rightarrow> ('t, 'n) Transition \<Rightarrow> bool" where
  "written t rc t' \<longleftrightarrow> tr_config t' = tr_config t \<and> tr_receipts t' = tr_receipts t @ [rc] \<and>
     tr_totalGas t' = tr_totalGas t + rc_GasUsed rc \<and> rc_CumulativeGasUsed rc = tr_totalGas t' \<and>
     unat (tr_gasPool t') + unat (rc_GasUsed rc) = unat (tr_gasPool t)"

lemma WriteFailedReceipt_ok:
  assumes "resolveSender N x tx t = Some res"
  shows "(\<exists>e. WriteFailedReceipt N x tx t = Some (Inl e)) \<or>
    (\<exists>t' tx' rc. WriteFailedReceipt N x tx t = Some (Inr (t', tx')) \<and> written t rc t')"
  using assms
  by (cases res) (auto simp: WriteFailedReceipt_def written_def Let_def SetStatus_def emptyReceipt_def split: prod.split)

lemma Write_ok:
  assumes laws: "radix_laws (env_tree (pf_env N))" and eip: "EIP150 (tr_config t)" and hook: "ex_PostHook x = None"
    and sender: "resolveSender N x tx t = Some res"
  shows "(\<exists>e. Write N x tx t = Some (Inl e)) \<or>
    (\<exists>t' tx' rc. Write N x tx t = Some (Inr (t', tx')) \<and> written t rc t')"
proof (cases res)
  case (Inl e)
  then show ?thesis using sender by (simp add: Write_def)
next
  case (Inr tx1)
  let ?m = "Transaction_Copy tx1"
  let ?E = "pf_env N"
  obtain p v where "tx_GasPrice ?m = Some p" "tx_Value ?m = Some v" using Copy_amounts by blast
  with eip show ?thesis using hook
  proof (cases rule: Apply_ok [where N = N])
    case (rejected e t')
    then show ?thesis using sender Inr by (simp add: Write_def)
  next
    case (applied r t1)
    define t2 where "t2 = t1\<lparr>tr_totalGas := tr_totalGas t1 + GasUsed r\<rparr>"
    obtain logs T where logs: "Logs ?E (tr_state t2) = (logs, T)" by force
    obtain h tx2 where h: "Transaction_Hash (env_rlp ?E) (env_crypto ?E) tx1 = (h, tx2)" by force
    define rc where "rc = emptyReceipt\<lparr>rc_CumulativeGasUsed := tr_totalGas t2, rc_TxHash := h, rc_GasUsed := GasUsed r\<rparr>"
    obtain rc' t3 where fin: "finishTransaction ?E r rc (t2\<lparr>tr_state := T\<rparr>) = Some (rc', t3)"
      "t3 = t2\<lparr>tr_state := tr_state t3\<rparr>" "rc_CumulativeGasUsed rc' = rc_CumulativeGasUsed rc" "rc_GasUsed rc' = rc_GasUsed rc"
      using finishTransaction_ok [OF laws, of r rc "t2\<lparr>tr_state := T\<rparr>"] by auto
    obtain e t4 where br: "handleBridgeLogs ?E (pf_abi N) ?m logs t3 = (e, t4)" by force
    note t4 = handleBridgeLogs_frame [OF br]
    have unf: "Write N x tx t = (case e of Some e \<Rightarrow> Some (Inl (PlainError e))
        | None \<Rightarrow> (let rc = rc'\<lparr>rc_ContractAddress :=
              (if tx_To ?m = None then Some (CreateAddress (env_crypto ?E) (tx_From ?m) (tx_Nonce tx2)) else None), rc_Logs := logs\<rparr>;
              rc = rc\<lparr>rc_LogsBloom := CreateBloom (env_crypto ?E) [rc]\<rparr>
            in Some (Inr (t4\<lparr>tr_receipts := tr_receipts t4 @ [rc]\<rparr>, tx2))))"
      unfolding Write_def sender Inr option.case sum.case Let_def applied(1) prod.case t2_def [symmetric] logs h
        rc_def [symmetric] fin(1) Option.bind.simps br by (simp split: option.split)
    have "tr_totalGas t2 = tr_totalGas t1 + GasUsed r" "tr_config t4 = tr_config t" "tr_receipts t4 = tr_receipts t"
      "tr_totalGas t4 = tr_totalGas t + GasUsed r" "tr_gasPool t4 = tr_gasPool t1" "tr_totalGas t1 = tr_totalGas t"
      using t4 fin(2) applied(4) t2_def by (cases t; cases t1; cases t3; cases t4; simp)+
    moreover have "rc_GasUsed rc' = GasUsed r" "rc_CumulativeGasUsed rc' = tr_totalGas t2" using fin(3,4) by (simp_all add: rc_def)
    ultimately show ?thesis using applied(3) by (cases e) (auto simp: unf Let_def written_def)
  qed
qed

section \<open>Blocks\<close>

abbreviation gasUsedSum :: "Receipt list \<Rightarrow> nat" where
  "gasUsedSum rs \<equiv> sum_list (map (\<lambda>r. unat (rc_GasUsed r)) rs)"

text \<open>The receipts \<open>rs\<close> account for all the gas that has left the pool.\<close>

definition accounted :: "('t, 'n) Transition \<Rightarrow> Receipt list \<Rightarrow> ('t, 'n) Transition \<Rightarrow> bool" where
  "accounted t rs t' \<longleftrightarrow> tr_config t' = tr_config t \<and> tr_receipts t' = tr_receipts t @ rs \<and>
     unat (tr_gasPool t') + gasUsedSum rs = unat (tr_gasPool t) \<and>
     unat (tr_totalGas t') = unat (tr_totalGas t) + gasUsedSum rs \<and>
     (\<forall>i<length rs. unat (rc_CumulativeGasUsed (rs ! i)) = unat (tr_totalGas t) + gasUsedSum (take (Suc i) rs))"

lemma accounted_Nil: "accounted t [] t"
  by (simp add: accounted_def)

lemma accounted_Cons:
  assumes "written t rc t1" and "accounted t1 rs t'" and "unat (tr_gasPool t) + unat (tr_totalGas t) < 2 ^ 64"
  shows "accounted t (rc # rs) t'"
proof -
  have w: "tr_config t1 = tr_config t" "tr_receipts t1 = tr_receipts t @ [rc]" "rc_CumulativeGasUsed rc = tr_totalGas t1"
    "unat (tr_gasPool t1) + unat (rc_GasUsed rc) = unat (tr_gasPool t)" "tr_totalGas t1 = tr_totalGas t + rc_GasUsed rc"
    using assms(1) by (simp_all add: written_def)
  have "unat (tr_totalGas t1) = unat (tr_totalGas t) + unat (rc_GasUsed rc)"
    using w(4,5) assms(3) by (simp add: unat_word_ariths)
  with assms(2) w show ?thesis by (auto simp: accounted_def nth_Cons split: nat.split)
qed

lemma resolveSender_config: "tr_config t' = tr_config t \<Longrightarrow> resolveSender N x tx t' = resolveSender N x tx t"
  by (simp add: resolveSender_def)

lemma ProcessTransactions_ok:
  assumes laws: "radix_laws (env_tree (pf_env N))" and hook: "ex_PostHook x = None"
    and "EIP150 (tr_config t)" and "\<forall>tx\<in>set txs. resolveSender N x tx t \<noteq> None" and "unat (tr_gasPool t) + unat (tr_totalGas t) < 2 ^ 64"
  shows "(\<exists>e. ProcessTransactions N x i limit txs t = Some (Inl e)) \<or>
    (\<exists>t' rs. ProcessTransactions N x i limit txs t = Some (Inr t') \<and> length rs = length txs \<and> accounted t rs t')"
  using assms(3-)
proof (induction txs arbitrary: i t)
  case Nil
  then show ?case using accounted_Nil [of t] by auto
next
  case (Cons tx txs)
  let ?w = "if ExceedsBlockGasLimit limit tx then WriteFailedReceipt N x tx t else Write N x tx t"
  obtain res where "resolveSender N x tx t = Some res" using Cons.prems(2) by auto
  then have "(\<exists>e. ?w = Some (Inl e)) \<or> (\<exists>t' tx' rc. ?w = Some (Inr (t', tx')) \<and> written t rc t')"
    using Write_ok [OF laws Cons.prems(1) hook] WriteFailedReceipt_ok by (simp del: not_None_eq) blast
  then consider (error) e where "?w = Some (Inl e)" | (ok) t1 tx' rc where "?w = Some (Inr (t1, tx'))" "written t rc t1" by blast
  then show ?case
  proof cases
    case error
    then show ?thesis by simp
  next
    case ok
    have t1: "tr_config t1 = tr_config t" "unat (tr_gasPool t1) + unat (rc_GasUsed rc) = unat (tr_gasPool t)"
      "unat (tr_totalGas t1) \<le> unat (tr_totalGas t) + unat (rc_GasUsed rc)"
      using ok(2) unat_plus_if' [of "tr_totalGas t" "rc_GasUsed rc"] by (auto simp: written_def)
    then have "EIP150 (tr_config t1)" "unat (tr_gasPool t1) + unat (tr_totalGas t1) < 2 ^ 64"
      "\<forall>tx\<in>set txs. resolveSender N x tx t1 \<noteq> None"
      using Cons.prems by (simp_all add: resolveSender_config [OF t1(1)])
    from Cons.IH [OF this(1,3,2), of "i + 1"] consider
      (error) e where "ProcessTransactions N x (i + 1) limit txs t1 = Some (Inl e)"
    | (all) t' rs where "ProcessTransactions N x (i + 1) limit txs t1 = Some (Inr t')" "length rs = length txs" "accounted t1 rs t'"
      by auto
    then show ?thesis
    proof cases
      case error
      with ok(1) show ?thesis by simp
    next
      case all
      with ok(1) accounted_Cons [OF ok(2) all(3) Cons.prems(3)] show ?thesis
        by (cases "ex_stopped x i") (auto intro!: exI [of _ "rc # rs"])
    qed
  qed
qed

section \<open>Money\<close>

text \<open>The native tokens that an event of the bridge brings into the ledger.\<close>

definition bridgeIssue :: "BridgeABI \<Rightarrow> Log \<Rightarrow> int" where
  "bridgeIssue abi log =
     (case log_Topics log of
        [] \<Rightarrow> 0
      | topic # _ \<Rightarrow>
          if topic = ev_ID (BridgeDepositedEvent abi) then (case ParseBridgeDepositedLog abi log of Some p \<Rightarrow> dep_Amount p | None \<Rightarrow> 0)
          else if topic = ev_ID (BridgeWithdrawnEvent abi) then (case ParseBridgeWithdrawnLog abi log of Some p \<Rightarrow> - wd_Amount p | None \<Rightarrow> 0)
          else if topic = ev_ID (BridgeEventBurnedEvent abi) then (case ParseBridgeBurnedLog abi log of Some p \<Rightarrow> - burn_Amount p | None \<Rightarrow> 0)
          else 0)"

text \<open>The amounts of the events are of type \<open>uint256\<close>, which the decoder yields as non-negative numbers.\<close>

definition abi_unsigned :: "BridgeABI \<Rightarrow> bool" where
  "abi_unsigned abi \<longleftrightarrow> (\<forall>log p. ParseBridgeDepositedLog abi log = Some p \<longrightarrow> 0 \<le> dep_Amount p) \<and>
     (\<forall>log p. ParseBridgeWithdrawnLog abi log = Some p \<longrightarrow> 0 \<le> wd_Fee p)"

lemma bridgeLog_supply:
  assumes "radix_laws (env_tree E)" and "abi_unsigned abi" and "bridgeLog E abi log T = (None, T')"
  shows "totalSupply E T' = totalSupply E T + bridgeIssue abi log"
  using assms(2,3)
  by (auto simp: bridgeLog_def bridgeIssue_def abi_unsigned_def supply_AddBalance [OF assms(1)]
      split: list.splits if_splits option.splits prod.splits dest: supply_SubBalance [OF assms(1)])

lemma bridgeLogs_supply:
  assumes "radix_laws (env_tree E)" and "abi_unsigned abi"
  shows "bridgeLogs E abi logs T = (None, T') \<Longrightarrow> totalSupply E T' = totalSupply E T + sum_list (map (bridgeIssue abi) logs)"
proof (induction logs arbitrary: T)
  case (Cons log logs)
  then obtain T1 where "bridgeLog E abi log T = (None, T1)" "bridgeLogs E abi logs T1 = (None, T')"
    by (auto split: prod.splits option.splits)
  then show ?case using Cons.IH bridgeLog_supply [OF assms] by simp
qed simp

lemma handleBridgeLogs_supply:
  assumes "radix_laws (env_tree E)" and "abi_unsigned abi" and "handleBridgeLogs E abi tx logs t = (None, t')"
  shows "totalSupply E (tr_state t') = totalSupply E (tr_state t) +
    (if tx_To tx = Some AddrBridgeContract then sum_list (map (bridgeIssue abi) logs) else 0)"
  using assms(3) bridgeLogs_supply [OF assms(1,2), of logs "tr_state t"]
  by (auto simp: handleBridgeLogs_def split: if_splits prod.splits)

text \<open>What \<open>apply\<close> takes from the sender for the gas it gives back to the sender and to the coinbase.\<close>

lemma settleGas_supply:
  assumes "radix_laws (env_tree E)" and "0 \<le> p" and "settleGas E tx p t r = (t', r')"
  shows "totalSupply E (tr_state t') = totalSupply E (tr_state t) + p * (uint (GasUsed r') + uint (GasLeft r'))"
  using assms(2,3) by (auto simp: settleGas_def Let_def addGasPool_def supply_AddBalance [OF assms(1)] algebra_simps)

section \<open>Properties\<close>

definition demoABI :: BridgeABI where
  "demoABI =
     \<lparr>BridgeDepositedEvent = \<lparr>ev_ID = 1, ev_ParseLog = (\<lambda>_ _ data. Some [''receiver'' \<mapsto> W3Address 11, ''amount'' \<mapsto> W3BigInt (SetBytes data)])\<rparr>,
      BridgeWithdrawnEvent = \<lparr>ev_ID = 2, ev_ParseLog = (\<lambda>_ _ data. Some [''amount'' \<mapsto> W3BigInt (SetBytes data), ''fee'' \<mapsto> W3BigInt 1])\<rparr>,
      BridgeEventBurnedEvent = \<lparr>ev_ID = 3, ev_ParseLog = (\<lambda>_ _ data. Some [''sender'' \<mapsto> W3Address 10, ''amount'' \<mapsto> W3BigInt (SetBytes data)])\<rparr>\<rparr>"

definition demoPlatform :: "(slots, accounts, unit, rlpv, unit) Platform" where
  "demoPlatform = \<lparr>pf_env = demoEnv, pf_contracts = demoContracts, pf_pool = demoPool, pf_curve = demoBtcec, pf_abi = demoABI\<rparr>"

definition demoExecutor :: "(accounts, unit) Executor" where
  "demoExecutor = \<lparr>ex_forks = AllForksEnabled, ex_chainID = 2000, ex_GetHash = (\<lambda>_ _. 0), ex_stopped = (\<lambda>_. False), ex_PostHook = None\<rparr>"

lemma demoABI_unsigned: "abi_unsigned demoABI"
  by (auto simp: abi_unsigned_def demoABI_def ParseBridgeDepositedLog_def ParseBridgeWithdrawnLog_def parseWith_def
      getAddressField_def getBigIntFromWithdrawnLog_def SetBytes_def)

text \<open>C20: The intrinsic gas of a transaction is exactly 21000 (53000 for a contract creation from Homestead on)
  plus 4 for each zero byte and 16 (68 before Istanbul) for each other byte of its input, computed without
  wrap-around: \<open>TransactionGasCost\<close> returns that number when it fits into 64 bits and
  \<open>ErrIntrinsicGasOverflow\<close> when it does not.\<close>

theorem TransactionGasCost_exact:
  assumes "length (tx_Input tx) < 2 ^ 64"
  shows "TransactionGasCost tx h i =
    (if intrinsicGas tx h i < 2 ^ 64 then Inr (word_of_nat (intrinsicGas tx h i)) else Inl ErrIntrinsicGasOverflow)"
  using assms by (rule TransactionGasCost_eq)

theorem TransactionGasCost_exact_witness:
  "TransactionGasCost demoTx True True = Inr 21020 \<and> TransactionGasCost (demoTx\<lparr>tx_To := None\<rparr>) True False = Inr 53072"
  using TransactionGasCost_exact [of demoTx True True] TransactionGasCost_exact [of "demoTx\<lparr>tx_To := None\<rparr>" True False]
  by (simp add: demoTx_def intrinsicGas_def)

text \<open>C19: The checks that \<open>apply\<close> makes on 64-bit words and balances, with its subtractions on the way, decide
  exactly the consensus rules over the numbers themselves (gas left in the block, nonce, up-front cost of
  the gas, block gas limit, intrinsic gas, value), report the first rule that is violated, and otherwise
  leave the gas limit minus the intrinsic gas for execution.\<close>

theorem checkMessage_correct:
  assumes "radix_laws (env_tree E)" and "length (tx_Input tx) < 2 ^ 64" and "0 \<le> gasPrice"
  shows "fst (checkMessage E tx gasPrice val t) =
    (case violatedRule E tx gasPrice val t of
       Some e \<Rightarrow> Inl e
     | None \<Rightarrow> Inr (word_of_nat (unat (tx_Gas tx) - intrinsicGas tx (Homestead (tr_config t)) (Istanbul (tr_config t)))))"
  using assms by (rule checkMessage_eq)

theorem checkMessage_correct_witness:
  "fst (checkMessage demoEnv demoTx 2 7 demoTransition) = Inl (AllGasUsedError ErrAllGasUsed)"
  using checkMessage_correct [OF demoEnv_laws(2), of demoTx 2 7 demoTransition]
  by (simp add: demoTx_def demoTransition_def violatedRule_def)

text \<open>C18: From EIP-150 on \<open>Apply\<close> returns for every message, and the block's gas pool is charged exactly: either
  the message is rejected, and the account state, the receipts and the gas total are as before, or it is
  executed, the gas used and the gas left add up to the gas limit of the message, and the pool has lost
  exactly the gas used.\<close>

theorem Apply_accounts_gas:
  assumes "EIP150 (tr_config t)" and "tx_GasPrice tx = Some p" and "tx_Value tx = Some v" and "ex_PostHook x = None"
  shows "\<exists>res t'. Apply N x tx t = Some (res, t') \<and> tr_receipts t' = tr_receipts t \<and> tr_totalGas t' = tr_totalGas t \<and>
    (case res of
       Inl e \<Rightarrow> txn_txn (tr_state t') = txn_txn (tr_state t) \<and> txn_snapshot (tr_state t') = txn_snapshot (tr_state t)
     | Inr r \<Rightarrow> unat (GasUsed r) + unat (GasLeft r) = unat (tx_Gas tx) \<and>
         unat (tr_gasPool t') + unat (GasUsed r) = unat (tr_gasPool t))"
  using assms
proof (cases rule: Apply_ok [where N = N])
  case (rejected e t')
  then have "tr_receipts t' = tr_receipts t \<and> tr_totalGas t' = tr_totalGas t" by (cases t; cases t') simp
  with rejected show ?thesis by auto
next
  case (applied r t')
  then have "tr_receipts t' = tr_receipts t \<and> tr_totalGas t' = tr_totalGas t" by (cases t; cases t') simp
  with applied show ?thesis by auto
qed

theorem Apply_accounts_gas_witness:
  "\<exists>res t'. Apply demoPlatform demoExecutor demoTx (demoTransition\<lparr>tr_gasPool := 200000\<rparr>) = Some (res, t') \<and>
    tr_receipts t' = [] \<and> tr_totalGas t' = 0"
proof -
  have "EIP150 (tr_config (demoTransition\<lparr>tr_gasPool := 200000\<rparr>))" by simp
  from Apply_accounts_gas [OF this, of demoTx 2 7 demoExecutor demoPlatform] show ?thesis
    by (auto simp: demoTx_def demoExecutor_def demoTransition_def)
qed


definition demoBlock :: Block where
  "demoBlock = \<lparr>bl_Header = emptyHeader\<lparr>hd_GasLimit := 5000\<rparr>, bl_Transactions = [demoTx], bl_Uncles = []\<rparr>"

lemma demoBlock_processed:
  "\<exists>t t'. BeginTxn demoPlatform demoExecutor 0 (bl_Header demoBlock) 3 = Some t \<and> EIP150 (tr_config t) \<and>
    ProcessBlock demoPlatform demoExecutor 0 demoBlock 3 = Some (Inr t')"
proof -
  have "BeginTxn demoPlatform demoExecutor 0 (bl_Header demoBlock) 3 \<noteq> None"
    by (simp add: BeginTxn_def demoPlatform_def demoEnv_def)
  then obtain t where t: "BeginTxn demoPlatform demoExecutor 0 (bl_Header demoBlock) 3 = Some t" by auto
  then have "EIP150 (tr_config t)"
    by (auto simp: BeginTxn_def demoExecutor_def Forks_At_def AllForksEnabled_def forks_active_def Fork_Active_def split: option.splits)
  moreover have s: "resolveSender demoPlatform demoExecutor demoTx t' = Some (Inr demoTx)" for t'
    by (simp add: resolveSender_def demoTx_def)
  have "\<exists>t'. ProcessBlock demoPlatform demoExecutor 0 demoBlock 3 = Some (Inr t')"
    using t by (simp add: ProcessBlock_def demoBlock_def demoExecutor_def [THEN arg_cong, of ex_stopped] ExceedsBlockGasLimit_def
        WriteFailedReceipt_def s Let_def demoTx_def [THEN arg_cong, of tx_Gas] split: prod.split)
  ultimately show ?thesis using t by blast
qed


end
