(* ===== verification/Ledger.thy ===== *)
theory Ledger
  imports Processor_Laws
begin

text \<open>
  No inflation: from the virtual machine up to the processing of a block, nothing but the events of the
  bridge contract raises the supply of native tokens.  The supply lemmas of the machine and of nested calls come
  from the interpretation of \<open>vm_host\<close> in \<open>Executor_Host\<close>; here the fees, the end of a transaction and
  the bridge are added.
\<close>

section \<open>One message\<close>

lemma fine_world_ctx [simp]:
  "fine_world E pool (t\<lparr>tr_ctx := (tr_ctx t)\<lparr>GasPrice := p, Origin_ctx := a\<rparr>\<rparr>) = fine_world E pool t"
  "fine_world E pool (t\<lparr>tr_state := T\<rparr>) = fine_world E pool t"
  by (simp_all add: fine_world_def)

lemma checkMessage_supply:
  assumes "radix_laws (env_tree E)" and "checkMessage E tx p v t = (Inr g, t')"
  shows "totalSupply E (tr_state t') = totalSupply E (tr_state t) - p * uint (tx_Gas tx)"
proof -
  obtain e1 t1 where 1: "subGasLimitPrice E tx p t = (e1, t1)" by force
  from assms(2) have "e1 = None" and t': "tr_state t' = tr_state t1"
    by (auto simp: checkMessage_def 1 Let_def dest!: subGasPool_SomeD split: if_splits option.splits sum.splits)
  then have "SubBalance E (tx_From tx) (p * uint (tx_Gas tx)) (tr_state t) = (None, tr_state t1)"
    using 1 by (auto simp: subGasLimitPrice_def split: prod.splits option.splits)
  from supply_SubBalance [OF assms(1) this] t' show ?thesis by simp
qed

lemma runMessage_supply:
  assumes "EIP150 (tr_config t)" and fine: "fine_world E pool t" and "0 \<le> val"
    and "(case tx_To tx of
              None \<Rightarrow> Create2_tx E P pool t (tx_From tx) (tx_Input tx) val g
            | Some to \<Rightarrow> Call2 E P pool (t\<lparr>tr_state := IncrNonce E (tx_From tx) (tr_state t)\<rparr>) (tx_From tx) to (tx_Input tx) val g)
          = Some (t', r)"
  shows "keeps_supply E t t' \<and> GasLeft r \<le> g"
proof (cases "tx_To tx")
  case None
  with assms Create2_ok [of t E P pool "tx_From tx" "tx_Input tx" val g] show ?thesis by (auto simp: eip150_def)
next
  case (Some to)
  let ?t = "t\<lparr>tr_state := IncrNonce E (tx_From tx) (tr_state t)\<rparr>"
  have "eip150 ?t" "keeps_supply E t ?t"
    using assms(1) fine by (simp_all add: eip150_def keeps_supply_def supply_ops fine_world_def)
  with Some assms Call2_ok [of ?t E P pool "tx_From tx" to "tx_Input tx" val g] keeps_supply_trans
  show ?thesis by auto
qed

lemma executeMessage_supply:
  assumes "EIP150 (tr_config t)" and fine: "fine_world (pf_env N) (pf_pool N) t" and "0 \<le> val" "0 \<le> p" and g: "g \<le> tx_Gas tx"
    and ex: "executeMessage N tx p val g t = Some (t', r)"
  shows "totalSupply (pf_env N) (tr_state t') \<le> totalSupply (pf_env N) (tr_state t) + p * uint (tx_Gas tx) \<and>
    fine_world (pf_env N) (pf_pool N) t'"
proof -
  let ?E = "pf_env N"
  let ?t = "t\<lparr>tr_ctx := (tr_ctx t)\<lparr>GasPrice := BytesToHash (Bytes p), Origin_ctx := tx_From tx\<rparr>\<rparr>"
  note laws = fine_world_radix [OF fine]
  from ex obtain t1 r1 where run: "(case tx_To tx of
              None \<Rightarrow> Create2_tx ?E (pf_contracts N) (pf_pool N) ?t (tx_From tx) (tx_Input tx) val g
            | Some to \<Rightarrow> Call2 ?E (pf_contracts N) (pf_pool N)
                (?t\<lparr>tr_state := IncrNonce ?E (tx_From tx) (tr_state ?t)\<rparr>) (tx_From tx) to (tx_Input tx) val g)
          = Some (t1, r1)" and s: "settleGas ?E tx p t1 r1 = (t', r)"
    by (auto simp: executeMessage_def Let_def)
  have f: "EIP150 (tr_config ?t)" "fine_world ?E (pf_pool N) ?t" using assms(1) fine by simp_all
  from runMessage_supply [OF f assms(3) run] have k: "keeps_supply ?E ?t t1" "GasLeft r1 \<le> g" by simp_all
  have "GasLeft r1 \<le> tx_Gas tx" using k(2) g by simp
  from settleGas_ok [OF this, of ?E p t1] s have sum: "unat (GasUsed r) + unat (GasLeft r) = unat (tx_Gas tx)"
    and ctx: "tr_ctx t' = tr_ctx t1" by (auto simp: settleGas_def Let_def addGasPool_def)
  from sum have "uint (GasUsed r) + uint (GasLeft r) = uint (tx_Gas tx)" by (metis of_nat_add uint_nat)
  with settleGas_supply [OF laws assms(4) s] k(1)
  have "totalSupply ?E (tr_state t') \<le> totalSupply ?E (tr_state t) + p * uint (tx_Gas tx)" by (simp add: keeps_supply_def)
  moreover have "fine_world ?E (pf_pool N) t1" using fine_world_keeps [OF f(2) k(1)] .
  with ctx have "fine_world ?E (pf_pool N) t'" by (simp add: fine_world_def)
  ultimately show ?thesis ..
qed

definition unsigned_tx :: "Transaction \<Rightarrow> bool" where
  "unsigned_tx tx \<longleftrightarrow> (\<forall>p. tx_GasPrice tx = Some p \<longrightarrow> 0 \<le> p) \<and> (\<forall>v. tx_Value tx = Some v \<longrightarrow> 0 \<le> v)"

lemma applyMsg_supply:
  assumes "EIP150 (tr_config t)" and fine: "fine_world (pf_env N) (pf_pool N) t" and "unsigned_tx tx"
    and "applyMsg N tx t = Some (Inr r, t')"
  shows "totalSupply (pf_env N) (tr_state t') \<le> totalSupply (pf_env N) (tr_state t) \<and> fine_world (pf_env N) (pf_pool N) t'"
proof -
  from assms(4) obtain p v g t1 where tx: "tx_GasPrice tx = Some p" "tx_Value tx = Some v" and
    c: "checkMessage (pf_env N) tx p v t = (Inr g, t1)" and ex: "executeMessage N tx p v g t1 = Some (t', r)"
    by (auto simp: applyMsg_def split: option.splits prod.splits sum.splits)
  note f = checkMessage_frame [OF c]
  have t1: "t1 = t\<lparr>tr_state := tr_state t1, tr_gasPool := tr_gasPool t1\<rparr>" using f(1) by (simp add: checked_def)
  then have "tr_config t1 = tr_config t" "tr_ctx t1 = tr_ctx t" by (cases t; cases t1; simp)+
  with assms(1) fine have "EIP150 (tr_config t1)" "fine_world (pf_env N) (pf_pool N) t1" by (simp_all add: fine_world_def)
  moreover have "0 \<le> v" "0 \<le> p" using assms(3) tx by (simp_all add: unsigned_tx_def)
  ultimately show ?thesis
    using executeMessage_supply [OF _ _ _ _ _ ex] f(2) checkMessage_supply [OF fine_world_radix [OF fine] c] by fastforce
qed

lemma Apply_supply:
  assumes eip: "EIP150 (tr_config t)" and fine: "fine_world (pf_env N) (pf_pool N) t" and "unsigned_tx tx"
    and hook: "ex_PostHook x = None" and app: "Apply N x tx t = Some (res, t')"
  shows "totalSupply (pf_env N) (tr_state t') \<le> totalSupply (pf_env N) (tr_state t) \<and> fine_world (pf_env N) (pf_pool N) t'"
proof -
  let ?E = "pf_env N"
  let ?T = "(tr_state t)\<lparr>txn_snapshots := txn_snapshots (tr_state t) @ [txn_txn (tr_state t)]\<rparr>"
  obtain p v where tx: "tx_GasPrice tx = Some p" "tx_Value tx = Some v"
    using app by (auto simp: Apply_def applyMsg_def Let_def split: option.splits prod.splits)
  from eip tx hook show ?thesis
  proof (cases rule: Apply_ok [where N = N])
    case (rejected e t2)
    then have t': "t' = t2" using app by simp
    have "same_world ?E (tr_state t) (tr_state t2)" using rejected(3,4) by (rule same_world_cong)
    moreover have "tr_ctx t2 = tr_ctx t" using rejected(2) by (cases t; cases t2) simp
    ultimately show ?thesis using fine t' by (simp add: same_world_supply fine_world_def)
  next
    case (applied r t2)
    with app have "applyMsg N tx (t\<lparr>tr_state := ?T\<rparr>) = Some (Inr r, t')"
      by (auto simp: Apply_def Snapshot_def hook split: option.splits prod.splits sum.splits)
    from applyMsg_supply [OF _ _ assms(3) this] eip fine
    have "totalSupply ?E (tr_state t') \<le> totalSupply ?E ?T \<and> fine_world ?E (pf_pool N) t'" by simp
    moreover have "totalSupply ?E ?T = totalSupply ?E (tr_state t)"
      by (intro same_world_supply same_world_cong) simp_all
    ultimately show ?thesis by simp
  qed
qed

section \<open>Transactions and blocks\<close>

lemma CleanDeleteObjects_supply:
  assumes "radix_laws (env_tree E)" and "CleanDeleteObjects E del T = Some T'"
  shows "totalSupply E T' \<le> totalSupply E T"
proof -
  have "\<forall>a. getStateObject E T' a =
      (if HasSuicided E T a \<or> del \<and> Txn_Empty E T a \<and> tree_get E T (address_bytes a) \<noteq> None then None
       else getStateObject E T a)"
    using CleanDeleteObjects_eq [OF assms(1), of del T] assms(2) by auto
  then have "Txn_GetBalance E T' a \<le> Txn_GetBalance E T a" for a
    using balance_nonneg [of E T a] by (auto simp: Txn_GetBalance_def)
  then show ?thesis unfolding totalSupply_def by (intro sum_mono)
qed

lemma finishTransaction_supply:
  assumes "radix_laws (env_tree E)" and "Byzantium (tr_config t)" and "finishTransaction E result rc t = Some (rc', t')"
  shows "totalSupply E (tr_state t') \<le> totalSupply E (tr_state t) \<and> t' = t\<lparr>tr_state := tr_state t'\<rparr>"
  using assms CleanDeleteObjects_supply [OF assms(1), of True "tr_state t"] by (auto simp: finishTransaction_def)

lemma resolveSender_SomeD:
  "resolveSender N x tx t = Some (Inr tx1) \<Longrightarrow> tx_To tx1 = tx_To tx \<and> tx_GasPrice tx1 = tx_GasPrice tx \<and> tx_Value tx1 = tx_Value tx"
  by (auto simp: resolveSender_def split: if_splits sum.splits crypto_error.splits)

lemma unsigned_Copy: "unsigned_tx tx \<Longrightarrow> unsigned_tx (Transaction_Copy tx)"
  by (simp add: unsigned_tx_def Transaction_Copy_def split: option.split)

text \<open>The tokens that the events of a transaction to the bridge contract bring in.\<close>

definition bridged :: "BridgeABI \<Rightarrow> Transaction \<Rightarrow> Receipt \<Rightarrow> int" where
  "bridged abi tx rc = (if tx_To tx = Some AddrBridgeContract then sum_list (map (bridgeIssue abi) (rc_Logs rc)) else 0)"

lemma Write_stages:
  assumes "Write N x tx t = Some (Inr (t', tx'))" and "resolveSender N x tx t = Some (Inr tx1)"
    and "Apply N x (Transaction_Copy tx1) t = Some (Inr r, t1)" and "Logs (pf_env N) (tr_state t1) = (logs, T)"
  obtains rc rc3 rc4 t3 t4 where
    "finishTransaction (pf_env N) r rc3 (t1\<lparr>tr_totalGas := tr_totalGas t1 + GasUsed r, tr_state := T\<rparr>) = Some (rc4, t3)"
    "handleBridgeLogs (pf_env N) (pf_abi N) (Transaction_Copy tx1) logs t3 = (None, t4)"
    "t' = t4\<lparr>tr_receipts := tr_receipts t4 @ [rc]\<rparr>" "rc_Logs rc = logs"
proof -
  obtain h tx2 where H: "Transaction_Hash (env_rlp (pf_env N)) (env_crypto (pf_env N)) tx1 = (h, tx2)" by force
  note w = assms(1) [unfolded Write_def assms(2-4) H option.case sum.case prod.case Let_def, simplified, unfolded assms(4) H, simplified]
  from w show thesis
    by (auto split: bind_splits prod.splits option.splits intro!: that)
qed

lemma Write_supply:
  assumes eip: "EIP150 (tr_config t)" and byz: "Byzantium (tr_config t)" and fine: "fine_world (pf_env N) (pf_pool N) t"
    and tx: "unsigned_tx tx" and abi: "abi_unsigned (pf_abi N)" and hook: "ex_PostHook x = None"
    and w: "Write N x tx t = Some (Inr (t', tx'))"
  shows "\<exists>rc. tr_receipts t' = tr_receipts t @ [rc] \<and>
    totalSupply (pf_env N) (tr_state t') \<le> totalSupply (pf_env N) (tr_state t) + bridged (pf_abi N) tx rc \<and>
    fine_world (pf_env N) (pf_pool N) t' \<and> tr_config t' = tr_config t"
proof -
  let ?E = "pf_env N"
  note laws = fine_world_radix [OF fine]
  obtain tx1 where 1: "resolveSender N x tx t = Some (Inr tx1)"
    using w by (auto simp: Write_def split: option.splits sum.splits)
  let ?m = "Transaction_Copy tx1"
  have m: "tx_To ?m = tx_To tx" "unsigned_tx ?m"
    using resolveSender_SomeD [OF 1] tx by (simp_all add: unsigned_Copy Transaction_Copy_def unsigned_tx_def split: option.split)
  obtain r t1 where 2: "Apply N x ?m t = Some (Inr r, t1)"
    using w 1 by (auto simp: Write_def Let_def split: option.splits sum.splits prod.splits)
  from Apply_supply [OF eip fine m(2) hook 2]
  have s1: "totalSupply ?E (tr_state t1) \<le> totalSupply ?E (tr_state t)" "fine_world ?E (pf_pool N) t1" by simp_all
  have f1: "tr_receipts t1 = tr_receipts t" "tr_config t1 = tr_config t"
  proof -
    obtain p v where pv: "tx_GasPrice ?m = Some p" "tx_Value ?m = Some v" using Copy_amounts by blast
    from eip pv hook have "t1 = t\<lparr>tr_ctx := tr_ctx t1, tr_state := tr_state t1, tr_gasPool := tr_gasPool t1\<rparr>"
      using 2 by (cases rule: Apply_ok [where N = N]) auto
    then show "tr_receipts t1 = tr_receipts t" "tr_config t1 = tr_config t" by (cases t; cases t1; simp)+
  qed
  obtain logs T where L: "Logs ?E (tr_state t1) = (logs, T)" by force
  let ?t2 = "t1\<lparr>tr_totalGas := tr_totalGas t1 + GasUsed r, tr_state := T\<rparr>"
  obtain rc rc3 rc4 t3 t4 where 3: "finishTransaction ?E r rc3 ?t2 = Some (rc4, t3)"
    and 4: "handleBridgeLogs ?E (pf_abi N) ?m logs t3 = (None, t4)"
    and t': "t' = t4\<lparr>tr_receipts := tr_receipts t4 @ [rc]\<rparr>" "rc_Logs rc = logs"
    using Write_stages [OF w 1 2 L] .
  have s2: "totalSupply ?E T = totalSupply ?E (tr_state t1)"
    using supply_ops(8) [OF laws, of "tr_state t1"] L by simp
  have s3: "totalSupply ?E (tr_state t3) \<le> totalSupply ?E T" "t3 = ?t2\<lparr>tr_state := tr_state t3\<rparr>"
    using finishTransaction_supply [OF laws _ 3] byz f1(2) by simp_all
  have s4: "totalSupply ?E (tr_state t4) = totalSupply ?E (tr_state t3) +
      (if tx_To tx = Some AddrBridgeContract then sum_list (map (bridgeIssue (pf_abi N)) logs) else 0)"
    using handleBridgeLogs_supply [OF laws abi 4] m(1) by simp
  have "t4 = t3\<lparr>tr_state := tr_state t4\<rparr>" using handleBridgeLogs_frame [OF 4] .
  with s3(2) have "t4 = ?t2\<lparr>tr_state := tr_state t4\<rparr>" by (cases t1; cases t3; cases t4) simp
  then have "tr_ctx t4 = tr_ctx t1" "tr_config t4 = tr_config t1" "tr_receipts t4 = tr_receipts t1" by (cases t1; cases t4; simp)+
  with t' s1 s2 s3(1) s4 f1 show ?thesis by (auto simp: bridged_def fine_world_def)
qed

lemma WriteFailedReceipt_supply:
  assumes "radix_laws (env_tree (pf_env N))" and "WriteFailedReceipt N x tx t = Some (Inr (t', tx'))"
  shows "\<exists>rc. tr_receipts t' = tr_receipts t @ [rc] \<and> totalSupply (pf_env N) (tr_state t') = totalSupply (pf_env N) (tr_state t) \<and>
    tr_ctx t' = tr_ctx t \<and> tr_config t' = tr_config t"
  using assms supply_ops(8) [OF assms(1), of "tr_state t"]
  by (auto simp: WriteFailedReceipt_def Let_def split: option.splits sum.splits prod.splits)

fun issued :: "BridgeABI \<Rightarrow> u64 \<Rightarrow> Transaction list \<Rightarrow> Receipt list \<Rightarrow> int" where
  "issued abi limit (tx # txs) (rc # rcs) = (if ExceedsBlockGasLimit limit tx then 0 else bridged abi tx rc) + issued abi limit txs rcs"
| "issued abi limit _ _ = 0"

lemma ProcessTransactions_supply:
  assumes "abi_unsigned (pf_abi N)" and "ex_PostHook x = None"
    and "EIP150 (tr_config t)" and "Byzantium (tr_config t)" and "fine_world (pf_env N) (pf_pool N) t"
    and "\<forall>tx\<in>set txs. unsigned_tx tx" and "ProcessTransactions N x i limit txs t = Some (Inr t')"
  shows "\<exists>rs. tr_receipts t' = tr_receipts t @ rs \<and>
    totalSupply (pf_env N) (tr_state t') \<le> totalSupply (pf_env N) (tr_state t) + issued (pf_abi N) limit txs rs"
  using assms(3-)
proof (induction txs arbitrary: i t)
  case Nil
  then show ?case by simp
next
  case (Cons tx txs)
  let ?w = "if ExceedsBlockGasLimit limit tx then WriteFailedReceipt N x tx t else Write N x tx t"
  obtain t1 tx' where w: "?w = Some (Inr (t1, tx'))" and rest: "ProcessTransactions N x (i + 1) limit txs t1 = Some (Inr t')"
    using Cons.prems(5) by (auto simp del: if_split split: if_splits option.splits sum.splits prod.splits)
  have "\<exists>rc. tr_receipts t1 = tr_receipts t @ [rc] \<and> totalSupply (pf_env N) (tr_state t1) \<le> totalSupply (pf_env N) (tr_state t) +
      (if ExceedsBlockGasLimit limit tx then 0 else bridged (pf_abi N) tx rc) \<and>
      fine_world (pf_env N) (pf_pool N) t1 \<and> tr_config t1 = tr_config t"
  proof (cases "ExceedsBlockGasLimit limit tx")
    case True
    with w WriteFailedReceipt_supply [OF fine_world_radix [OF Cons.prems(3)], of x tx t t1 tx'] Cons.prems(3)
    show ?thesis by (auto simp: fine_world_def)
  next
    case False
    with w Write_supply [OF Cons.prems(1-3) _ assms(1,2), of tx t1 tx'] Cons.prems(4) show ?thesis by auto
  qed
  then obtain rc where rc: "tr_receipts t1 = tr_receipts t @ [rc]" "totalSupply (pf_env N) (tr_state t1) \<le>
      totalSupply (pf_env N) (tr_state t) + (if ExceedsBlockGasLimit limit tx then 0 else bridged (pf_abi N) tx rc)"
      "fine_world (pf_env N) (pf_pool N) t1" "tr_config t1 = tr_config t" by blast
  from Cons.IH [OF _ _ rc(3) _ rest] Cons.prems(1,2,4) rc(4) obtain rs where
    "tr_receipts t' = tr_receipts t1 @ rs"
    "totalSupply (pf_env N) (tr_state t') \<le> totalSupply (pf_env N) (tr_state t1) + issued (pf_abi N) limit txs rs" by auto
  with rc(1,2) show ?case by (intro exI [of _ "rc # rs"]) (simp del: if_split)
qed

section \<open>Properties\<close>

lemma map_sum_InrE:
  assumes "map_sum f g z = Inr y"
  obtains x where "z = Inr x" "y = g x"
  using assms by (cases z) auto

text \<open>C2: A message never creates money.  Whatever code it runs, in however many nested calls, creations and
  self-destructions, and whether it succeeds or fails, the sum of all balances afterwards, with the fee paid to the
  coinbase and the unused gas paid back, is at most what it was before.  Prices and values are not negative, as in
  every decoded transaction, and neither are the numbers of the block context.\<close>

theorem Apply_no_inflation:
  assumes "radix_laws (env_tree (pf_env N))" and "stack (pf_pool N) = []" and "EIP150 (tr_config t)"
    and "0 \<le> Timestamp (tr_ctx t)" "0 \<le> Number (tr_ctx t)" "0 \<le> GasLimit (tr_ctx t)"
    and "tx_GasPrice tx = Some p" "0 \<le> p" and "tx_Value tx = Some v" "0 \<le> v" and "ex_PostHook x = None"
  shows "\<exists>res t'. Apply N x tx t = Some (res, t') \<and> totalSupply (pf_env N) (tr_state t') \<le> totalSupply (pf_env N) (tr_state t)"
proof -
  have fine: "fine_world (pf_env N) (pf_pool N) t" using assms by (simp add: fine_world_def)
  have tx: "unsigned_tx tx" using assms by (simp add: unsigned_tx_def)
  obtain res t' where app: "Apply N x tx t = Some (res, t')"
    using assms(3,7,9,11) by (cases rule: Apply_ok [where N = N]) auto
  with Apply_supply [OF assms(3) fine tx assms(11) app] show ?thesis by blast
qed

theorem Apply_no_inflation_witness:
  "\<exists>res t'. Apply demoPlatform demoExecutor demoTx (demoTransition\<lparr>tr_gasPool := 200000\<rparr>) = Some (res, t') \<and>
    totalSupply demoEnv (tr_state t') \<le> totalSupply demoEnv (tr_state demoTransition)"
proof -
  have "stack (pf_pool demoPlatform) = []" "pf_env demoPlatform = demoEnv"
    by (simp_all add: demoPlatform_def demoPool_def new_state_def)
  moreover have "EIP150 (tr_config (demoTransition\<lparr>tr_gasPool := 200000\<rparr>))" by simp
  ultimately show ?thesis
    using Apply_no_inflation [of demoPlatform "demoTransition\<lparr>tr_gasPool := 200000\<rparr>" demoTx 2 7 demoExecutor] demoEnv_laws(2)
    by (auto simp: demoTx_def demoExecutor_def demoTransition_def)
qed

text \<open>C1: A block creates no money but what the bridge brings in.  When a block is processed from Byzantium on, the
  sum of all balances grows by at most the amounts of the deposit events, less those of the withdrawal and burn
  events, in the receipts of the transactions sent to the bridge contract.\<close>

theorem block_no_inflation:
  assumes "radix_laws (env_tree (pf_env N))" and "stack (pf_pool N) = []" and "abi_unsigned (pf_abi N)" and "ex_PostHook x = None"
    and start: "BeginTxn N x parentRoot (bl_Header block) creator = Some t" and "EIP150 (tr_config t)" and "Byzantium (tr_config t)"
    and "0 \<le> sint (hd_Number (bl_Header block))" "0 \<le> sint (hd_Timestamp (bl_Header block))" "0 \<le> sint (hd_GasLimit (bl_Header block))"
    and txs: "\<forall>tx\<in>set (bl_Transactions block). unsigned_tx tx"
    and "ProcessBlock N x parentRoot block creator = Some (Inr t')"
  shows "totalSupply (pf_env N) (tr_state t') \<le> totalSupply (pf_env N) (tr_state t) +
    issued (pf_abi N) (hd_GasLimit (bl_Header block)) (bl_Transactions block) (tr_receipts t')"
proof -
  have t: "tr_receipts t = []" "fine_world (pf_env N) (pf_pool N) t"
    using start assms(1,2,8-10) by (auto simp: BeginTxn_def fine_world_def split: option.splits)
  have "ProcessTransactions N x 0 (hd_GasLimit (bl_Header block)) (bl_Transactions block) t = Some (Inr t')"
    using assms(12) start unfolding ProcessBlock_def by (auto elim!: map_sum_InrE)
  from ProcessTransactions_supply [OF assms(3,4,6,7) t(2) txs this] t(1) show ?thesis by auto
qed

theorem block_no_inflation_witness:
  "\<exists>t t'. BeginTxn demoPlatform demoExecutor 0 (bl_Header demoBlock) 3 = Some t \<and>
    ProcessBlock demoPlatform demoExecutor 0 demoBlock 3 = Some (Inr t') \<and>
    totalSupply demoEnv (tr_state t') \<le> totalSupply demoEnv (tr_state t) + issued demoABI 5000 [demoTx] (tr_receipts t')"
proof -
  obtain t t' where t: "BeginTxn demoPlatform demoExecutor 0 (bl_Header demoBlock) 3 = Some t"
    "ProcessBlock demoPlatform demoExecutor 0 demoBlock 3 = Some (Inr t')" using demoBlock_processed by blast
  have "EIP150 (tr_config t)" "Byzantium (tr_config t)"
    using t(1) by (auto simp: BeginTxn_def demoExecutor_def Forks_At_def AllForksEnabled_def forks_active_def Fork_Active_def
        split: option.splits)
  moreover have "pf_env demoPlatform = demoEnv" "pf_abi demoPlatform = demoABI" "stack (pf_pool demoPlatform) = []"
    by (simp_all add: demoPlatform_def demoPool_def new_state_def)
  moreover have "hd_GasLimit (bl_Header demoBlock) = 5000" "hd_Number (bl_Header demoBlock) = 0"
    "hd_Timestamp (bl_Header demoBlock) = 0" "bl_Transactions demoBlock = [demoTx]" "unsigned_tx demoTx"
    by (simp_all add: demoBlock_def emptyHeader_def unsigned_tx_def demoTx_def)
  ultimately show ?thesis
    using block_no_inflation [OF _ _ _ _ t(1) _ _ _ _ _ _ t(2)] t demoEnv_laws(2) demoABI_unsigned by (auto simp: demoExecutor_def)
qed

end
