(* ===== verification/Go_Heap.thy ===== *)
theory Go_Heap
  imports Prelude "HOL-Library.Multiset"
begin

text \<open>
  Binary heaps, as the standard library's container/heap implements them over an interface of five operations.  Three
  collections of the program are used through it: the transactions by price and time, the dial tasks by priority and
  the filters by expiry.  The first section has the operations on plain lists, where the heap property is proved; the
  second has the library's operations over an interface, and the locale that carries their correctness to every
  collection that behaves like a list; the third has the collections whose elements know their own index.
\<close>

section \<open>Heaps in lists\<close>

text \<open>\<open>lt\<close> is the order of the elements, the smallest element is at index 0.\<close>

definition lswap :: "nat \<Rightarrow> nat \<Rightarrow> 'a list \<Rightarrow> 'a list" where
  "lswap i j xs = xs[i := xs ! j, j := xs ! i]"

lemma length_lswap [simp]: "length (lswap i j xs) = length xs"
  by (simp add: lswap_def)

lemma nth_lswap:
  "i < length xs \<Longrightarrow> j < length xs \<Longrightarrow> lswap i j xs ! k = (if k = i then xs ! j else if k = j then xs ! i else xs ! k)"
  by (auto simp: lswap_def nth_list_update)

lemma mset_lswap [simp]: "i < length xs \<Longrightarrow> j < length xs \<Longrightarrow> mset (lswap i j xs) = mset xs"
  by (simp add: lswap_def mset_swap)

definition parent :: "nat \<Rightarrow> nat" where
  "parent j = (j - 1) div 2"

lemma parent_child: "0 < c \<Longrightarrow> parent c = i \<longleftrightarrow> c = 2 * i + 1 \<or> c = 2 * i + 2"
  by (auto simp: parent_def)

lemma parent_less [simp]: "0 < c \<Longrightarrow> parent c < c"
  by (simp add: parent_def)

lemma parent_neq [simp]: "0 < c \<Longrightarrow> parent c \<noteq> c"
  using parent_less [of c] by linarith

text \<open>The smaller of the two children below \<open>i\<close>.\<close>

definition pick :: "('a \<Rightarrow> 'a \<Rightarrow> bool) \<Rightarrow> nat \<Rightarrow> nat \<Rightarrow> 'a list \<Rightarrow> nat" where
  "pick lt i n xs = (if 2 * i + 2 < n \<and> lt (xs ! (2 * i + 2)) (xs ! (2 * i + 1)) then 2 * i + 2 else 2 * i + 1)"

function ldown :: "('a \<Rightarrow> 'a \<Rightarrow> bool) \<Rightarrow> nat \<Rightarrow> nat \<Rightarrow> 'a list \<Rightarrow> nat \<times> 'a list" where
  "ldown lt i n xs =
     (if n \<le> 2 * i + 1 \<or> \<not> lt (xs ! pick lt i n xs) (xs ! i) then (i, xs)
      else ldown lt (pick lt i n xs) n (lswap i (pick lt i n xs) xs))"
  by pat_completeness auto
termination by (relation "measure (\<lambda>(lt, i, n, xs). n - i)") (auto simp: pick_def)

function lup :: "('a \<Rightarrow> 'a \<Rightarrow> bool) \<Rightarrow> nat \<Rightarrow> 'a list \<Rightarrow> 'a list" where
  "lup lt j xs =
     (if parent j = j \<or> \<not> lt (xs ! j) (xs ! parent j) then xs else lup lt (parent j) (lswap (parent j) j xs))"
  by pat_completeness auto
termination by (relation "measure (\<lambda>(lt, j, xs). j)") (auto simp: parent_def)

declare ldown.simps [simp del] lup.simps [simp del]

definition weak_order :: "('a \<Rightarrow> 'a \<Rightarrow> bool) \<Rightarrow> bool" where
  "weak_order lt \<longleftrightarrow> (\<forall>a b. lt a b \<longrightarrow> \<not> lt b a) \<and> (\<forall>a b c. \<not> lt a b \<longrightarrow> \<not> lt b c \<longrightarrow> \<not> lt a c)"

text \<open>The edge above \<open>j\<close> is in order.\<close>

abbreviation edge :: "('a \<Rightarrow> 'a \<Rightarrow> bool) \<Rightarrow> 'a list \<Rightarrow> nat \<Rightarrow> bool" where
  "edge lt xs j \<equiv> \<not> lt (xs ! j) (xs ! parent j)"

definition heap_upto :: "('a \<Rightarrow> 'a \<Rightarrow> bool) \<Rightarrow> nat \<Rightarrow> 'a list \<Rightarrow> bool" where
  "heap_upto lt n xs \<longleftrightarrow> (\<forall>j. 0 < j \<and> j < n \<longrightarrow> edge lt xs j)"

text \<open>A heap from index \<open>l\<close> on, except for the element at \<open>i\<close>; the elements below \<open>i\<close> fit the one above.\<close>

definition heap_but :: "('a \<Rightarrow> 'a \<Rightarrow> bool) \<Rightarrow> nat \<Rightarrow> nat \<Rightarrow> 'a list \<Rightarrow> nat \<Rightarrow> bool" where
  "heap_but lt l n xs i \<longleftrightarrow>
     (\<forall>j. 0 < j \<and> j < n \<and> l \<le> parent j \<and> j \<noteq> i \<and> parent j \<noteq> i \<longrightarrow> edge lt xs j) \<and>
     (\<forall>c. 0 < i \<and> 0 < c \<and> c < n \<and> l \<le> parent i \<and> parent c = i \<longrightarrow> \<not> lt (xs ! c) (xs ! parent i))"

lemma heap_but_edge: "heap_but lt l n xs i \<Longrightarrow> 0 < k \<Longrightarrow> k < n \<Longrightarrow> l \<le> parent k \<Longrightarrow> k \<noteq> i \<Longrightarrow> parent k \<noteq> i \<Longrightarrow> edge lt xs k"
  unfolding heap_but_def by blast

lemma heap_but_below:
  "heap_but lt l n xs i \<Longrightarrow> 0 < i \<Longrightarrow> 0 < c \<Longrightarrow> c < n \<Longrightarrow> l \<le> parent i \<Longrightarrow> parent c = i \<Longrightarrow> \<not> lt (xs ! c) (xs ! parent i)"
  unfolding heap_but_def by blast

lemma ldown_swap:
  assumes o: "weak_order lt" and n: "n \<le> length xs" and but: "heap_but lt l n xs i"
    and j: "0 < j" "parent j = i" "j < n" and less: "lt (xs ! j) (xs ! i)"
    and best: "\<And>k. 0 < k \<Longrightarrow> k < n \<Longrightarrow> parent k = i \<Longrightarrow> \<not> lt (xs ! k) (xs ! j)"
    and "l \<le> i"
  shows "heap_but lt l n (lswap i j xs) j" and "edge lt (lswap i j xs) j"
proof -
  have ij: "i < length xs" "j < length xs" "i < j" "i \<noteq> j" using j n parent_less [of j] by simp_all
  note nth = nth_lswap [OF ij(1,2)]
  have "\<not> lt (xs ! i) (xs ! j)" using less o unfolding weak_order_def by blast
  then show "edge lt (lswap i j xs) j" using j ij by (simp add: nth)
  show "heap_but lt l n (lswap i j xs) j"
    unfolding heap_but_def
  proof (intro conjI allI impI)
    fix k assume k: "0 < k \<and> k < n \<and> l \<le> parent k \<and> k \<noteq> j \<and> parent k \<noteq> j"
    then have kp: "parent k \<noteq> k" by simp
    consider "parent k = i" | "k = i" "parent i \<noteq> i" "0 < i" | "k \<noteq> i" "parent k \<noteq> i" using k kp by blast
    then show "edge lt (lswap i j xs) k"
    proof cases
      case 1
      then have "k \<noteq> i" using kp by metis
      then show ?thesis using best [of k] k 1 by (simp add: nth)
    next
      case 2
      then have "\<not> lt (xs ! j) (xs ! parent i)" using heap_but_below [OF but, of j] k j by simp
      then show ?thesis using 2 k by (simp add: nth)
    next
      case 3
      then show ?thesis using heap_but_edge [OF but, of k] k by (simp add: nth)
    qed
  next
    fix c assume c: "0 < j \<and> 0 < c \<and> c < n \<and> l \<le> parent j \<and> parent c = j"
    have "c \<noteq> i" "c \<noteq> j" using c ij parent_less [of c] by auto
    moreover have "edge lt xs c" using heap_but_edge [OF but, of c] c ij \<open>c \<noteq> i\<close> \<open>l \<le> i\<close> by simp
    ultimately show "\<not> lt (lswap i j xs ! c) (lswap i j xs ! parent j)" using c j by (simp add: nth)
  qed
qed

lemma parent_choice: "0 < (c::nat) \<Longrightarrow> parent c = i \<Longrightarrow> c < n \<Longrightarrow> c = 2 * i + 1 \<or> (c = 2 * i + 2 \<and> 2 * i + 2 < n)"
  using parent_child [of c i] by auto

lemma parent_children [simp]: "parent (Suc (2 * i)) = i" "parent (Suc (Suc (2 * i))) = i"
  by (simp_all add: parent_def)

lemma pick_child: "2 * i + 1 < n \<Longrightarrow> 0 < pick lt i n xs \<and> parent (pick lt i n xs) = i \<and> pick lt i n xs < n"
  by (simp add: pick_def)

lemma weak_irrefl: "weak_order lt \<Longrightarrow> \<not> lt a a"
  unfolding weak_order_def by blast

lemma weak_asym: "weak_order lt \<Longrightarrow> lt a b \<Longrightarrow> \<not> lt b a"
  unfolding weak_order_def by blast

lemma weak_trans: "weak_order lt \<Longrightarrow> \<not> lt a b \<Longrightarrow> \<not> lt b c \<Longrightarrow> \<not> lt a c"
  unfolding weak_order_def by blast

lemma pick_least: "weak_order lt \<Longrightarrow> 0 < k \<Longrightarrow> k < n \<Longrightarrow> parent k = i \<Longrightarrow> \<not> lt (xs ! k) (xs ! pick lt i n xs)"
  using parent_choice [of k i n] weak_asym [of lt] weak_irrefl [of lt] by (auto simp: pick_def)

definition heap_from :: "('a \<Rightarrow> 'a \<Rightarrow> bool) \<Rightarrow> nat \<Rightarrow> nat \<Rightarrow> 'a list \<Rightarrow> bool" where
  "heap_from lt l n xs \<longleftrightarrow> (\<forall>j. 0 < j \<and> j < n \<and> l \<le> parent j \<longrightarrow> edge lt xs j)"

lemma ldown_frame:
  assumes "ldown lt i n xs = (k, ys)" and "n \<le> length xs"
  shows "length ys = length xs \<and> mset ys = mset xs \<and> i \<le> k \<and> (k = i \<longrightarrow> ys = xs) \<and> (\<forall>m. n \<le> m \<longrightarrow> ys ! m = xs ! m)"
  using assms
proof (induction lt i n xs rule: ldown.induct)
  case (1 lt i n xs)
  let ?j = "pick lt i n xs"
  show ?case
  proof (cases "n \<le> 2 * i + 1 \<or> \<not> lt (xs ! ?j) (xs ! i)")
    case True
    then show ?thesis using 1(2) by (simp add: ldown.simps [of lt i])
  next
    case False
    then have j: "0 < ?j" "parent ?j = i" "?j < n" using pick_child [of i n lt xs] by simp_all
    then have l: "i < length xs" "?j < length xs" "i < ?j" using 1(3) parent_less [of ?j] by simp_all
    have e: "ldown lt ?j n (lswap i ?j xs) = (k, ys)" using 1(2) False by (simp add: ldown.simps [of lt i])
    have "length ys = length (lswap i ?j xs) \<and> mset ys = mset (lswap i ?j xs) \<and> ?j \<le> k \<and>
      (\<forall>m. n \<le> m \<longrightarrow> ys ! m = lswap i ?j xs ! m)"
      using 1(1) [OF False e] 1(3) by simp
    then show ?thesis using l j by (auto simp: nth_lswap [OF l(1,2)])
  qed
qed


lemma heap_from_but: "heap_but lt l n xs i \<Longrightarrow> (\<And>c. 0 < c \<Longrightarrow> c < n \<Longrightarrow> parent c = i \<Longrightarrow> edge lt xs c) \<Longrightarrow>
    (0 < i \<Longrightarrow> i < n \<Longrightarrow> l \<le> parent i \<Longrightarrow> edge lt xs i) \<Longrightarrow> heap_from lt l n xs"
  unfolding heap_from_def using heap_but_edge [of lt l n xs i] by blast

lemma ldown_heap:
  assumes "ldown lt i n xs = (k, ys)" "n \<le> length xs" "weak_order lt" "heap_but lt l n xs i" "l \<le> i"
  shows "if k = i then (\<forall>c. 0 < c \<and> c < n \<and> parent c = i \<longrightarrow> edge lt xs c) else heap_from lt l n ys"
  using assms
proof (induction lt i n xs rule: ldown.induct)
  case (1 lt i n xs)
  let ?j = "pick lt i n xs"
  show ?case
  proof (cases "n \<le> 2 * i + 1 \<or> \<not> lt (xs ! ?j) (xs ! i)")
    case True
    have all: "edge lt xs c" if c: "0 < c" "c < n" "parent c = i" for c
    proof -
      have "\<not> n \<le> 2 * i + 1" using parent_choice [of c i n] c by auto
      then have le: "\<not> lt (xs ! ?j) (xs ! i)" using True by blast
      show ?thesis using weak_trans [OF 1(4) pick_least [OF 1(4) c, of xs] le] c(3) by simp
    qed
    have "k = i" using True 1(2) by (simp add: ldown.simps [of lt i])
    then show ?thesis using all by simp
  next
    case False
    then have j: "0 < ?j" "parent ?j = i" "?j < n" using pick_child [of i n lt xs] by simp_all
    have e: "ldown lt ?j n (lswap i ?j xs) = (k, ys)" using 1(2) False by (simp add: ldown.simps [of lt i])
    have less: "lt (xs ! ?j) (xs ! i)" using False by blast
    have sw: "heap_but lt l n (lswap i ?j xs) ?j" "edge lt (lswap i ?j xs) ?j"
       by (rule ldown_swap [OF 1(4,3,5) j less _ 1(6)], erule (2) pick_least [OF 1(4)])+
    have ij: "l \<le> ?j" "i < ?j" using 1(6) j parent_less [of ?j] by simp_all
    have len: "n \<le> length (lswap i ?j xs)" using 1(3) by simp
    have IH: "if k = ?j then (\<forall>c. 0 < c \<and> c < n \<and> parent c = ?j \<longrightarrow> edge lt (lswap i ?j xs) c) else heap_from lt l n ys"
      by (rule 1(1) [OF False e len 1(4) sw(1) ij(1)])
    have "k \<noteq> i" using ldown_frame [OF e len] ij by simp
    moreover have "heap_from lt l n ys"
    proof (cases "k = ?j")
      case True
      have "ys = lswap i ?j xs" using ldown_frame [OF e len] True by simp
      moreover have "edge lt (lswap i ?j xs) c" if "0 < c" "c < n" "parent c = ?j" for c
        using IH [unfolded if_P [OF True]] that by blast
      ultimately show ?thesis using heap_from_but [OF sw(1) _ sw(2)] by blast
    next
      case False
      then show ?thesis using IH by (simp only: if_False)
    qed
    ultimately show ?thesis by (simp only: if_False)
  qed
qed

lemma lup_frame: "j < length xs \<Longrightarrow> length (lup lt j xs) = length xs \<and> mset (lup lt j xs) = mset xs \<and> (\<forall>m. j < m \<longrightarrow> lup lt j xs ! m = xs ! m)"
proof (induction lt j xs rule: lup.induct)
  case (1 lt j xs)
  show ?case
  proof (cases "parent j = j \<or> \<not> lt (xs ! j) (xs ! parent j)")
    case True
    then show ?thesis by (simp add: lup.simps [of lt j])
  next
    case False
    then have i: "parent j < j" "parent j < length xs" using 1(2) by (auto simp: parent_def)
    then have "length (lup lt (parent j) (lswap (parent j) j xs)) = length xs \<and> mset (lup lt (parent j) (lswap (parent j) j xs)) = mset xs \<and>
      (\<forall>m. parent j < m \<longrightarrow> lup lt (parent j) (lswap (parent j) j xs) ! m = lswap (parent j) j xs ! m)"
      using 1(1) [OF False] 1(2) by simp
    then show ?thesis using False i 1(2) by (auto simp: lup.simps [of lt j] nth_lswap)
  qed
qed

text \<open>One step of \<open>up\<close>: the violation moves to the parent.\<close>

lemma lup_swap:
  assumes o: "weak_order lt" and n: "n \<le> length xs" and but: "heap_but lt 0 n xs j"
    and below: "\<And>c. 0 < c \<Longrightarrow> c < n \<Longrightarrow> parent c = j \<Longrightarrow> edge lt xs c"
    and j: "0 < j" "j < n" "lt (xs ! j) (xs ! parent j)" and i: "i = parent j"
  shows "heap_but lt 0 n (lswap i j xs) i" and "0 < c \<Longrightarrow> c < n \<Longrightarrow> parent c = i \<Longrightarrow> edge lt (lswap i j xs) c"
proof -
  have ij: "i < length xs" "j < length xs" "i < j" "i \<noteq> j" using j n i parent_less [of j] by linarith+
  note nth = nth_lswap [OF ij(1,2)]
  have asym: "\<not> lt (xs ! i) (xs ! j)" using weak_asym [OF o] j i by blast
  have sib: "\<not> lt (xs ! c) (xs ! j)" if c: "0 < c" "c < n" "parent c = i" "c \<noteq> j" for c
    using heap_but_edge [OF but, of c] c ij weak_trans [OF o _ asym, of "xs ! c"] by simp
  show "edge lt (lswap i j xs) c" if c: "0 < c" "c < n" "parent c = i"
  proof (cases "c = j")
    case True
    then show ?thesis using c ij asym by (simp add: nth)
  next
    case False
    then show ?thesis using c sib [of c] parent_less [of c] by (simp add: nth)
  qed
  show "heap_but lt 0 n (lswap i j xs) i"
    unfolding heap_but_def
  proof (intro conjI allI impI)
    fix k assume k: "0 < k \<and> k < n \<and> 0 \<le> parent k \<and> k \<noteq> i \<and> parent k \<noteq> i"
    then have "k \<noteq> j" using i by auto
    show "edge lt (lswap i j xs) k"
    proof (cases "parent k = j")
      case True
      then have "\<not> lt (xs ! k) (xs ! i)" using heap_but_below [OF but, of k] k i j by simp
      then show ?thesis using k True \<open>k \<noteq> j\<close> by (simp add: nth)
    next
      case False
      then show ?thesis using k \<open>k \<noteq> j\<close> heap_but_edge [OF but, of k] by (simp add: nth)
    qed
  next
    fix c assume c: "0 < i \<and> 0 < c \<and> c < n \<and> 0 \<le> parent i \<and> parent c = i"
    then have pi: "parent i \<noteq> i" "parent i \<noteq> j" using parent_less [of i] ij by linarith+
    have e: "\<not> lt (xs ! i) (xs ! parent i)" using heap_but_edge [OF but, of i] c ij j pi by simp
    show "\<not> lt (lswap i j xs ! c) (lswap i j xs ! parent i)"
    proof (cases "c = j")
      case True
      then show ?thesis using pi ij e by (simp add: nth)
    next
      case False
      then have "\<not> lt (xs ! c) (xs ! i)" using heap_but_edge [OF but, of c] c ij by simp
      then show ?thesis using False pi parent_less [of c] c weak_trans [OF o _ e, of "xs ! c"] by (simp add: nth)
    qed
  qed
qed

lemma lup_heap:
  assumes "weak_order lt" "n \<le> length xs" "heap_but lt 0 n xs j" "j < n" "\<And>c. 0 < c \<Longrightarrow> c < n \<Longrightarrow> parent c = j \<Longrightarrow> edge lt xs c"
  shows "heap_from lt 0 n (lup lt j xs)"
  using assms
proof (induction lt j xs rule: lup.induct)
  case (1 lt j xs)
  show ?case
  proof (cases "parent j = j \<or> \<not> lt (xs ! j) (xs ! parent j)")
    case True
    then have "edge lt xs j" if "0 < j" using that parent_neq [of j] by blast
    then have "heap_from lt 0 n xs" using heap_from_but [OF 1(4) 1(6)] by blast
    then show ?thesis using True by (simp add: lup.simps [of lt j])
  next
    case False
    then have j: "0 < j" "lt (xs ! j) (xs ! parent j)" by (auto simp: parent_def)
    note sw = lup_swap [OF 1(2,3,4,6) j(1) 1(5) j(2) refl]
    have "heap_from lt 0 n (lup lt (parent j) (lswap (parent j) j xs))"
    proof (rule 1(1) [OF False 1(2) _ sw(1) _ sw(2)])
      show "parent j < n" using parent_less [OF j(1)] 1(5) by linarith
      show "n \<le> length (lswap (parent j) j xs)" using 1(3) by simp
    qed
    then show ?thesis using False by (simp add: lup.simps [of lt j])
  qed
qed


lemma heap_from_edge: "heap_from lt 0 n xs \<Longrightarrow> 0 < j \<Longrightarrow> j < n \<Longrightarrow> edge lt xs j"
  unfolding heap_from_def by blast

lemma heap_least:
  assumes "weak_order lt" "heap_from lt 0 n xs" "k < n"
  shows "\<not> lt (xs ! k) (xs ! 0)"
  using assms(3)
proof (induction k rule: less_induct)
  case (less k)
  show ?case
  proof (cases "k = 0")
    case True
    then show ?thesis using weak_irrefl [OF assms(1)] by simp
  next
    case False
    then have "\<not> lt (xs ! parent k) (xs ! 0)" using less parent_less [of k] by simp
    moreover have "edge lt xs k" using heap_from_edge [OF assms(2)] less(2) False by blast
    ultimately show ?thesis using weak_trans [OF assms(1)] by blast
  qed
qed

text \<open>A heap in which the element at \<open>i\<close> is replaced.\<close>

lemma heap_but_update:
  assumes "weak_order lt" "heap_from lt 0 n xs" "i < n" "n \<le> length xs"
  shows "heap_but lt 0 n (xs[i := x]) i"
  unfolding heap_but_def
proof (intro conjI allI impI)
  fix j assume "0 < j \<and> j < n \<and> 0 \<le> parent j \<and> j \<noteq> i \<and> parent j \<noteq> i"
  then show "edge lt (xs[i := x]) j" using heap_from_edge [OF assms(2), of j] by simp
next
  fix c assume c: "0 < i \<and> 0 < c \<and> c < n \<and> 0 \<le> parent i \<and> parent c = i"
  then have "c \<noteq> i" "parent i \<noteq> i" using parent_less [of c] by auto
  moreover have "edge lt xs c" "edge lt xs i" using heap_from_edge [OF assms(2)] assms(3) c by blast+
  then have "\<not> lt (xs ! c) (xs ! parent i)" using weak_trans [OF assms(1), of "xs ! c" "xs ! i"] c by simp
  ultimately show "\<not> lt (xs[i := x] ! c) (xs[i := x] ! parent i)" by simp
qed

text \<open>\<open>down\<close> and, when it does not move the element, \<open>up\<close> restore the heap.\<close>

definition lfix :: "('a \<Rightarrow> 'a \<Rightarrow> bool) \<Rightarrow> nat \<Rightarrow> nat \<Rightarrow> 'a list \<Rightarrow> 'a list" where
  "lfix lt i n xs = (case ldown lt i n xs of (k, ys) \<Rightarrow> if k > i then ys else lup lt i ys)"

lemma lfix_heap:
  assumes o: "weak_order lt" and n: "n \<le> length xs" "i < n" and but: "heap_but lt 0 n xs i"
  shows "heap_from lt 0 n (lfix lt i n xs)" "mset (lfix lt i n xs) = mset xs" "length (lfix lt i n xs) = length xs"
    "\<forall>m. n \<le> m \<longrightarrow> lfix lt i n xs ! m = xs ! m"
proof -
  obtain k ys where e: "ldown lt i n xs = (k, ys)" by force
  note fr = ldown_frame [OF e n(1)]
  note hp = ldown_heap [OF e n(1) o but le0]
  have up: "heap_from lt 0 n (lup lt i xs)" if "k = i"
    using lup_heap [OF o n(1) but n(2)] hp [unfolded if_P [OF that]] by blast
  have lup: "length (lup lt i xs) = length xs \<and> mset (lup lt i xs) = mset xs \<and> (\<forall>m. i < m \<longrightarrow> lup lt i xs ! m = xs ! m)"
    by (rule lup_frame) (use n in simp)
  have ki: "k = i \<or> k > i" using fr by linarith
  have eq: "lfix lt i n xs = (if k > i then ys else lup lt i ys)" by (simp add: lfix_def e)
  have "heap_from lt 0 n (lfix lt i n xs) \<and> mset (lfix lt i n xs) = mset xs \<and> length (lfix lt i n xs) = length xs \<and>
    (\<forall>m. n \<le> m \<longrightarrow> lfix lt i n xs ! m = xs ! m)"
  proof (cases "k = i")
    case True
    then have "lfix lt i n xs = lup lt i xs" using eq fr by simp
    moreover have "\<forall>m. n \<le> m \<longrightarrow> lup lt i xs ! m = xs ! m" using lup n(2) by (meson less_le_trans)
    ultimately show ?thesis using up [OF True] lup by simp
  next
    case False
    then have "lfix lt i n xs = ys" using eq ki by simp
    then show ?thesis using fr hp [unfolded if_not_P [OF False]] by simp
  qed
  then show "heap_from lt 0 n (lfix lt i n xs)" "mset (lfix lt i n xs) = mset xs" "length (lfix lt i n xs) = length xs"
    "\<forall>m. n \<le> m \<longrightarrow> lfix lt i n xs ! m = xs ! m" by blast+
qed


lemma heap_but_cong: "heap_but lt 0 n xs i \<Longrightarrow> (\<And>k. k < n \<Longrightarrow> ys ! k = xs ! k) \<Longrightarrow> i < n \<Longrightarrow> heap_but lt 0 n ys i"
  unfolding heap_but_def by (metis less_trans parent_less)

lemma heap_from_cong: "heap_from lt 0 n xs \<Longrightarrow> (\<And>k. k < n \<Longrightarrow> ys ! k = xs ! k) \<Longrightarrow> heap_from lt 0 n ys"
  unfolding heap_from_def by (metis less_trans parent_less)

lemma heap_from_mono: "heap_from lt 0 n xs \<Longrightarrow> m \<le> n \<Longrightarrow> heap_from lt 0 m xs"
  unfolding heap_from_def by (meson less_le_trans)

lemma heap_from_order:
  assumes "heap_from lt 0 (length xs) xs" "\<And>x y. x \<in> set xs \<Longrightarrow> y \<in> set xs \<Longrightarrow> lt' x y = lt x y"
  shows "heap_from lt' 0 (length xs) xs"
  unfolding heap_from_def
proof (intro allI impI)
  fix j assume j: "0 < j \<and> j < length xs \<and> 0 \<le> parent j"
  then have "parent j < length xs" using parent_less [of j] by linarith
  then show "edge lt' xs j" using heap_from_edge [OF assms(1), of j] assms(2) [of "xs ! j" "xs ! parent j"] j by simp
qed

text \<open>The element at \<open>i\<close> goes to the end, the last one takes its place.\<close>

lemma lfix_remove:
  assumes o: "weak_order lt" and hp: "heap_from lt 0 (Suc n) xs" and l: "length xs = Suc n" and i: "i < n"
  defines "ys \<equiv> lfix lt i n (lswap i n xs)"
  shows "heap_from lt 0 n (butlast ys)" "last ys = xs ! i" "length ys = Suc n" "mset ys = mset xs"
proof -
  have "heap_but lt 0 n (xs[i := xs ! n]) i" using heap_but_update [OF o heap_from_mono [OF hp] i] l by simp
  then have "heap_but lt 0 n (lswap i n xs) i" using i l by (elim heap_but_cong) (auto simp: nth_lswap nth_list_update)
  note fx = lfix_heap [OF o _ i this, folded ys_def]
  show len: "length ys = Suc n" and "mset ys = mset xs" using fx l i by simp_all
  then show "last ys = xs ! i" using fx(4) i l by (cases ys rule: rev_cases) (auto simp: nth_lswap last_conv_nth)
  have "heap_from lt 0 n ys" using fx(1) l by simp
  then show "heap_from lt 0 n (butlast ys)" by (rule heap_from_cong) (simp add: nth_butlast len)
qed

lemma lup_root [simp]: "lup lt 0 xs = xs"
  by (subst lup.simps) (simp add: parent_def)

lemma lfix_root: "lfix lt 0 n xs = snd (ldown lt 0 n xs)"
  by (simp add: lfix_def split: prod.split)

section \<open>The operations of container/heap\<close>

text \<open>The interface a heap is used through: the two operations that only read and the three that change the
  collection.  The operations below are those of the standard library; \<open>None\<close> is the panic of popping or
  removing an element that is not there.\<close>

record ('s, 'x) HeapInterface =
  h_Len :: "'s \<Rightarrow> nat"
  h_Less :: "'s \<Rightarrow> nat \<Rightarrow> nat \<Rightarrow> bool"
  h_Swap :: "nat \<Rightarrow> nat \<Rightarrow> 's \<Rightarrow> 's"
  h_Push :: "'x \<Rightarrow> 's \<Rightarrow> 's"
  h_Pop :: "'s \<Rightarrow> 'x \<times> 's"

function heap_down :: "('s, 'x) HeapInterface \<Rightarrow> nat \<Rightarrow> nat \<Rightarrow> 's \<Rightarrow> nat \<times> 's" where
  "heap_down H i n s =
     (let j1 = 2 * i + 1 in
      if j1 \<ge> n then (i, s)
      else
        let j = (if j1 + 1 < n \<and> h_Less H s (j1 + 1) j1 then j1 + 1 else j1) in
        if \<not> h_Less H s j i then (i, s)
        else heap_down H j n (h_Swap H i j s))"
  by pat_completeness auto
termination by (relation "measure (\<lambda>(H, i, n, s). n - i)") (auto simp: Let_def)

function heap_up :: "('s, 'x) HeapInterface \<Rightarrow> nat \<Rightarrow> 's \<Rightarrow> 's" where
  "heap_up H j s =
     (let i = (j - 1) div 2 in
      if i = j \<or> \<not> h_Less H s j i then s else heap_up H i (h_Swap H i j s))"
  by pat_completeness auto
termination by (relation "measure (\<lambda>(H, j, s). j)") auto

declare heap_down.simps [simp del] heap_up.simps [simp del]

fun heap_Init_loop :: "('s, 'x) HeapInterface \<Rightarrow> nat \<Rightarrow> nat \<Rightarrow> 's \<Rightarrow> 's" where
  "heap_Init_loop H n 0 s = s"
| "heap_Init_loop H n (Suc i) s = heap_Init_loop H n i (snd (heap_down H i n s))"

definition heap_Init :: "('s, 'x) HeapInterface \<Rightarrow> 's \<Rightarrow> 's" where
  "heap_Init H s = heap_Init_loop H (h_Len H s) (h_Len H s div 2) s"

definition heap_Push :: "('s, 'x) HeapInterface \<Rightarrow> 'x \<Rightarrow> 's \<Rightarrow> 's" where
  "heap_Push H x s = (let s = h_Push H x s in heap_up H (h_Len H s - 1) s)"

definition heap_Pop :: "('s, 'x) HeapInterface \<Rightarrow> 's \<Rightarrow> ('x \<times> 's) option" where
  "heap_Pop H s =
     (if h_Len H s = 0 then None
      else let n = h_Len H s - 1 in Some (h_Pop H (snd (heap_down H 0 n (h_Swap H 0 n s)))))"

definition heap_Fix :: "('s, 'x) HeapInterface \<Rightarrow> nat \<Rightarrow> nat \<Rightarrow> 's \<Rightarrow> 's" where
  "heap_Fix H i n s = (case heap_down H i n s of (k, s) \<Rightarrow> if k > i then s else heap_up H i s)"

definition heap_Remove :: "('s, 'x) HeapInterface \<Rightarrow> nat \<Rightarrow> 's \<Rightarrow> ('x \<times> 's) option" where
  "heap_Remove H i s =
     (if h_Len H s \<le> i then None
      else let n = h_Len H s - 1 in
        Some (h_Pop H (if n \<noteq> i then heap_Fix H i n (h_Swap H i n s) else s)))"

text \<open>What a collection promises: it represents a list of elements, compares them by an order of its own, and the
  three changing operations act on the list.  \<open>ok\<close> is its invariant, \<open>fresh\<close> what it expects of a new element.\<close>

locale go_heap =
  fixes H :: "('s, 'x) HeapInterface" and items :: "'s \<Rightarrow> 'x list" and lt :: "'x \<Rightarrow> 'x \<Rightarrow> bool"
    and ok :: "'s \<Rightarrow> bool" and fresh :: "'s \<Rightarrow> 'x \<Rightarrow> bool"
  assumes order: "weak_order lt"
    and Len: "h_Len H s = length (items s)"
    and Less: "i < length (items s) \<Longrightarrow> j < length (items s) \<Longrightarrow> h_Less H s i j = lt (items s ! i) (items s ! j)"
    and Swap: "ok s \<Longrightarrow> i < length (items s) \<Longrightarrow> j < length (items s) \<Longrightarrow> ok (h_Swap H i j s) \<and> items (h_Swap H i j s) = lswap i j (items s)"
    and Push: "ok s \<Longrightarrow> fresh s x \<Longrightarrow> ok (h_Push H x s) \<and> items (h_Push H x s) = items s @ [x]"
    and Pop: "ok s \<Longrightarrow> items s \<noteq> [] \<Longrightarrow>
      ok (snd (h_Pop H s)) \<and> items (snd (h_Pop H s)) = butlast (items s) \<and> fst (h_Pop H s) = last (items s)"
begin

abbreviation heap :: "'s \<Rightarrow> bool" where
  "heap s \<equiv> ok s \<and> heap_from lt 0 (length (items s)) (items s)"

lemma down_items:
  assumes "ok s" "n \<le> length (items s)"
  shows "ok (snd (heap_down H i n s)) \<and> (fst (heap_down H i n s), items (snd (heap_down H i n s))) = ldown lt i n (items s)"
  using assms
proof (induction H\<equiv>H i n s rule: heap_down.induct)
  case (1 i n s)
  let ?j = "if 2 * i + 1 + 1 < n \<and> h_Less H s (2 * i + 1 + 1) (2 * i + 1) then 2 * i + 1 + 1 else 2 * i + 1"
  show ?case
  proof (cases "2 * i + 1 < n")
    case True
    then have j: "?j = pick lt i n (items s)" using 1(3) Less [of "2 * i + 1 + 1" s "2 * i + 1"] by (auto simp: pick_def)
    then have jn: "?j < n" "i < n" using True pick_child [of i n lt "items s"] by simp_all
    show ?thesis
    proof (cases "h_Less H s ?j i")
      case less: True
      have sw: "ok (h_Swap H i ?j s)" "items (h_Swap H i ?j s) = lswap i ?j (items s)"
        using Swap [OF 1(2), of i ?j] jn 1(3) by linarith+
      have IH: "ok (snd (heap_down H ?j n (h_Swap H i ?j s))) \<and>
          (fst (heap_down H ?j n (h_Swap H i ?j s)), items (snd (heap_down H ?j n (h_Swap H i ?j s)))) = ldown lt ?j n (lswap i ?j (items s))"
        using 1(1) [OF refl _ refl _ sw(1)] True less 1(3) unfolding sw(2) by (simp del: One_nat_def)
      have "lt (items s ! ?j) (items s ! i)" using less Less [of ?j s i] jn 1(3) by simp
      then show ?thesis using IH True less
        by (simp add: heap_down.simps [of H i n s] ldown.simps [of lt i n "items s"] Let_def j [symmetric] del: One_nat_def)
    next
      case False
      have "\<not> lt (items s ! ?j) (items s ! i)" using False Less [of ?j s i] jn 1(3) by simp
      then show ?thesis using True False 1(2)
        by (simp add: heap_down.simps [of H i n s] ldown.simps [of lt i n "items s"] Let_def j [symmetric] del: One_nat_def)
    qed
  next
    case False
    then show ?thesis using 1(2) by (simp add: heap_down.simps [of H i n s] ldown.simps [of lt i n "items s"])
  qed
qed

lemma up_items:
  assumes "ok s" "j < length (items s)"
  shows "ok (heap_up H j s) \<and> items (heap_up H j s) = lup lt j (items s)"
  using assms
proof (induction H\<equiv>H j s rule: heap_up.induct)
  case (1 j s)
  let ?i = "(j - 1) div 2"
  have i: "?i < length (items s)" "?i = parent j" using 1(3) by (auto simp: parent_def)
  show ?case
  proof (cases "?i = j \<or> \<not> h_Less H s j ?i")
    case True
    then show ?thesis using 1(2) Less [OF 1(3) i(1)] by (simp add: heap_up.simps [of H j s] lup.simps [of lt j "items s"] parent_def Let_def)
  next
    case False
    have sw: "ok (h_Swap H ?i j s)" "items (h_Swap H ?i j s) = lswap ?i j (items s)" using Swap [OF 1(2) i(1) 1(3)] by simp_all
    have "ok (heap_up H ?i (h_Swap H ?i j s)) \<and> items (heap_up H ?i (h_Swap H ?i j s)) = lup lt ?i (lswap ?i j (items s))"
      using 1(1) [OF refl False sw(1)] i unfolding sw(2) by simp
    then show ?thesis using False Less [OF 1(3) i(1)] by (simp add: heap_up.simps [of H j s] lup.simps [of lt j "items s"] parent_def Let_def)
  qed
qed

lemma Init_loop:
  assumes "ok s" "n = length (items s)" "heap_from lt m n (items s)" "m \<le> n"
  shows "ok (heap_Init_loop H n m s) \<and> heap_from lt 0 n (items (heap_Init_loop H n m s)) \<and> mset (items (heap_Init_loop H n m s)) = mset (items s)"
  using assms
proof (induction m arbitrary: s)
  case 0
  then show ?case by simp
next
  case (Suc m)
  obtain k ys where e: "ldown lt m n (items s) = (k, ys)" by force
  let ?s = "snd (heap_down H m n s)"
  have s: "ok ?s" "items ?s = ys" using down_items [OF Suc(2), of n m] Suc(3) e by auto
  have fr: "length ys = n" "mset ys = mset (items s)" "k = m \<Longrightarrow> ys = items s" using ldown_frame [OF e] Suc(3) by simp_all
  have but: "heap_but lt m n (items s) m"
    unfolding heap_but_def
  proof (intro conjI allI impI)
    fix j assume "0 < j \<and> j < n \<and> m \<le> parent j \<and> j \<noteq> m \<and> parent j \<noteq> m"
    then show "edge lt (items s) j" using Suc(4) unfolding heap_from_def by (metis Suc_leI le_neq_implies_less)
  next
    fix c assume c: "0 < m \<and> 0 < c \<and> c < n \<and> m \<le> parent m \<and> parent c = m"
    then have "parent m < m" by simp
    with c show "\<not> lt (items s ! c) (items s ! parent m)" by linarith
  qed
  have hp: "heap_from lt m n ys"
  proof (cases "k = m")
    case True
    have "m \<le> parent m \<Longrightarrow> 0 < m \<Longrightarrow> False" using parent_less [of m] by linarith
    then show ?thesis
      using ldown_heap [OF e _ order but le_refl, unfolded if_P [OF True]] heap_from_but [OF but] fr(3) [OF True] Suc(3) by blast
  next
    case False
    show ?thesis using ldown_heap [OF e _ order but le_refl, unfolded if_not_P [OF False]] Suc(3) by blast
  qed
  show ?case using Suc(1) [OF s(1)] s(2) fr hp Suc(5) by simp
qed

lemma Init_heap: "ok s \<Longrightarrow> heap (heap_Init H s) \<and> mset (items (heap_Init H s)) = mset (items s)"
proof -
  assume s: "ok s"
  have "heap_from lt (length (items s) div 2) (length (items s)) (items s)"
    unfolding heap_from_def by (auto simp: parent_def)
  then have "ok (heap_Init H s) \<and> heap_from lt 0 (length (items s)) (items (heap_Init H s)) \<and> mset (items (heap_Init H s)) = mset (items s)"
    using Init_loop [OF s refl] unfolding heap_Init_def Len by simp
  then show ?thesis by (metis size_mset)
qed

lemma Fix_items:
  assumes "ok s" "n \<le> length (items s)" "i < n"
  shows "ok (heap_Fix H i n s) \<and> items (heap_Fix H i n s) = lfix lt i n (items s)"
proof -
  obtain k t where e: "heap_down H i n s = (k, t)" by force
  have t: "ok t" "ldown lt i n (items s) = (k, items t)" using down_items [OF assms(1,2), of i] e by auto
  have "length (items t) = length (items s)" using ldown_frame [OF t(2) assms(2)] by simp
  then show ?thesis using up_items [OF t(1), of i] t assms e by (simp add: heap_Fix_def lfix_def)
qed

text \<open>Replacing the element at \<open>i\<close> of a heap and calling Fix gives a heap of the new elements.\<close>

lemma Fix_heap:
  assumes "ok s" "items s = xs[i := x]" "heap_from lt 0 (length xs) xs" "i < length xs"
  shows "heap (heap_Fix H i (length xs) s) \<and> mset (items (heap_Fix H i (length xs) s)) = mset (items s)"
proof -
  have "heap_but lt 0 (length xs) (items s) i" using heap_but_update [OF order assms(3,4) le_refl] assms(2) by simp
  then show ?thesis using lfix_heap [OF order _ assms(4), of "items s"] Fix_items [OF assms(1), of "length xs" i] assms by simp
qed

lemma Push_heap:
  assumes "heap s" "fresh s x"
  shows "heap (heap_Push H x s) \<and> mset (items (heap_Push H x s)) = add_mset x (mset (items s))"
proof -
  let ?xs = "items s @ [x]" and ?n = "length (items s)"
  note p = Push [OF conjunct1 [OF assms(1)] assms(2)]
  have but: "heap_but lt 0 (Suc ?n) ?xs ?n"
    unfolding heap_but_def
  proof (intro conjI allI impI)
    fix j assume j: "0 < j \<and> j < Suc ?n \<and> 0 \<le> parent j \<and> j \<noteq> ?n \<and> parent j \<noteq> ?n"
    then have "j < ?n" "parent j < ?n" using parent_less [of j] by linarith+
    then show "edge lt ?xs j" using heap_from_edge [OF conjunct2 [OF assms(1)], of j] j by (simp add: nth_append)
  next
    fix c assume "0 < ?n \<and> 0 < c \<and> c < Suc ?n \<and> 0 \<le> parent ?n \<and> parent c = ?n"
    then show "\<not> lt (?xs ! c) (?xs ! parent ?n)" using parent_less [of c] by linarith
  qed
  have "edge lt ?xs c" if "0 < c" "c < Suc ?n" "parent c = ?n" for c using that parent_less [of c] by linarith
  then have "heap_from lt 0 (Suc ?n) (lup lt ?n ?xs)" using lup_heap [OF order _ but] by simp
  moreover have "ok (heap_Push H x s) \<and> items (heap_Push H x s) = lup lt ?n ?xs"
    using up_items [of "h_Push H x s" ?n] p by (simp add: heap_Push_def Len Let_def)
  ultimately show ?thesis using lup_frame [of ?n ?xs lt] by simp
qed

text \<open>The last element is dropped once the others are a heap.\<close>

lemma drop_last:
  assumes "ok t" "length (items t) = Suc n" "heap_from lt 0 n (butlast (items t))"
  shows "\<exists>s'. h_Pop H t = (last (items t), s') \<and> heap s' \<and> mset (items t) = add_mset (last (items t)) (mset (items s'))"
proof -
  obtain ys y where ys: "items t = ys @ [y]" "length ys = n" using assms(2) by (cases "items t" rule: rev_cases) auto
  obtain x s' where e: "h_Pop H t = (x, s')" by force
  have "ok s' \<and> items s' = ys \<and> x = y" using Pop [OF assms(1)] ys e by simp
  then show ?thesis using e ys assms(3) by simp
qed

lemma Remove_heap:
  assumes "heap s" "i < length (items s)"
  shows "\<exists>s'. heap_Remove H i s = Some (items s ! i, s') \<and> heap s' \<and> mset (items s) = add_mset (items s ! i) (mset (items s'))"
proof -
  obtain n where n: "length (items s) = Suc n" using assms(2) by (cases "length (items s)") auto
  have hp: "heap_from lt 0 (Suc n) (items s)" using assms(1) n by simp
  let ?t = "if n \<noteq> i then heap_Fix H i n (h_Swap H i n s) else s"
  have t: "ok ?t \<and> length (items ?t) = Suc n \<and> heap_from lt 0 n (butlast (items ?t)) \<and> last (items ?t) = items s ! i \<and> mset (items ?t) = mset (items s)"
  proof (cases "n = i")
    case True
    have "heap_from lt 0 n (butlast (items s))"
      by (rule heap_from_cong [OF heap_from_mono [OF hp]]) (simp_all add: nth_butlast n)
    moreover have "last (items s) = items s ! n" using n by (metis diff_Suc_1 last_conv_nth length_0_conv nat.distinct(1))
    ultimately show ?thesis using True assms(1) n by simp
  next
    case False
    then have i: "i < n" using assms(2) n by simp
    have sw: "ok (h_Swap H i n s)" "items (h_Swap H i n s) = lswap i n (items s)" using Swap [of s i n] assms n by simp_all
    have "ok (heap_Fix H i n (h_Swap H i n s)) \<and> items (heap_Fix H i n (h_Swap H i n s)) = lfix lt i n (lswap i n (items s))"
      using Fix_items [OF sw(1) _ i] sw(2) n by simp
    then show ?thesis using lfix_remove [OF order hp n i] False by simp
  qed
  have "heap_Remove H i s = Some (h_Pop H ?t)" using n assms(2) by (simp add: heap_Remove_def Len Let_def)
  then show ?thesis using drop_last [of ?t n] t by auto
qed

lemma Pop_heap:
  assumes "heap s" "items s \<noteq> []"
  shows "\<exists>s'. heap_Pop H s = Some (items s ! 0, s') \<and> heap s' \<and> mset (items s) = add_mset (items s ! 0) (mset (items s'))"
proof -
  obtain n where n: "length (items s) = Suc n" using assms(2) by (cases "items s") auto
  have hp: "heap_from lt 0 (Suc n) (items s)" using assms(1) n by simp
  let ?sw = "h_Swap H 0 n s" and ?t = "snd (heap_down H 0 n (h_Swap H 0 n s))"
  have sw: "ok ?sw" "items ?sw = lswap 0 n (items s)" using Swap [of s 0 n] assms n by simp_all
  have d: "ok ?t" "items ?t = lfix lt 0 n (lswap 0 n (items s))"
    using down_items [OF sw(1), of n 0] sw(2) n by (auto simp: lfix_root dest: arg_cong [where f = snd])
  have t: "length (items ?t) = Suc n \<and> heap_from lt 0 n (butlast (items ?t)) \<and> last (items ?t) = items s ! 0 \<and> mset (items ?t) = mset (items s)"
  proof (cases "n = 0")
    case True
    then obtain y where "items s = [y]" using n by (auto simp: length_Suc_conv)
    then show ?thesis using True d by (simp add: lfix_root ldown.simps [of lt 0 0] lswap_def heap_from_def)
  next
    case False
    then show ?thesis using lfix_remove [OF order hp n, of 0] d(2) by simp
  qed
  have "heap_Pop H s = Some (h_Pop H ?t)" using n by (simp add: heap_Pop_def Len)
  then show ?thesis using drop_last [OF d(1), of n] t by auto
qed

lemma least: "heap s \<Longrightarrow> y \<in> set (items s) \<Longrightarrow> \<not> lt y (items s ! 0)"
  using heap_least [OF order] by (metis in_set_conv_nth)

end

section \<open>Collections whose elements know their index\<close>

text \<open>A slice of pointers to objects with an index field: the slice, and the index field of every object.\<close>

record IndexedHeap =
  ih_items :: "nat list"
  ih_index :: "nat \<Rightarrow> int"

definition indexedHeap :: "(nat \<Rightarrow> nat \<Rightarrow> bool) \<Rightarrow> (IndexedHeap, nat) HeapInterface" where
  "indexedHeap lt = \<lparr>
     h_Len = (\<lambda>t. length (ih_items t)),
     h_Less = (\<lambda>t i j. lt (ih_items t ! i) (ih_items t ! j)),
     h_Swap = (\<lambda>i j t. let xs = (ih_items t)[i := ih_items t ! j, j := ih_items t ! i] in
        t\<lparr>ih_items := xs, ih_index := (ih_index t)(xs ! i := int i, xs ! j := int j)\<rparr>),
     h_Push = (\<lambda>p t. t\<lparr>ih_items := ih_items t @ [p], ih_index := (ih_index t)(p := int (length (ih_items t)))\<rparr>),
     h_Pop = (\<lambda>t. let n = length (ih_items t) - 1 in
        (ih_items t ! n, t\<lparr>ih_items := take n (ih_items t), ih_index := (ih_index t)(ih_items t ! n := -1)\<rparr>))\<rparr>"

text \<open>The index field of an element is its position, of any other object -1.\<close>

definition indexed :: "IndexedHeap \<Rightarrow> bool" where
  "indexed t \<longleftrightarrow> distinct (ih_items t) \<and> (\<forall>i < length (ih_items t). ih_index t (ih_items t ! i) = int i) \<and>
     (\<forall>p. p \<notin> set (ih_items t) \<longrightarrow> ih_index t p = -1)"

lemma indexed_empty [simp]: "indexed \<lparr>ih_items = [], ih_index = (\<lambda>_. -1)\<rparr>"
  by (simp add: indexed_def)

lemma indexed_at: "indexed t \<Longrightarrow> i < length (ih_items t) \<Longrightarrow> ih_index t (ih_items t ! i) = int i"
  and indexed_out: "indexed t \<Longrightarrow> p \<notin> set (ih_items t) \<Longrightarrow> ih_index t p = -1"
  and indexed_distinct: "indexed t \<Longrightarrow> distinct (ih_items t)"
  unfolding indexed_def by blast+

lemma indexed_in: "indexed t \<Longrightarrow> ih_index t p \<ge> 0 \<longleftrightarrow> p \<in> set (ih_items t)"
proof (cases "p \<in> set (ih_items t)")
  case True
  moreover assume "indexed t"
  ultimately show ?thesis using indexed_at [of t] by (auto simp: in_set_conv_nth)
qed (simp add: indexed_out)

lemma indexed_position:
  assumes "indexed t" "ih_index t p = int i"
  shows "i < length (ih_items t) \<and> ih_items t ! i = p"
proof -
  have "p \<in> set (ih_items t)" using indexed_in [OF assms(1), of p] assms(2) by simp
  then obtain k where k: "k < length (ih_items t)" "ih_items t ! k = p" by (auto simp: in_set_conv_nth)
  then show ?thesis using indexed_at [OF assms(1) k(1)] assms(2) by simp
qed

lemma go_heap_indexed:
  assumes "weak_order lt"
  shows "go_heap (indexedHeap lt) ih_items lt indexed (\<lambda>t p. p \<notin> set (ih_items t))"
proof
  fix t :: IndexedHeap and i j
  assume t: "indexed t" and i: "i < length (ih_items t)" and j: "j < length (ih_items t)"
  have sw: "ih_items (h_Swap (indexedHeap lt) i j t) = lswap i j (ih_items t)" by (simp add: indexedHeap_def lswap_def Let_def)
  have d: "distinct (lswap i j (ih_items t))" using t i j unfolding indexed_def lswap_def by simp
  have s: "set (lswap i j (ih_items t)) = set (ih_items t)" using mset_lswap [OF i j] mset_eq_setD by blast
  have "ih_index (h_Swap (indexedHeap lt) i j t) (lswap i j (ih_items t) ! k) = int k" if k: "k < length (ih_items t)" for k
    using i j k indexed_at [OF t] indexed_distinct [OF t]
    by (auto simp: indexedHeap_def Let_def lswap_def [symmetric] nth_lswap nth_eq_iff_index_eq)
  moreover have "ih_index (h_Swap (indexedHeap lt) i j t) p = -1" if p: "p \<notin> set (ih_items t)" for p
  proof -
    have "p \<noteq> lswap i j (ih_items t) ! i" "p \<noteq> lswap i j (ih_items t) ! j" using p i j s by (metis length_lswap nth_mem)+
    then show ?thesis using t p by (simp add: indexedHeap_def Let_def lswap_def [symmetric] indexed_def)
  qed
  ultimately show "indexed (h_Swap (indexedHeap lt) i j t) \<and> ih_items (h_Swap (indexedHeap lt) i j t) = lswap i j (ih_items t)"
    using sw d s by (simp add: indexed_def)
next
  fix t :: IndexedHeap
  assume t: "indexed t" and ne: "ih_items t \<noteq> []"
  obtain ys y where ys: "ih_items t = ys @ [y]" using ne by (cases "ih_items t" rule: rev_cases) auto
  have "y \<notin> set ys" using t ys by (simp add: indexed_def)
  moreover have "ih_index t (ys ! i) = int i" if "i < length ys" for i
    using indexed_at [OF t, of i] ys that by (simp add: nth_append)
  moreover have "ih_index t p = -1" if "p \<notin> set ys" "p \<noteq> y" for p using indexed_out [OF t] ys that by simp
  ultimately show "indexed (snd (h_Pop (indexedHeap lt) t)) \<and> ih_items (snd (h_Pop (indexedHeap lt) t)) = butlast (ih_items t) \<and>
    fst (h_Pop (indexedHeap lt) t) = last (ih_items t)"
    using indexed_distinct [OF t] ys by (fastforce simp: indexedHeap_def indexed_def Let_def)
qed (use assms in \<open>auto simp: indexedHeap_def indexed_def nth_append less_Suc_eq\<close>)

end
