(* ===== verification/Tx_Order.thy ===== *)
theory Tx_Order
  imports Go_Heap Tx_Types
begin

text \<open>
  The order in which transactions are taken for a block (\<open>types/transaction.go\<close>): a heap of the next transaction of
  every account by price and time of arrival, and the remaining transactions of the accounts in their own order.
  \<open>None\<close> is a panic.  The comparison of two prices dereferences both, so the properties are about transactions that
  have one.
\<close>

section \<open>The heap by price and time\<close>

definition gasPriceOf :: "Transaction \<Rightarrow> int" where
  "gasPriceOf t = the (tx_GasPrice t)"

definition TxByPriceAndTime_Less :: "Transaction list \<Rightarrow> nat \<Rightarrow> nat \<Rightarrow> bool" where
  "TxByPriceAndTime_Less s i j =
     (let p = gasPriceOf (s ! i); q = gasPriceOf (s ! j) in
      if p = q then tx_ReceivedTime (s ! i) < tx_ReceivedTime (s ! j) else p > q)"

definition TxByPriceAndTime_Swap :: "nat \<Rightarrow> nat \<Rightarrow> Transaction list \<Rightarrow> Transaction list" where
  "TxByPriceAndTime_Swap i j s = s[i := s ! j, j := s ! i]"

definition TxByPriceAndTime_Push :: "Transaction \<Rightarrow> Transaction list \<Rightarrow> Transaction list" where
  "TxByPriceAndTime_Push v s = s @ [v]"

definition TxByPriceAndTime_Pop :: "Transaction list \<Rightarrow> Transaction \<times> Transaction list" where
  "TxByPriceAndTime_Pop old = (let n = length old in (old ! (n - 1), take (n - 1) old))"

definition TxByPriceAndTime :: "(Transaction list, Transaction) HeapInterface" where
  "TxByPriceAndTime = \<lparr>h_Len = length, h_Less = TxByPriceAndTime_Less, h_Swap = TxByPriceAndTime_Swap,
     h_Push = TxByPriceAndTime_Push, h_Pop = TxByPriceAndTime_Pop\<rparr>"

text \<open>\<open>PoolTxByNonce\<close> orders the transactions of one account.\<close>

definition PoolTxByNonce_Less :: "Transaction list \<Rightarrow> nat \<Rightarrow> nat \<Rightarrow> bool" where
  "PoolTxByNonce_Less s i j \<longleftrightarrow> tx_Nonce (s ! i) < tx_Nonce (s ! j)"

section \<open>The next transaction of every account\<close>

record TransactionsByPriceAndNonce =
  tp_txs :: "address \<Rightarrow> Transaction list option"
  tp_heads :: "Transaction list"

text \<open>The range over a Go map visits its keys in some order, which is an argument.\<close>

fun takeHeads :: "address list \<Rightarrow> (address \<Rightarrow> Transaction list option) \<Rightarrow> Transaction list \<Rightarrow> TransactionsByPriceAndNonce option" where
  "takeHeads [] txs heads = Some \<lparr>tp_txs = txs, tp_heads = heads\<rparr>"
| "takeHeads (from # order) txs heads =
     (case txs from of
        Some (t # rest) \<Rightarrow> takeHeads order (txs(from := Some rest)) (heads @ [t])
      | _ \<Rightarrow> None)"

definition NewTransactionsByPriceAndNonce :: "address list \<Rightarrow> (address \<Rightarrow> Transaction list option) \<Rightarrow> TransactionsByPriceAndNonce option" where
  "NewTransactionsByPriceAndNonce order txs =
     map_option (\<lambda>t. t\<lparr>tp_heads := heap_Init TxByPriceAndTime (tp_heads t)\<rparr>) (takeHeads order txs [])"

definition Peek_tx :: "TransactionsByPriceAndNonce \<Rightarrow> Transaction option" where
  "Peek_tx t = (if length (tp_heads t) = 0 then None else Some (tp_heads t ! 0))"

definition Pop_tx :: "TransactionsByPriceAndNonce \<Rightarrow> TransactionsByPriceAndNonce option" where
  "Pop_tx t = map_option (\<lambda>(_, heads). t\<lparr>tp_heads := heads\<rparr>) (heap_Pop TxByPriceAndTime (tp_heads t))"

definition Shift_tx :: "TransactionsByPriceAndNonce \<Rightarrow> TransactionsByPriceAndNonce option" where
  "Shift_tx t =
     (if tp_heads t = [] then None
      else
        let account = tx_From (tp_heads t ! 0) in
        (case tp_txs t account of
           Some (next # rest) \<Rightarrow>
             let heads = (tp_heads t)[0 := next] in
             Some (t\<lparr>tp_heads := heap_Fix TxByPriceAndTime 0 (length heads) heads, tp_txs := (tp_txs t)(account := Some rest)\<rparr>)
         | _ \<Rightarrow> Pop_tx t))"

section \<open>Correctness\<close>

text \<open>A transaction goes before another when it pays more or, at the same price, came earlier.\<close>

definition goesBefore :: "Transaction \<Rightarrow> Transaction \<Rightarrow> bool" where
  "goesBefore x y \<longleftrightarrow>
     gasPriceOf x > gasPriceOf y \<or> gasPriceOf x = gasPriceOf y \<and> tx_ReceivedTime x < tx_ReceivedTime y"

lemma goesBefore_order: "weak_order goesBefore"
  unfolding weak_order_def goesBefore_def by auto

lemmas TxByPriceAndTime_defs = TxByPriceAndTime_def TxByPriceAndTime_Less_def TxByPriceAndTime_Swap_def
  TxByPriceAndTime_Push_def TxByPriceAndTime_Pop_def

interpretation txHeap: go_heap TxByPriceAndTime "\<lambda>s. s" goesBefore "\<lambda>_. True" "\<lambda>_ _. True"
proof
  show "h_Less TxByPriceAndTime s i j = goesBefore (s ! i) (s ! j)" for s i j
    by (auto simp: TxByPriceAndTime_defs goesBefore_def Let_def)
qed (simp_all add: goesBefore_order TxByPriceAndTime_defs lswap_def Let_def butlast_conv_take last_conv_nth)

text \<open>What is still to be taken from an account: its transaction in the heap and the ones after it.\<close>

definition remaining :: "TransactionsByPriceAndNonce \<Rightarrow> address \<Rightarrow> Transaction list" where
  "remaining t a =
     (case List.find (\<lambda>h. tx_From h = a) (tp_heads t) of
        None \<Rightarrow> []
      | Some h \<Rightarrow> h # (case tp_txs t a of None \<Rightarrow> [] | Some rest \<Rightarrow> rest))"

definition own_txs :: "(address \<Rightarrow> Transaction list option) \<Rightarrow> bool" where
  "own_txs txs \<longleftrightarrow> (\<forall>a rest. txs a = Some rest \<longrightarrow> (\<forall>x \<in> set rest. tx_From x = a))"

definition wf_order :: "TransactionsByPriceAndNonce \<Rightarrow> bool" where
  "wf_order t \<longleftrightarrow> heap_from goesBefore 0 (length (tp_heads t)) (tp_heads t) \<and> distinct (map tx_From (tp_heads t)) \<and>
     own_txs (tp_txs t)"

lemma own_txs_next: "own_txs txs \<Longrightarrow> txs a = Some (y # rest) \<Longrightarrow> tx_From y = a \<and> own_txs (txs(a \<mapsto> rest))"
  unfolding own_txs_def by (metis fun_upd_apply list.set_intros option.inject)

lemma find_From: "distinct (map tx_From hs) \<Longrightarrow> List.find (\<lambda>h. tx_From h = a) hs = Some h \<longleftrightarrow> h \<in> set hs \<and> tx_From h = a"
  by (induction hs) (auto simp: image_iff)

lemma find_From_None: "List.find (\<lambda>h. tx_From h = a) hs = None \<longleftrightarrow> a \<notin> tx_From ` set hs"
  by (induction hs) auto

text \<open>The remaining transactions depend only on which heads there are, not on their order.\<close>

lemma remaining_mset:
  assumes "mset (tp_heads t) = mset (tp_heads t')" "tp_txs t = tp_txs t'" "distinct (map tx_From (tp_heads t))"
  shows "remaining t = remaining t'" "distinct (map tx_From (tp_heads t'))"
proof -
  have "mset (map tx_From (tp_heads t)) = mset (map tx_From (tp_heads t'))" using assms(1) by simp
  then show d: "distinct (map tx_From (tp_heads t'))" using assms(3) mset_eq_imp_distinct_iff by blast
  have s: "set (tp_heads t) = set (tp_heads t')" using mset_eq_setD [OF assms(1)] .
  have "List.find (\<lambda>h. tx_From h = a) (tp_heads t) = List.find (\<lambda>h. tx_From h = a) (tp_heads t')" for a
  proof (cases "List.find (\<lambda>h. tx_From h = a) (tp_heads t')")
    case None
    then have "List.find (\<lambda>h. tx_From h = a) (tp_heads t) = None" using s unfolding find_From_None by simp
    then show ?thesis using None by simp
  next
    case (Some h)
    then have "h \<in> set (tp_heads t) \<and> tx_From h = a" using find_From [OF d, of a h] s by simp
    then show ?thesis using find_From [OF assms(3), of a h] Some by simp
  qed
  then show "remaining t = remaining t'" by (intro ext) (simp add: remaining_def assms(2) cong: option.case_cong)
qed

lemma remaining_head:
  assumes "wf_order t" "h \<in> set (tp_heads t)"
  shows "remaining t (tx_From h) = h # (case tp_txs t (tx_From h) of None \<Rightarrow> [] | Some rest \<Rightarrow> rest)"
proof -
  have "distinct (map tx_From (tp_heads t))" using assms(1) by (simp add: wf_order_def)
  then have "List.find (\<lambda>k. tx_From k = tx_From h) (tp_heads t) = Some h" using find_From assms(2) by blast
  then show ?thesis by (simp add: remaining_def)
qed

lemma remaining_nonempty:
  assumes "wf_order t" "remaining t a = x # xs"
  shows "x \<in> set (tp_heads t) \<and> tx_From x = a"
proof -
  have d: "distinct (map tx_From (tp_heads t))" using assms(1) by (simp add: wf_order_def)
  have "List.find (\<lambda>k. tx_From k = a) (tp_heads t) = Some x"
    using assms(2) by (auto simp: remaining_def split: option.splits)
  then show ?thesis using find_From [OF d] by blast
qed

lemma Peek_best:
  assumes "wf_order t" "Peek_tx t = Some x"
  shows "(\<exists>rest. remaining t (tx_From x) = x # rest) \<and> (\<forall>a y ys. remaining t a = y # ys \<longrightarrow> \<not> goesBefore y x)"
proof -
  have x: "tp_heads t \<noteq> []" "x = tp_heads t ! 0" using assms(2) by (auto simp: Peek_tx_def split: if_splits)
  then have "x \<in> set (tp_heads t)" by simp
  moreover have "\<not> goesBefore y x" if "remaining t a = y # ys" for a y ys
    using remaining_nonempty [OF assms(1) that] txHeap.least [of "tp_heads t" y] assms(1) x(2) by (simp add: wf_order_def)
  ultimately show ?thesis using remaining_head [OF assms(1)] by blast
qed

lemma Peek_none: "wf_order t \<Longrightarrow> Peek_tx t = None \<longleftrightarrow> (\<forall>a. remaining t a = [])"
proof -
  assume wf: "wf_order t"
  have "tp_heads t \<noteq> [] \<Longrightarrow> remaining t (tx_From (tp_heads t ! 0)) \<noteq> []"
    using remaining_head [OF wf, of "tp_heads t ! 0"] by simp
  moreover have "tp_heads t = [] \<Longrightarrow> remaining t a = []" for a by (simp add: remaining_def)
  ultimately show ?thesis by (auto simp: Peek_tx_def)
qed

text \<open>Taking the head of an account out of the heap leaves the others.\<close>

lemma remaining_drop:
  assumes d: "distinct (map tx_From hs)" "mset hs = add_mset x (mset hs')"
  shows "remaining (t\<lparr>tp_heads := hs'\<rparr>) = (remaining (t\<lparr>tp_heads := hs\<rparr>))(tx_From x := [])" "distinct (map tx_From hs')"
proof -
  have m: "mset hs = mset (x # hs')" using d(2) by simp
  then have "mset (map tx_From hs) = mset (map tx_From (x # hs'))" by (metis mset_map)
  then have dx: "distinct (map tx_From (x # hs'))" using d(1) mset_eq_imp_distinct_iff by blast
  then show "distinct (map tx_From hs')" by simp
  have "remaining (t\<lparr>tp_heads := hs\<rparr>) = remaining (t\<lparr>tp_heads := x # hs'\<rparr>)"
    by (rule remaining_mset) (simp_all add: m d(1))
  moreover have "List.find (\<lambda>h. tx_From h = tx_From x) hs' = None" using dx by (auto simp: find_From_None)
  ultimately show "remaining (t\<lparr>tp_heads := hs'\<rparr>) = (remaining (t\<lparr>tp_heads := hs\<rparr>))(tx_From x := [])"
    by (intro ext) (auto simp: remaining_def cong: option.case_cong)
qed

lemma Pop_drops:
  assumes "wf_order t" "Peek_tx t = Some x"
  shows "\<exists>t'. Pop_tx t = Some t' \<and> wf_order t' \<and> remaining t' = (remaining t)(tx_From x := [])"
proof -
  have x: "tp_heads t \<noteq> []" "x = tp_heads t ! 0" using assms(2) by (auto simp: Peek_tx_def split: if_splits)
  have wf: "heap_from goesBefore 0 (length (tp_heads t)) (tp_heads t)" "distinct (map tx_From (tp_heads t))"
    using assms(1) by (simp_all add: wf_order_def)
  obtain hs' where h: "heap_Pop TxByPriceAndTime (tp_heads t) = Some (x, hs')" "heap_from goesBefore 0 (length hs') hs'"
    "mset (tp_heads t) = add_mset x (mset hs')"
    using txHeap.Pop_heap [of "tp_heads t"] wf x by auto
  note d = remaining_drop(1) [OF wf(2) h(3), of t] remaining_drop(2) [OF wf(2) h(3)]
  have "Pop_tx t = Some (t\<lparr>tp_heads := hs'\<rparr>)" using h(1) by (simp add: Pop_tx_def)
  moreover have "wf_order (t\<lparr>tp_heads := hs'\<rparr>)" using assms(1) h(2) d(2) by (simp add: wf_order_def)
  ultimately show ?thesis using d(1) by simp
qed

text \<open>Replacing the head of an account by the next one of the same account.\<close>

lemma Shift_advances:
  assumes "wf_order t" "Peek_tx t = Some x"
  shows "\<exists>t'. Shift_tx t = Some t' \<and> wf_order t' \<and> remaining t' = (remaining t)(tx_From x := tl (remaining t (tx_From x)))"
proof -
  have x: "tp_heads t \<noteq> []" "x = tp_heads t ! 0" using assms(2) by (auto simp: Peek_tx_def split: if_splits)
  then obtain hs where hs: "tp_heads t = x # hs" by (cases "tp_heads t") auto
  have r: "remaining t (tx_From x) = x # (case tp_txs t (tx_From x) of None \<Rightarrow> [] | Some rest \<Rightarrow> rest)"
    using remaining_head [OF assms(1), of x] hs by simp
  show ?thesis
  proof (cases "tp_txs t (tx_From x) = None \<or> tp_txs t (tx_From x) = Some []")
    case True
    then have "Shift_tx t = Pop_tx t" "tl (remaining t (tx_From x)) = []" using x r by (auto simp: Shift_tx_def)
    then show ?thesis using Pop_drops [OF assms] by simp
  next
    case False
    then obtain y rest where y: "tp_txs t (tx_From x) = Some (y # rest)" by (auto simp: neq_Nil_conv)
    have wf: "heap_from goesBefore 0 (length (x # hs)) (x # hs)" "distinct (map tx_From (x # hs))" "tx_From y = tx_From x"
      "own_txs ((tp_txs t)(tx_From x \<mapsto> rest))"
      using assms(1) y hs own_txs_next [of "tp_txs t", OF _ y] by (auto simp: wf_order_def)
    let ?hs = "heap_Fix TxByPriceAndTime 0 (length (x # hs)) (y # hs)"
    have fx: "heap_from goesBefore 0 (length ?hs) ?hs" "mset ?hs = mset (y # hs)"
      using txHeap.Fix_heap [of "y # hs" "x # hs" 0 y] wf(1) by simp_all
    let ?t = "t\<lparr>tp_heads := ?hs, tp_txs := (tp_txs t)(tx_From x \<mapsto> rest)\<rparr>"
    have s: "Shift_tx t = Some ?t" using y hs by (simp add: Shift_tx_def Let_def)
    have d: "distinct (map tx_From (y # hs))" using wf(2,3) by simp
    have rem: "remaining (t\<lparr>tp_heads := y # hs, tp_txs := (tp_txs t)(tx_From x \<mapsto> rest)\<rparr>) = remaining ?t" "distinct (map tx_From ?hs)"
      using remaining_mset [of "t\<lparr>tp_heads := y # hs, tp_txs := (tp_txs t)(tx_From x \<mapsto> rest)\<rparr>" ?t] fx(2) d by simp_all
    have rem': "remaining (t\<lparr>tp_heads := y # hs, tp_txs := (tp_txs t)(tx_From x \<mapsto> rest)\<rparr>) = (remaining t)(tx_From x := y # rest)"
      using wf(3) hs by (intro ext) (auto simp: remaining_def cong: option.case_cong)
    have wft: "wf_order ?t" using fx(1) rem(2) wf(4) by (simp add: wf_order_def)
    have tl: "tl (remaining t (tx_From x)) = y # rest" using r y by simp
    have "remaining ?t = (remaining t)(tx_From x := y # rest)" by (rule trans [OF rem(1) [symmetric] rem'])
    then show ?thesis using s wft unfolding tl by blast
  qed
qed

lemma takeHeads_correct:
  assumes "distinct order" "\<And>a. a \<in> set order \<Longrightarrow> \<exists>x xs. txs a = Some (x # xs)"
  shows "\<exists>t. takeHeads order txs heads = Some t \<and> tp_heads t = heads @ map (\<lambda>a. hd (the (txs a))) order \<and>
    tp_txs t = (\<lambda>a. if a \<in> set order then Some (tl (the (txs a))) else txs a)"
  using assms
proof (induction order arbitrary: txs heads)
  case Nil
  then show ?case by auto
next
  case (Cons a order)
  obtain x xs where x: "txs a = Some (x # xs)" using Cons(3) [of a] by auto
  have "\<exists>t. takeHeads order (txs(a \<mapsto> xs)) (heads @ [x]) = Some t \<and>
      tp_heads t = (heads @ [x]) @ map (\<lambda>b. hd (the ((txs(a \<mapsto> xs)) b))) order \<and>
      tp_txs t = (\<lambda>b. if b \<in> set order then Some (tl (the ((txs(a \<mapsto> xs)) b))) else (txs(a \<mapsto> xs)) b)"
    using Cons(2,3) by (intro Cons(1)) auto
  moreover have "map (\<lambda>b. hd (the ((txs(a \<mapsto> xs)) b))) order = map (\<lambda>b. hd (the (txs b))) order" using Cons(2) by auto
  ultimately show ?case using x Cons(2) by (auto simp: fun_eq_iff)
qed

lemma New_correct:
  assumes "distinct order" "set order = dom txs"
    and "\<And>a l. txs a = Some l \<Longrightarrow> l \<noteq> [] \<and> (\<forall>x \<in> set l. tx_From x = a)"
  shows "\<exists>t. NewTransactionsByPriceAndNonce order txs = Some t \<and> wf_order t \<and>
    remaining t = (\<lambda>a. case txs a of None \<Rightarrow> [] | Some l \<Rightarrow> l)"
proof -
  have ne: "\<exists>x xs. txs a = Some (x # xs)" if "a \<in> set order" for a
    using that assms(2,3) by (metis domD neq_Nil_conv)
  obtain t where t: "takeHeads order txs [] = Some t" "tp_heads t = map (\<lambda>a. hd (the (txs a))) order"
    "tp_txs t = (\<lambda>a. if a \<in> set order then Some (tl (the (txs a))) else txs a)"
    using takeHeads_correct [OF assms(1), of txs "[]"] ne by auto
  have from_hd: "tx_From (hd (the (txs a))) = a" if "a \<in> set order" for a using ne [OF that] assms(3) by force
  then have froms: "map tx_From (tp_heads t) = order" unfolding t(2) by (simp add: map_idI)
  let ?hs = "heap_Init TxByPriceAndTime (tp_heads t)"
  have i: "heap_from goesBefore 0 (length ?hs) ?hs" "mset ?hs = mset (tp_heads t)" using txHeap.Init_heap by blast+
  have "remaining t = remaining (t\<lparr>tp_heads := ?hs\<rparr>)" "distinct (map tx_From ?hs)"
    using remaining_mset [of t "t\<lparr>tp_heads := ?hs\<rparr>"] i(2) froms assms(1) by simp_all
  moreover have "remaining t = (\<lambda>a. case txs a of None \<Rightarrow> [] | Some l \<Rightarrow> l)"
  proof
    fix a show "remaining t a = (case txs a of None \<Rightarrow> [] | Some l \<Rightarrow> l)"
    proof (cases "a \<in> set order")
      case True
      then have "List.find (\<lambda>h. tx_From h = a) (tp_heads t) = Some (hd (the (txs a)))"
        using find_From [of "tp_heads t" a "hd (the (txs a))"] froms assms(1) from_hd t(2) by auto
      then show ?thesis using ne [OF True] True t(3) by (auto simp: remaining_def)
    next
      case False
      then have "List.find (\<lambda>h. tx_From h = a) (tp_heads t) = None" using froms by (metis find_From_None set_map)
      then show ?thesis using False assms(2) by (auto simp: remaining_def split: option.split)
    qed
  qed
  moreover have "own_txs (tp_txs t)" unfolding own_txs_def
  proof (intro allI impI)
    fix a rest assume that: "tp_txs t a = Some rest"
    show "\<forall>x \<in> set rest. tx_From x = a"
    proof (cases "a \<in> set order")
      case True
      then obtain x xs where x: "txs a = Some (x # xs)" using ne by blast
      then have "rest = xs" using that True t(3) by simp
      then show ?thesis using assms(3) [OF x] by (meson list.set_intros(2))
    next
      case False
      then have "txs a = Some rest" using that t(3) by simp
      then show ?thesis using assms(3) by blast
    qed
  qed
  ultimately show ?thesis using t(1) i(1) by (simp add: NewTransactionsByPriceAndNonce_def wf_order_def)
qed

text \<open>Taking transactions until there are none, each time the one \<open>Peek\<close> shows.\<close>

fun takeAll :: "nat \<Rightarrow> TransactionsByPriceAndNonce \<Rightarrow> Transaction list option" where
  "takeAll n t =
     (case Peek_tx t of
        None \<Rightarrow> Some []
      | Some x \<Rightarrow> (case n of
            0 \<Rightarrow> None
          | Suc m \<Rightarrow> Option.bind (Shift_tx t) (\<lambda>t. map_option ((#) x) (takeAll m t))))"

declare takeAll.simps [simp del]

text \<open>Every transaction of the sequence is at least as good as the next one of every account at that point.\<close>

definition greedy :: "Transaction list \<Rightarrow> bool" where
  "greedy out \<longleftrightarrow> (\<forall>pre x post a y ys. out = pre @ x # post \<longrightarrow> filter (\<lambda>z. tx_From z = a) (x # post) = y # ys \<longrightarrow> \<not> goesBefore y x)"

lemma greedy_Cons:
  assumes "greedy out" "\<And>a y ys. filter (\<lambda>z. tx_From z = a) (x # out) = y # ys \<Longrightarrow> \<not> goesBefore y x"
  shows "greedy (x # out)"
  unfolding greedy_def
proof (intro allI impI)
  fix pre x' post a y ys
  assume e: "x # out = pre @ x' # post" and f: "filter (\<lambda>z. tx_From z = a) (x' # post) = y # ys"
  show "\<not> goesBefore y x'"
  proof (cases pre)
    case Nil
    then show ?thesis using e f assms(2) by auto
  next
    case (Cons p pre')
    then have "out = pre' @ x' # post" using e by simp
    then show ?thesis using assms(1) f unfolding greedy_def by blast
  qed
qed

lemma takeAll_correct:
  assumes "wf_order t" "finite A" "\<And>a. a \<notin> A \<Longrightarrow> remaining t a = []" "(\<Sum>a\<in>A. length (remaining t a)) \<le> n"
  shows "\<exists>out. takeAll n t = Some out \<and> (\<forall>a. filter (\<lambda>x. tx_From x = a) out = remaining t a) \<and> greedy out"
  using assms
proof (induction n arbitrary: t)
  case (0 t)
  then have "remaining t a = []" for a by (cases "a \<in> A") auto
  then show ?case using Peek_none [OF 0(1)] by (simp add: takeAll.simps [of 0] greedy_def)
next
  case (Suc n t)
  show ?case
  proof (cases "Peek_tx t")
    case None
    then show ?thesis using Peek_none [OF Suc(2)] by (simp add: takeAll.simps [of "Suc n"] greedy_def)
  next
    case (Some x)
    obtain rest where r: "remaining t (tx_From x) = x # rest" using Peek_best [OF Suc(2) Some] by blast
    obtain t' where t': "Shift_tx t = Some t'" "wf_order t'" "remaining t' = (remaining t)(tx_From x := rest)"
      using Shift_advances [OF Suc(2) Some] r by auto
    have A: "tx_From x \<in> A" using Suc(4) r by fastforce
    have "(\<Sum>a\<in>A. length (remaining t' a)) + 1 = (\<Sum>a\<in>A. length (remaining t a))"
      using sum.remove [OF Suc(3) A, of "\<lambda>a. length (remaining t' a)"] sum.remove [OF Suc(3) A, of "\<lambda>a. length (remaining t a)"]
      by (simp add: t'(3) r)
    then have "(\<Sum>a\<in>A. length (remaining t' a)) \<le> n" using Suc(5) by linarith
    then obtain out where out: "takeAll n t' = Some out" "\<And>a. filter (\<lambda>x. tx_From x = a) out = remaining t' a" "greedy out"
      using Suc(1) [OF t'(2) Suc(3)] Suc(4) t'(3) A by fastforce
    have f: "filter (\<lambda>z. tx_From z = a) (x # out) = remaining t a" for a using out(2) [of a] t'(3) r by (cases "tx_From x = a") auto
    then have "greedy (x # out)" using greedy_Cons [OF out(3)] Peek_best [OF Suc(2) Some] by metis
    then show ?thesis using f Some t'(1) out(1) by (simp add: takeAll.simps [of "Suc n"])
  qed
qed

definition pricedTx :: "address \<Rightarrow> u64 \<Rightarrow> int \<Rightarrow> Transaction" where
  "pricedTx from nonce price = emptyTransaction\<lparr>tx_From := from, tx_Nonce := nonce, tx_GasPrice := Some price\<rparr>"

text \<open>C32: Transactions are taken in the promised order.  From the transactions of each account, in the order of their
  nonces, the set hands out all of them and then reports that it is empty: those of an account in their own order, and
  each time one that pays at least as much as the next transaction of every other account, the earlier one at the same
  price, whatever the order in which the map of accounts is visited.\<close>

theorem transactions_in_order:
  assumes "distinct order" and "set order = dom txs"
    and "\<forall>a \<in> dom txs. the (txs a) \<noteq> [] \<and> (\<forall>x \<in> set (the (txs a)). tx_From x = a \<and> tx_GasPrice x \<noteq> None)"
  shows "\<exists>t out. NewTransactionsByPriceAndNonce order txs = Some t \<and> takeAll (\<Sum>a \<in> dom txs. length (the (txs a))) t = Some out \<and>
    (\<forall>a l. txs a = Some l \<longrightarrow> filter (\<lambda>x. tx_From x = a) out = l) \<and> tx_From ` set out \<subseteq> dom txs \<and> greedy out"
proof -
  have own: "l \<noteq> [] \<and> (\<forall>x \<in> set l. tx_From x = a)" if "txs a = Some l" for a l using bspec [OF assms(3), of a] that by auto
  obtain t where t: "NewTransactionsByPriceAndNonce order txs = Some t" "wf_order t"
    "remaining t = (\<lambda>a. case txs a of None \<Rightarrow> [] | Some l \<Rightarrow> l)"
    using New_correct [OF assms(1,2) own] by blast
  have fin: "finite (dom txs)" using assms(2) by (metis List.finite_set)
  have none: "remaining t a = []" if "a \<notin> dom txs" for a using that by (simp add: t(3) domIff)
  have le: "(\<Sum>a \<in> dom txs. length (remaining t a)) \<le> (\<Sum>a \<in> dom txs. length (the (txs a)))"
    by (intro sum_mono) (auto simp: t(3))
  obtain out where out: "takeAll (\<Sum>a \<in> dom txs. length (the (txs a))) t = Some out"
    "\<forall>a. filter (\<lambda>x. tx_From x = a) out = remaining t a" "greedy out"
    using takeAll_correct [OF t(2) fin none le] by blast
  have "filter (\<lambda>x. tx_From x = a) out = l" if "txs a = Some l" for a l using out(2) that t(3) by simp
  moreover have "tx_From x \<in> dom txs" if "x \<in> set out" for x
    using none [of "tx_From x"] out(2) that by (metis (mono_tags, lifting) empty_filter_conv)
  ultimately show ?thesis using t(1) out by blast
qed

theorem transactions_in_order_witness:
  "\<exists>t out. NewTransactionsByPriceAndNonce [2, 1] [1 \<mapsto> [pricedTx 1 0 5, pricedTx 1 1 9], 2 \<mapsto> [pricedTx 2 0 7]] = Some t \<and>
     takeAll 3 t = Some out \<and> filter (\<lambda>x. tx_From x = 1) out = [pricedTx 1 0 5, pricedTx 1 1 9] \<and>
     filter (\<lambda>x. tx_From x = 2) out = [pricedTx 2 0 7] \<and> greedy out"
proof -
  let ?txs = "[1 \<mapsto> [pricedTx 1 0 5, pricedTx 1 1 9], 2 \<mapsto> [pricedTx 2 0 7]] :: address \<Rightarrow> Transaction list option"
  have d: "dom ?txs = {1, 2}" by auto
  have n: "(\<Sum>a \<in> dom ?txs. length (the (?txs a))) = 3" unfolding d by simp
  have "\<forall>a \<in> dom ?txs. the (?txs a) \<noteq> [] \<and> (\<forall>x \<in> set (the (?txs a)). tx_From x = a \<and> tx_GasPrice x \<noteq> None)" unfolding d by (simp add: pricedTx_def)
  then obtain t out where "NewTransactionsByPriceAndNonce [2, 1] ?txs = Some t" "takeAll 3 t = Some out" "greedy out"
    and f: "\<forall>a l. ?txs a = Some l \<longrightarrow> filter (\<lambda>x. tx_From x = a) out = l"
    using transactions_in_order [of "[2, 1]" ?txs] unfolding n by (auto simp: d)
  moreover have "filter (\<lambda>x. tx_From x = 1) out = [pricedTx 1 0 5, pricedTx 1 1 9]" "filter (\<lambda>x. tx_From x = 2) out = [pricedTx 2 0 7]"
    using f [rule_format, of 1] f [rule_format, of 2] by simp_all
  ultimately show ?thesis by blast
qed

end
