(* ===== verification/Dial.thy ===== *)
theory Dial
  imports Go_Heap
begin

text \<open>
  The queue of dial tasks (\<open>network/dial\<close>): a heap of tasks by priority and a map from peers to their latest task.
  Tasks are objects: a pointer is a number, \<open>dq_store\<close> holds what a task is created with and \<open>ih_index\<close> its index
  field, which the heap maintains.  The update channel is unbuffered, so a signal reaches only a \<open>PopTask\<close> that is
  waiting; \<open>PopTask\<close> is modelled by the sequence of events its loop sees.
\<close>

record AddrInfo =
  ai_ID :: string
  ai_Addrs :: "string list"

record DialTask =
  dt_addrInfo :: AddrInfo
  dt_priority :: u64

record DialQueue =
  dq_store :: "nat \<Rightarrow> DialTask"
  dq_next :: nat
  dq_heap :: IndexedHeap
  dq_tasks :: "string \<Rightarrow> nat option"

definition GetAddrInfo :: "DialTask \<Rightarrow> AddrInfo" where
  "GetAddrInfo dt = dt_addrInfo dt"

section \<open>The heap of tasks\<close>

definition dialQueueImpl_Less :: "(nat \<Rightarrow> DialTask) \<Rightarrow> IndexedHeap \<Rightarrow> nat \<Rightarrow> nat \<Rightarrow> bool" where
  "dialQueueImpl_Less st t i j \<longleftrightarrow> dt_priority (st (ih_items t ! i)) < dt_priority (st (ih_items t ! j))"

definition dialQueueImpl_Swap :: "nat \<Rightarrow> nat \<Rightarrow> IndexedHeap \<Rightarrow> IndexedHeap" where
  "dialQueueImpl_Swap i j t =
     (let t = t\<lparr>ih_items := (ih_items t)[i := ih_items t ! j, j := ih_items t ! i]\<rparr>;
          t = t\<lparr>ih_index := (ih_index t)(ih_items t ! i := int i)\<rparr> in
      t\<lparr>ih_index := (ih_index t)(ih_items t ! j := int j)\<rparr>)"

definition dialQueueImpl_Push :: "nat \<Rightarrow> IndexedHeap \<Rightarrow> IndexedHeap" where
  "dialQueueImpl_Push item t =
     (let n = length (ih_items t); t = t\<lparr>ih_index := (ih_index t)(item := int n)\<rparr> in
      t\<lparr>ih_items := ih_items t @ [item]\<rparr>)"

definition dialQueueImpl_Pop :: "IndexedHeap \<Rightarrow> nat \<times> IndexedHeap" where
  "dialQueueImpl_Pop t =
     (let n = length (ih_items t); item = ih_items t ! (n - 1); t = t\<lparr>ih_index := (ih_index t)(item := -1)\<rparr> in
      (item, t\<lparr>ih_items := take (n - 1) (ih_items t)\<rparr>))"

definition dialQueueImpl :: "(nat \<Rightarrow> DialTask) \<Rightarrow> (IndexedHeap, nat) HeapInterface" where
  "dialQueueImpl st = \<lparr>h_Len = (\<lambda>t. length (ih_items t)), h_Less = dialQueueImpl_Less st, h_Swap = dialQueueImpl_Swap,
     h_Push = dialQueueImpl_Push, h_Pop = dialQueueImpl_Pop\<rparr>"

section \<open>The queue\<close>

definition NewDialQueue :: DialQueue where
  "NewDialQueue = \<lparr>dq_store = (\<lambda>_. \<lparr>dt_addrInfo = \<lparr>ai_ID = [], ai_Addrs = []\<rparr>, dt_priority = 0\<rparr>), dq_next = 0,
     dq_heap = \<lparr>ih_items = [], ih_index = (\<lambda>_. -1)\<rparr>, dq_tasks = (\<lambda>_. None)\<rparr>"

text \<open>The outer option is the panic of the heap, which does not happen (\<open>popTaskImpl_correct\<close> below).\<close>

definition popTaskImpl :: "DialQueue \<Rightarrow> (nat option \<times> DialQueue) option" where
  "popTaskImpl d =
     (if length (ih_items (dq_heap d)) \<noteq> 0 then
        map_option (\<lambda>(task, h). (Some task, d\<lparr>dq_heap := h\<rparr>)) (heap_Pop (dialQueueImpl (dq_store d)) (dq_heap d))
      else Some (None, d))"

definition DeleteTask :: "string \<Rightarrow> DialQueue \<Rightarrow> DialQueue option" where
  "DeleteTask peer d =
     (case dq_tasks d peer of
        None \<Rightarrow> Some d
      | Some item \<Rightarrow>
          Option.bind
            (if ih_index (dq_heap d) item \<ge> 0 then
               map_option (\<lambda>(_, h). d\<lparr>dq_heap := h\<rparr>)
                 (heap_Remove (dialQueueImpl (dq_store d)) (nat (ih_index (dq_heap d) item)) (dq_heap d))
             else Some d)
            (\<lambda>d. Some (d\<lparr>dq_tasks := (dq_tasks d)(peer := None)\<rparr>)))"

definition AddTask :: "AddrInfo \<Rightarrow> u64 \<Rightarrow> DialQueue \<Rightarrow> DialQueue" where
  "AddTask addrInfo priority d =
     (let task = dq_next d;
          st = (dq_store d)(task := \<lparr>dt_addrInfo = addrInfo, dt_priority = priority\<rparr>);
          h = (dq_heap d)\<lparr>ih_index := (ih_index (dq_heap d))(task := 0)\<rparr>;
          d = d\<lparr>dq_store := st, dq_next := task + 1, dq_tasks := (dq_tasks d)(ai_ID addrInfo := Some task)\<rparr> in
      d\<lparr>dq_heap := heap_Push (dialQueueImpl st) task h\<rparr>)"

text \<open>What a blocked \<open>PopTask\<close> can see: an \<open>AddTask\<close> and its signal, a \<open>DeleteTask\<close> by another goroutine, which gives
  no signal, or the close of the queue.  A result \<open>None\<close> is a \<open>PopTask\<close> that is still waiting after these events.\<close>

datatype DialEvent = Added AddrInfo u64 | Deleted string | Closed

fun PopTask :: "DialEvent list \<Rightarrow> DialQueue \<Rightarrow> (nat option \<times> DialQueue) option"
and PopTask_wait :: "DialEvent list \<Rightarrow> DialQueue \<Rightarrow> (nat option \<times> DialQueue) option" where
  "PopTask evs d =
     Option.bind (popTaskImpl d) (\<lambda>(task, d). if task \<noteq> None then Some (task, d) else PopTask_wait evs d)"
| "PopTask_wait [] d = None"
| "PopTask_wait (Added a p # evs) d = PopTask evs (AddTask a p d)"
| "PopTask_wait (Deleted peer # evs) d = Option.bind (DeleteTask peer d) (PopTask_wait evs)"
| "PopTask_wait (Closed # evs) d = Some (None, d)"

section \<open>Correctness\<close>

abbreviation dialBefore :: "(nat \<Rightarrow> DialTask) \<Rightarrow> nat \<Rightarrow> nat \<Rightarrow> bool" where
  "dialBefore st p q \<equiv> dt_priority (st p) < dt_priority (st q)"

lemma dialQueueImpl_indexed: "dialQueueImpl st = indexedHeap (dialBefore st)"
  by (auto simp: dialQueueImpl_def indexedHeap_def dialQueueImpl_Less_def dialQueueImpl_Swap_def dialQueueImpl_Push_def
      dialQueueImpl_Pop_def Let_def fun_eq_iff)

interpretation dialHeap: go_heap "dialQueueImpl st" ih_items "dialBefore st" indexed "\<lambda>t p. p \<notin> set (ih_items t)" for st
  unfolding dialQueueImpl_indexed by (rule go_heap_indexed) (auto simp: weak_order_def)

text \<open>The heap is ordered and knows the indexes, and all pointers are to tasks that were created.\<close>

definition wf_dial :: "DialQueue \<Rightarrow> bool" where
  "wf_dial d \<longleftrightarrow> indexed (dq_heap d) \<and>
     heap_from (dialBefore (dq_store d)) 0 (length (ih_items (dq_heap d))) (ih_items (dq_heap d)) \<and>
     set (ih_items (dq_heap d)) \<subseteq> {..<dq_next d}"

abbreviation waiting :: "DialQueue \<Rightarrow> nat list" where
  "waiting d \<equiv> ih_items (dq_heap d)"

lemma wf_dial_created: "wf_dial d \<Longrightarrow> p \<in> set (waiting d) \<Longrightarrow> p < dq_next d"
  unfolding wf_dial_def by blast

lemma wf_dial_new: "wf_dial NewDialQueue"
  by (simp add: wf_dial_def NewDialQueue_def heap_from_def)

lemma wf_dialI:
  assumes "indexed h \<and> heap_from (dialBefore st) 0 (length (ih_items h)) (ih_items h)" "set (ih_items h) \<subseteq> {..<n}"
  shows "wf_dial \<lparr>dq_store = st, dq_next = n, dq_heap = h, dq_tasks = ts\<rparr>"
  using assms by (auto simp: wf_dial_def)

lemma AddTask_correct:
  assumes "wf_dial d"
  shows "wf_dial (AddTask a p d)" "mset (waiting (AddTask a p d)) = add_mset (dq_next d) (mset (waiting d))"
    "dq_store (AddTask a p d) = (dq_store d)(dq_next d := \<lparr>dt_addrInfo = a, dt_priority = p\<rparr>)"
    "dq_tasks (AddTask a p d) = (dq_tasks d)(ai_ID a := Some (dq_next d))" "dq_next (AddTask a p d) = dq_next d + 1"
proof -
  let ?st = "(dq_store d)(dq_next d := \<lparr>dt_addrInfo = a, dt_priority = p\<rparr>)" and ?h = "dq_heap d" and ?n = "dq_next d"
  have new: "?n \<notin> set (waiting d)" using wf_dial_created [OF assms, of ?n] by blast
  have "heap_from (dialBefore ?st) 0 (length (waiting d)) (waiting d)"
  proof (rule heap_from_order)
    show "heap_from (dialBefore (dq_store d)) 0 (length (waiting d)) (waiting d)" using assms by (simp add: wf_dial_def)
    show "dialBefore ?st x y = dialBefore (dq_store d) x y" if "x \<in> set (waiting d)" "y \<in> set (waiting d)" for x y
    proof -
      have "x \<noteq> ?n" "y \<noteq> ?n" using that new by blast+
      then show ?thesis by simp
    qed
  qed
  then have push: "indexed (heap_Push (dialQueueImpl ?st) ?n ?h) \<and>
      heap_from (dialBefore ?st) 0 (length (ih_items (heap_Push (dialQueueImpl ?st) ?n ?h))) (ih_items (heap_Push (dialQueueImpl ?st) ?n ?h))"
    "mset (ih_items (heap_Push (dialQueueImpl ?st) ?n ?h)) = add_mset ?n (mset (waiting d))"
    using dialHeap.Push_heap [of ?h ?st ?n] assms new by (simp_all add: wf_dial_def)
  have "heap_Push (dialQueueImpl ?st) ?n (?h\<lparr>ih_index := (ih_index ?h)(?n := 0)\<rparr>) = heap_Push (dialQueueImpl ?st) ?n ?h"
    by (simp add: heap_Push_def dialQueueImpl_def dialQueueImpl_Push_def Let_def)
  then have e: "AddTask a p d = \<lparr>dq_store = ?st, dq_next = ?n + 1, dq_heap = heap_Push (dialQueueImpl ?st) ?n ?h,
      dq_tasks = (dq_tasks d)(ai_ID a := Some ?n)\<rparr>"
    by (cases d) (simp add: AddTask_def Let_def)
  have "set (ih_items (heap_Push (dialQueueImpl ?st) ?n ?h)) = insert ?n (set (waiting d))"
    using arg_cong [OF push(2), of set_mset] by simp
  moreover have "set (waiting d) \<subseteq> {..<?n}" using assms by (simp add: wf_dial_def)
  ultimately have "set (ih_items (heap_Push (dialQueueImpl ?st) ?n ?h)) \<subseteq> {..<?n + 1}" by (simp add: lessThan_Suc) blast
  then show "wf_dial (AddTask a p d)" unfolding e by (rule wf_dialI [OF push(1)])
  show "mset (waiting (AddTask a p d)) = add_mset (dq_next d) (mset (waiting d))" unfolding e using push(2) by simp
  show "dq_store (AddTask a p d) = (dq_store d)(dq_next d := \<lparr>dt_addrInfo = a, dt_priority = p\<rparr>)"
    "dq_tasks (AddTask a p d) = (dq_tasks d)(ai_ID a := Some (dq_next d))" "dq_next (AddTask a p d) = dq_next d + 1"
    unfolding e by simp_all
qed

lemma wf_dial_shrink:
  assumes "wf_dial d" "indexed h \<and> heap_from (dialBefore (dq_store d)) 0 (length (ih_items h)) (ih_items h)"
    "mset (waiting d) = add_mset p (mset (ih_items h))"
  shows "wf_dial (d\<lparr>dq_heap := h\<rparr>)"
proof -
  have "set (ih_items h) \<subseteq> set (waiting d)" using arg_cong [OF assms(3), of set_mset] by auto
  moreover have "set (waiting d) \<subseteq> {..<dq_next d}" using assms(1) by (simp add: wf_dial_def)
  ultimately show ?thesis using assms(2) by (simp add: wf_dial_def)
qed

lemma popTaskImpl_correct:
  assumes "wf_dial d" "waiting d \<noteq> []"
  shows "\<exists>p d'. popTaskImpl d = Some (Some p, d') \<and> wf_dial d' \<and> mset (waiting d) = add_mset p (mset (waiting d')) \<and>
    (\<forall>q \<in> set (waiting d). dt_priority (dq_store d p) \<le> dt_priority (dq_store d q)) \<and> dq_store d' = dq_store d"
proof -
  have hp: "indexed (dq_heap d) \<and> heap_from (dialBefore (dq_store d)) 0 (length (waiting d)) (waiting d)"
    using assms(1) by (simp add: wf_dial_def)
  let ?p = "waiting d ! 0"
  obtain h where h: "heap_Pop (dialQueueImpl (dq_store d)) (dq_heap d) = Some (?p, h)"
    "indexed h \<and> heap_from (dialBefore (dq_store d)) 0 (length (ih_items h)) (ih_items h)"
    "mset (waiting d) = add_mset ?p (mset (ih_items h))"
    using dialHeap.Pop_heap [OF hp assms(2)] by blast
  have "popTaskImpl d = Some (Some ?p, d\<lparr>dq_heap := h\<rparr>)" using h(1) assms(2) by (simp add: popTaskImpl_def)
  moreover have "dt_priority (dq_store d ?p) \<le> dt_priority (dq_store d q)" if "q \<in> set (waiting d)" for q
    using dialHeap.least [OF hp that] by simp
  ultimately show ?thesis using wf_dial_shrink [OF assms(1) h(2,3)] h(3) by auto
qed

lemma popTaskImpl_empty: "waiting d = [] \<Longrightarrow> popTaskImpl d = Some (None, d)"
  by (simp add: popTaskImpl_def)

lemma DeleteTask_correct:
  assumes "wf_dial d"
  shows "\<exists>d'. DeleteTask peer d = Some d' \<and> wf_dial d' \<and> dq_tasks d' = (dq_tasks d)(peer := None) \<and> dq_store d' = dq_store d \<and>
    mset (waiting d') = mset (waiting d) - (case dq_tasks d peer of None \<Rightarrow> {#} | Some p \<Rightarrow> {#p#})"
proof (cases "dq_tasks d peer")
  case None
  then show ?thesis using assms by (auto simp: DeleteTask_def)
next
  case (Some p)
  have hp: "indexed (dq_heap d) \<and> heap_from (dialBefore (dq_store d)) 0 (length (waiting d)) (waiting d)"
    using assms by (simp add: wf_dial_def)
  show ?thesis
  proof (cases "ih_index (dq_heap d) p \<ge> 0")
    case True
    let ?i = "nat (ih_index (dq_heap d) p)"
    have i: "?i < length (waiting d)" "waiting d ! ?i = p" using indexed_position [of "dq_heap d" p ?i] hp True by simp_all
    obtain h where h: "heap_Remove (dialQueueImpl (dq_store d)) ?i (dq_heap d) = Some (p, h)"
      "indexed h \<and> heap_from (dialBefore (dq_store d)) 0 (length (ih_items h)) (ih_items h)"
      "mset (waiting d) = add_mset p (mset (ih_items h))"
      using dialHeap.Remove_heap [OF hp i(1)] i(2) by auto
    have "wf_dial (d\<lparr>dq_heap := h, dq_tasks := (dq_tasks d)(peer := None)\<rparr>)"
      using wf_dial_shrink [OF assms h(2,3)] by (simp add: wf_dial_def)
    then show ?thesis using Some True h(1,3) by (simp add: DeleteTask_def)
  next
    case False
    then have "p \<notin> set (waiting d)" using indexed_in [of "dq_heap d" p] hp by simp
    then show ?thesis using Some False assms by (simp add: DeleteTask_def wf_dial_def diff_single_trivial)
  qed
qed

text \<open>Any sequence of calls, and popping a number of tasks one after the other.\<close>

datatype DialOp = DialAdd AddrInfo u64 | DialDelete string | DialPop

fun dial_run :: "DialOp list \<Rightarrow> DialQueue \<Rightarrow> DialQueue option" where
  "dial_run [] d = Some d"
| "dial_run (DialAdd a p # ops) d = dial_run ops (AddTask a p d)"
| "dial_run (DialDelete peer # ops) d = Option.bind (DeleteTask peer d) (dial_run ops)"
| "dial_run (DialPop # ops) d = Option.bind (popTaskImpl d) (\<lambda>(_, d). dial_run ops d)"

fun popTasks :: "nat \<Rightarrow> DialQueue \<Rightarrow> (nat list \<times> DialQueue) option" where
  "popTasks 0 d = Some ([], d)"
| "popTasks (Suc n) d =
     (case popTaskImpl d of
        Some (Some p, d) \<Rightarrow> map_option (\<lambda>(ps, d). (p # ps, d)) (popTasks n d)
      | _ \<Rightarrow> None)"

lemma dial_run_wf: "wf_dial d \<Longrightarrow> \<exists>d'. dial_run ops d = Some d' \<and> wf_dial d'"
proof (induction ops d rule: dial_run.induct)
  case (2 a p ops d)
  then show ?case using AddTask_correct(1) by simp
next
  case (3 peer ops d)
  obtain d' where "DeleteTask peer d = Some d'" "wf_dial d'" using DeleteTask_correct [OF 3(2)] by blast
  then show ?case using 3(1) by simp
next
  case (4 ops d)
  show ?case
  proof (cases "waiting d = []")
    case True
    then show ?thesis using 4 by (simp add: popTaskImpl_empty)
  next
    case False
    obtain p d' where "popTaskImpl d = Some (Some p, d')" "wf_dial d'" using popTaskImpl_correct [OF 4(2) False] by blast
    then show ?thesis using 4(1) by simp
  qed
qed simp

lemma popTasks_correct:
  assumes "wf_dial d" "length (waiting d) = n"
  shows "\<exists>ps d'. popTasks n d = Some (ps, d') \<and> mset ps = mset (waiting d) \<and> waiting d' = [] \<and>
    sorted (map (\<lambda>p. dt_priority (dq_store d p)) ps)"
  using assms
proof (induction n arbitrary: d)
  case 0
  then show ?case by simp
next
  case (Suc n)
  then have "waiting d \<noteq> []" by auto
  then obtain p d1 where p: "popTaskImpl d = Some (Some p, d1)" "wf_dial d1" "mset (waiting d) = add_mset p (mset (waiting d1))"
    "\<forall>q \<in> set (waiting d). dt_priority (dq_store d p) \<le> dt_priority (dq_store d q)" "dq_store d1 = dq_store d"
    using popTaskImpl_correct [OF Suc(2)] by blast
  have "length (waiting d1) = n" using arg_cong [OF p(3), of size] Suc(3) by simp
  then obtain ps d2 where ps: "popTasks n d1 = Some (ps, d2)" "mset ps = mset (waiting d1)" "waiting d2 = []"
    "sorted (map (\<lambda>p. dt_priority (dq_store d p)) ps)"
    using Suc(1) [OF p(2)] unfolding p(5) by blast
  have "set ps \<subseteq> set (waiting d)" using mset_eq_setD [OF ps(2)] arg_cong [OF p(3), of set_mset] by auto
  then have "\<forall>q \<in> set ps. dt_priority (dq_store d p) \<le> dt_priority (dq_store d q)" using p(4) by blast
  then show ?case using p(1,3) ps by simp
qed

text \<open>Only the latest task of a peer is deleted: an earlier one is still handed out.\<close>

lemma deleted_peer_still_dialled:
  "\<exists>d d'. DeleteTask (ai_ID a) (AddTask a q (AddTask a p NewDialQueue)) = Some d \<and> popTaskImpl d = Some (Some 0, d') \<and>
     dq_store d 0 = \<lparr>dt_addrInfo = a, dt_priority = p\<rparr> \<and> dq_tasks d (ai_ID a) = None"
proof -
  let ?d1 = "AddTask a p NewDialQueue"
  let ?d2 = "AddTask a q ?d1"
  note a1 = AddTask_correct [OF wf_dial_new, of a p]
  note a2 = AddTask_correct [OF a1(1), of a q]
  have n: "dq_next NewDialQueue = 0" "waiting NewDialQueue = []" by (simp_all add: NewDialQueue_def)
  obtain d where d: "DeleteTask (ai_ID a) ?d2 = Some d" "wf_dial d" "dq_tasks d = (dq_tasks ?d2)(ai_ID a := None)" "dq_store d = dq_store ?d2"
    "mset (waiting d) = {#0#}"
    using DeleteTask_correct [OF a2(1), of "ai_ID a"] a1 a2 n by auto
  then have "waiting d \<noteq> []" by auto
  then obtain t d' where "popTaskImpl d = Some (Some t, d')" "mset (waiting d) = add_mset t (mset (waiting d'))"
    using popTaskImpl_correct [OF d(2)] by blast
  then show ?thesis using d a1(3,5) a2(3) n by simp
qed

text \<open>C33: No dial task waits forever and none is lost.  After any sequence of additions, deletions and pops, none of
  which panics, as many pops as there are tasks in the heap return every one of them once, in the order of their
  priority numbers, and leave the queue empty.\<close>

theorem dial_tasks_popped:
  "\<exists>d ps d'. dial_run ops NewDialQueue = Some d \<and> popTasks (length (waiting d)) d = Some (ps, d') \<and> mset ps = mset (waiting d) \<and>
     sorted (map (\<lambda>p. dt_priority (dq_store d p)) ps) \<and> popTaskImpl d' = Some (None, d')"
proof -
  obtain d where d: "dial_run ops NewDialQueue = Some d" "wf_dial d" using dial_run_wf [OF wf_dial_new] by blast
  show ?thesis using popTasks_correct [OF d(2) refl] popTaskImpl_empty d(1) by blast
qed

end
