(* ===== verification/Chain_Store.thy ===== *)
theory Chain_Store
  imports Tx_Types Headers
begin

text \<open>
  The tables of the chain database (\<open>rawdb/\<close>, \<open>ethdb/database.go\<close>) and the variable-length numbers in their keys
  (\<open>helper/varint.go\<close>).  The database is a parameter of the node behind an interface: reads do not fail here, and
  \<open>db_fault\<close> is the number of writes that still succeed, \<open>None\<close> if all do, so that every write can be the one that
  fails.  A batch is written as a whole.  An outer \<open>None\<close> is a panic.
\<close>

section \<open>Variable-length numbers\<close>

text \<open>The buffer has eight bytes; writing a ninth panics.\<close>

function EncodeVarint_loop :: "nat \<Rightarrow> u64 \<Rightarrow> byte list option" where
  "EncodeVarint_loop n x =
     (if n \<ge> 8 then None
      else if x > 127 then map_option ((#) (0x80 OR ucast (x AND 0x7F))) (EncodeVarint_loop (n + 1) (drop_bit 7 x))
      else Some [ucast x])"
  by pat_completeness auto
termination by (relation "measure (\<lambda>(n, x). 8 - n)") auto

declare EncodeVarint_loop.simps [simp del]

definition EncodeVarint :: "u64 \<Rightarrow> byte list option" where
  "EncodeVarint x = EncodeVarint_loop 0 x"

fun DecodeVarint_loop :: "nat \<Rightarrow> nat \<Rightarrow> u64 \<Rightarrow> byte list \<Rightarrow> u64 \<times> nat" where
  "DecodeVarint_loop shift n x buf =
     (if shift < 64 then
        (case buf of
           [] \<Rightarrow> (0, 0)
         | b # rest \<Rightarrow>
             let x = x OR push_bit shift (ucast b AND 0x7F) in
             if b AND 0x80 = 0 then (x, n + 1) else DecodeVarint_loop (shift + 7) (n + 1) x rest)
      else (0, 0))"

declare DecodeVarint_loop.simps [simp del]

definition DecodeVarint :: "byte list \<Rightarrow> u64 \<times> nat" where
  "DecodeVarint buf = DecodeVarint_loop 0 0 0 buf"

section \<open>The database\<close>

datatype dbi = TrieDBI | BodyDBI | HeadDBI | AssistDBI | NumHashDBI | TxesDBI | TxLookUpDBI | ReceiptsDBI | TODBI | CodeDBI

datatype db_error = ErrWrite | ErrDecode | ErrNotFound

record Database =
  db_tables :: "dbi \<Rightarrow> byte list \<Rightarrow> byte list option"
  db_fault :: "nat option"

definition db_Get :: "dbi \<Rightarrow> byte list \<Rightarrow> Database \<Rightarrow> byte list option" where
  "db_Get t k db = db_tables db t k"

definition db_put :: "dbi \<Rightarrow> byte list \<Rightarrow> byte list \<Rightarrow> Database \<Rightarrow> Database" where
  "db_put t k v db = db\<lparr>db_tables := (db_tables db)(t := (db_tables db t)(k := Some v))\<rparr>"

definition db_Batch_Write :: "(dbi \<times> byte list \<times> byte list) list \<Rightarrow> Database \<Rightarrow> db_error option \<times> Database" where
  "db_Batch_Write kvs db =
     (if db_fault db = Some 0 then (Some ErrWrite, db)
      else (None, (fold (\<lambda>(t, k, v). db_put t k v) kvs db)\<lparr>db_fault := map_option (\<lambda>n. n - 1) (db_fault db)\<rparr>))"

definition db_Set :: "dbi \<Rightarrow> byte list \<Rightarrow> byte list \<Rightarrow> Database \<Rightarrow> db_error option \<times> Database" where
  "db_Set t k v db = db_Batch_Write [(t, k, v)] db"

section \<open>Keys and values\<close>

definition latestBlockHash :: "byte list" where
  "latestBlockHash = map (\<lambda>c. word_of_nat (of_char c)) ''latest_hash''"

definition latestBlockNumber :: "byte list" where
  "latestBlockNumber = map (\<lambda>c. word_of_nat (of_char c)) ''latest_number''"

definition ReadTD :: "Database \<Rightarrow> hash \<Rightarrow> int option" where
  "ReadTD db h = map_option (\<lambda>v. sint (fst (DecodeVarint v))) (db_Get TODBI (hash_bytes h) db)"

definition WriteTD :: "hash \<Rightarrow> u64 \<Rightarrow> Database \<Rightarrow> (db_error option \<times> Database) option" where
  "WriteTD h number db = map_option (\<lambda>v. db_Set TODBI (hash_bytes h) v db) (EncodeVarint number)"

definition ReadHeadNumber :: "Database \<Rightarrow> u64 \<times> bool" where
  "ReadHeadNumber db =
     (case db_Get AssistDBI latestBlockNumber db of
        None \<Rightarrow> (fst (DecodeVarint []), False)
      | Some v \<Rightarrow> (fst (DecodeVarint v), True))"

definition WriteHeadNumber :: "u64 \<Rightarrow> Database \<Rightarrow> (db_error option \<times> Database) option" where
  "WriteHeadNumber number db = map_option (\<lambda>v. db_Set AssistDBI latestBlockNumber v db) (EncodeVarint number)"

definition ReadHeadHash :: "Database \<Rightarrow> hash \<times> bool" where
  "ReadHeadHash db =
     (case db_Get AssistDBI latestBlockHash db of None \<Rightarrow> (BytesToHash [], False) | Some v \<Rightarrow> (BytesToHash v, True))"

definition WriteHeadHash :: "hash \<Rightarrow> Database \<Rightarrow> db_error option \<times> Database" where
  "WriteHeadHash h db = db_Set AssistDBI latestBlockHash (hash_bytes h) db"

definition ReadCanonicalHash :: "Database \<Rightarrow> u64 \<Rightarrow> hash option option" where
  "ReadCanonicalHash db number = map_option (\<lambda>k. map_option BytesToHash (db_Get NumHashDBI k db)) (EncodeVarint number)"

definition WriteCanonicalHash :: "u64 \<Rightarrow> hash \<Rightarrow> Database \<Rightarrow> (db_error option \<times> Database) option" where
  "WriteCanonicalHash number h db = map_option (\<lambda>k. db_Set NumHashDBI k (hash_bytes h) db) (EncodeVarint number)"

definition WriteHeader_db :: "'v Fastrlp \<Rightarrow> Header \<Rightarrow> Database \<Rightarrow> db_error option \<times> Database" where
  "WriteHeader_db F header db = db_Set HeadDBI (hash_bytes (hd_Hash header)) (MarshalRLPTo F (Header_MarshalRLPWith F header) []) db"

text \<open>A header that is not in the table is read as the zero header, without an error.\<close>

definition ReadHeader :: "'v Fastrlp \<Rightarrow> Crypto \<Rightarrow> Database \<Rightarrow> hash \<Rightarrow> db_error + Header" where
  "ReadHeader F K db h =
     (case db_Get HeadDBI (hash_bytes h) db of
        None \<Rightarrow> Inr emptyHeader
      | Some v \<Rightarrow> (case UnmarshalRlp F (Header_UnmarshalRLPFrom F K emptyHeader) v of None \<Rightarrow> Inl ErrDecode | Some header \<Rightarrow> Inr header))"

text \<open>The lookup of a transaction's block ignores the result of every write.\<close>

definition WriteTxLookUp :: "'v Fastrlp \<Rightarrow> Crypto \<Rightarrow> u64 \<Rightarrow> Transaction list \<Rightarrow> Database \<Rightarrow> Database option" where
  "WriteTxLookUp F K number txes db =
     (if txes = [] then Some db
      else map_option (\<lambda>blockNumber.
        fold (\<lambda>tx db. snd (db_Set TxLookUpDBI (hash_bytes (fst (Transaction_Hash F K tx))) blockNumber db)) txes db) (EncodeVarint number))"

definition ReadTxLookUp :: "Database \<Rightarrow> hash \<Rightarrow> u64 option" where
  "ReadTxLookUp db txhash = map_option (\<lambda>nums. fst (DecodeVarint nums)) (db_Get TxLookUpDBI (hash_bytes txhash) db)"

definition WriteBody :: "'v Fastrlp \<Rightarrow> Crypto \<Rightarrow> hash \<Rightarrow> Transaction list \<Rightarrow> Database \<Rightarrow> db_error option \<times> Database" where
  "WriteBody F K h txes db =
     (if txes = [] then (None, db)
      else db_Set BodyDBI (hash_bytes h) (concat (map (\<lambda>tx. hash_bytes (fst (Transaction_Hash F K tx))) txes)) db)"

text \<open>\<open>ScanHash\<close> splits the stored bytes into hashes.\<close>

fun ScanHash :: "byte list \<Rightarrow> hash list" where
  "ScanHash [] = []"
| "ScanHash (b # bs) = BytesToHash (take 32 (b # bs)) # ScanHash (drop 31 bs)"

definition ReadBody :: "Database \<Rightarrow> hash \<Rightarrow> db_error + hash list" where
  "ReadBody db h = (case db_Get BodyDBI (hash_bytes h) db of None \<Rightarrow> Inl ErrNotFound | Some v \<Rightarrow> Inr (ScanHash v))"

definition WriteTransactions :: "'v Fastrlp \<Rightarrow> Crypto \<Rightarrow> Transaction list \<Rightarrow> Database \<Rightarrow> db_error option \<times> Database" where
  "WriteTransactions F K txes db =
     (if txes = [] then (None, db)
      else db_Batch_Write (map (\<lambda>tx. (TxesDBI, hash_bytes (fst (Transaction_Hash F K tx)), Transaction_MarshalRLP F tx)) txes) db)"

definition WriteTransaction :: "'v Fastrlp \<Rightarrow> Crypto \<Rightarrow> Transaction \<Rightarrow> Database \<Rightarrow> db_error option \<times> Database" where
  "WriteTransaction F K tx db = db_Set TxesDBI (hash_bytes (fst (Transaction_Hash F K tx))) (Transaction_MarshalRLP F tx) db"

definition ReadTransaction :: "'v Fastrlp \<Rightarrow> Crypto \<Rightarrow> Database \<Rightarrow> hash \<Rightarrow> db_error + Transaction" where
  "ReadTransaction F K db h =
     (case db_Get TxesDBI (hash_bytes h) db of
        None \<Rightarrow> Inl ErrNotFound
      | Some v \<Rightarrow> (case Transaction_UnmarshalRLP F K emptyTransaction v of None \<Rightarrow> Inl ErrDecode | Some tx \<Rightarrow> Inr tx))"

definition WrteReceipts :: "'v Fastrlp \<Rightarrow> Receipt list \<Rightarrow> Database \<Rightarrow> db_error option \<times> Database" where
  "WrteReceipts F receipts db =
     db_Batch_Write (map (\<lambda>rx. (ReceiptsDBI, hash_bytes (rc_TxHash rx), MarshalRLPTo F (Receipt_MarshalStoreRLPWith F rx) [])) receipts) db"

definition ReadReceipt :: "'v Fastrlp \<Rightarrow> Database \<Rightarrow> hash \<Rightarrow> db_error + Receipt" where
  "ReadReceipt F db h =
     (case db_Get ReceiptsDBI (hash_bytes h) db of
        None \<Rightarrow> Inr emptyReceipt
      | Some v \<Rightarrow> (case UnmarshalRlp F (Receipt_UnmarshalStoreRLPFrom F emptyReceipt) v of None \<Rightarrow> Inl ErrDecode | Some r \<Rightarrow> Inr r))"

definition ReadState :: "Database \<Rightarrow> hash \<Rightarrow> db_error + byte list" where
  "ReadState db root = (case db_Get TrieDBI (hash_bytes root) db of None \<Rightarrow> Inl ErrNotFound | Some rs \<Rightarrow> Inr rs)"

section \<open>What is read back\<close>

lemma mask7: "(0x7F :: 'a::len word) = mask 7" "(0x7F :: 64 word) = mask 7"
  by (simp_all add: mask_eq_exp_minus_1)

lemma bit_0x80: "bit (0x80 :: int) n \<longleftrightarrow> n = 7"
proof -
  have "bit (2 ^ 7 :: int) n \<longleftrightarrow> n = 7" by (simp only: bit_exp_iff possible_bit_int) blast
  then show ?thesis by simp
qed

lemma no_high_bit: "unat (x :: u64) < 2 ^ m \<Longrightarrow> m \<le> n \<Longrightarrow> \<not> bit x n"
proof -
  assume "unat x < 2 ^ m" "m \<le> n"
  then have "unat x < 2 ^ n" by (meson less_le_trans one_le_numeral power_increasing)
  then have "\<not> bit (unat x) n" by (simp add: bit_iff_odd)
  then show ?thesis by (simp add: bit_unsigned_iff)
qed

lemma low_byte:
  fixes x :: u64
  shows "ucast (0x80 OR ucast (x AND 0x7F) :: byte) AND 0x7F = x AND (0x7F :: u64)" "(0x80 OR ucast (x AND 0x7F) :: byte) AND 0x80 \<noteq> 0"
proof -
  show "ucast (0x80 OR ucast (x AND 0x7F) :: byte) AND 0x7F = x AND (0x7F :: u64)"
    unfolding mask7 by (rule bit_word_eqI) (auto simp: bit_simps bit_0x80)
  have "bit ((0x80 OR ucast (x AND 0x7F) :: byte) AND 0x80) 7" by (simp add: bit_simps bit_0x80)
  then show "(0x80 OR ucast (x AND 0x7F) :: byte) AND 0x80 \<noteq> 0" by (metis bit_0_eq bot_apply bot_bool_def)
qed

lemma last_byte:
  fixes x :: u64
  assumes "x \<le> 127"
  shows "ucast (ucast x :: byte) AND 0x7F = x" "(ucast x :: byte) AND 0x80 = 0"
proof -
  have "unat x < 2 ^ 7" using assms by (simp add: word_le_nat_alt)
  then have x: "\<not> bit x n" if "n \<ge> 7" for n using no_high_bit that by blast
  then have x': "bit x n \<Longrightarrow> n < 7" for n by (meson leI)
  show "ucast (ucast x :: byte) AND 0x7F = x" unfolding mask7
    by (rule bit_word_eqI) (auto simp: bit_simps dest: x')
  show "(ucast x :: byte) AND 0x80 = 0" by (rule bit_word_eqI) (auto simp: bit_simps bit_0x80 x)
qed

lemma low_high: "(x AND 0x7F) OR push_bit 7 (drop_bit 7 x) = (x :: u64)"
  unfolding mask7
proof (rule bit_word_eqI)
  fix n assume n: "n < LENGTH(64)"
  show "bit (x AND mask 7 OR push_bit 7 (drop_bit 7 x)) n = bit x n" using n by (cases "n < 7") (auto simp: bit_simps)
qed

lemma varint_loop:
  "n < 8 \<Longrightarrow> unat x < 2 ^ (7 * (8 - n)) \<Longrightarrow>
     \<exists>bs. EncodeVarint_loop n x = Some bs \<and> (\<forall>acc k. DecodeVarint_loop (7 * n) k acc bs = (acc OR push_bit (7 * n) x, k + length bs))"
proof (induction n x rule: EncodeVarint_loop.induct)
  case (1 n x)
  show ?case
  proof (cases "x > 127")
    case False
    then show ?thesis using 1(2) last_byte [of x] by (simp add: EncodeVarint_loop.simps [of n x] DecodeVarint_loop.simps [of "7 * n"])
  next
    case True
    have "unat x \<ge> 2 ^ 7" using True by (simp add: word_less_nat_alt)
    then have "(2::nat) ^ 7 < 2 ^ (7 * (8 - n))" using 1(3) by linarith
    then have "7 < 7 * (8 - n)" by (rule power_less_imp_less_exp [rotated]) simp
    then have n: "n + 1 < 8" by simp
    have e: "7 * (8 - n) = 7 * (8 - (n + 1)) + 7" using n by simp
    have "unat (drop_bit 7 x) < 2 ^ (7 * (8 - (n + 1)))"
      using 1(3) unfolding e power_add by (simp add: drop_bit_eq_div unat_div less_mult_imp_div_less)
    then obtain bs where bs: "EncodeVarint_loop (n + 1) (drop_bit 7 x) = Some bs"
      "\<And>acc k. DecodeVarint_loop (7 * (n + 1)) k acc bs = (acc OR push_bit (7 * (n + 1)) (drop_bit 7 x), k + length bs)"
      using 1(1) [OF _ True n] 1(2) by auto
    have "(acc OR push_bit (7 * n) (x AND 0x7F)) OR push_bit (7 * (n + 1)) (drop_bit 7 x) = acc OR push_bit (7 * n) x" for acc
    proof -
      have "push_bit (7 * (n + 1)) (drop_bit 7 x) = push_bit (7 * n) (push_bit 7 (drop_bit 7 x))" by (simp add: push_bit_push_bit add.commute)
      then show ?thesis by (simp only: or.assoc push_bit_or [symmetric] low_high)
    qed
    moreover let ?c = "0x80 OR ucast (x AND 0x7F) :: byte"
    have "DecodeVarint_loop (7 * n) k acc (?c # bs) = DecodeVarint_loop (7 * (n + 1)) (k + 1) (acc OR push_bit (7 * n) (x AND 0x7F)) bs" for k acc
    proof -
      have "7 * n < 64" "7 * n + 7 = 7 * (n + 1)" using n by simp_all
      then show ?thesis
        by (subst DecodeVarint_loop.simps) (simp only: list.case Let_def low_byte if_True if_False simp_thms)
    qed
    moreover have "EncodeVarint_loop n x = Some (?c # bs)" using 1(2) True bs(1) by (subst EncodeVarint_loop.simps) simp
    ultimately show ?thesis using bs(2) by simp
  qed
qed

lemma varint_loop_panics: "unat x \<ge> 2 ^ (7 * (8 - n)) \<Longrightarrow> EncodeVarint_loop n x = None"
proof (induction n x rule: EncodeVarint_loop.induct)
  case (1 n x)
  show ?case
  proof (cases "n \<ge> 8")
    case True
    then show ?thesis by (simp add: EncodeVarint_loop.simps)
  next
    case False
    then have e: "7 * (8 - n) = 7 * (8 - (n + 1)) + 7" by simp
    have "(2::nat) ^ 7 \<le> 2 ^ (7 * (8 - n))" unfolding e by (rule power_increasing) simp_all
    then have "unat x \<ge> 2 ^ 7" using 1(2) by linarith
    then have x: "x > 127" by (simp add: word_less_nat_alt)
    have "unat (drop_bit 7 x) \<ge> 2 ^ (7 * (8 - (n + 1)))"
      using 1(2) unfolding e power_add by (simp add: drop_bit_eq_div unat_div less_eq_div_iff_mult_less_eq)
    then show ?thesis using 1(1) False x by (simp add: EncodeVarint_loop.simps [of n x])
  qed
qed

lemma varint_roundtrip: "unat x < 2 ^ 56 \<Longrightarrow> \<exists>bs. EncodeVarint x = Some bs \<and> DecodeVarint bs = (x, length bs)"
  using varint_loop [of 0 x] by (auto simp: EncodeVarint_def DecodeVarint_def)

lemma varint_panics: "unat x \<ge> 2 ^ 56 \<Longrightarrow> EncodeVarint x = None"
  using varint_loop_panics [of 0 x] by (simp add: EncodeVarint_def)

lemma varint_inj: "EncodeVarint x = Some bs \<Longrightarrow> EncodeVarint y = Some bs \<Longrightarrow> x = y"
  using varint_roundtrip [of x] varint_roundtrip [of y] varint_panics [of x] varint_panics [of y]
  by (metis linorder_not_less option.inject option.simps(3) prod.inject)

lemma db_Get_put [simp]: "db_Get t k (db_put t' k' v db) = (if t = t' \<and> k = k' then Some v else db_Get t k db)"
  by (simp add: db_Get_def db_put_def)

lemma db_Get_fault [simp]: "db_Get t k (db\<lparr>db_fault := f\<rparr>) = db_Get t k db"
  by (simp add: db_Get_def)

lemma db_fault_put [simp]: "db_fault (db_put t k v db) = db_fault db"
  by (simp add: db_put_def)

lemma db_Set_cases:
  obtains "db_fault db = Some 0" "db_Set t k v db = (Some ErrWrite, db)"
  | db' where "db_fault db \<noteq> Some 0" "db_Set t k v db = (None, db')" "db_fault db' = map_option (\<lambda>n. n - 1) (db_fault db)"
    "\<And>t' k'. db_Get t' k' db' = (if t' = t \<and> k' = k then Some v else db_Get t' k' db)"
  by (cases "db_fault db = Some 0") (auto simp: db_Set_def db_Batch_Write_def)

text \<open>Without faults every write succeeds.\<close>

lemma db_Set_ok: "db_fault db = None \<Longrightarrow> db_Set t k v db = (None, (db_put t k v db)\<lparr>db_fault := None\<rparr>)"
  by (simp add: db_Set_def db_Batch_Write_def)

lemma ScanHash_concat: "ScanHash (concat (map hash_bytes hs)) = hs"
proof (induction hs)
  case (Cons h hs)
  obtain b bs where b: "hash_bytes h = b # bs" "length bs = 31" using length_hash_bytes [of h] by (cases "hash_bytes h") auto
  then show ?case using Cons BytesToHash_hash_bytes [of h] by simp
qed simp

lemma ReadBody_WriteBody:
  "db_fault db = None \<Longrightarrow> txes \<noteq> [] \<Longrightarrow>
     ReadBody (snd (WriteBody F K h txes db)) h = Inr (map (\<lambda>tx. fst (Transaction_Hash F K tx)) txes)"
  using ScanHash_concat [of "map (\<lambda>tx. fst (Transaction_Hash F K tx)) txes"]
  by (simp add: WriteBody_def ReadBody_def db_Set_ok comp_def)

lemma Header_stored:
  assumes "rlp_laws F" "header_ok h"
  shows "UnmarshalRlp F (Header_UnmarshalRLPFrom F K emptyHeader) (MarshalRLPTo F (Header_MarshalRLPWith F h) []) = Some (ComputeHash F K h)"
  using Header_roundtrip [OF assms] assms(1) by (simp add: UnmarshalRlp_def MarshalRLPTo_def rlp_lawsD)

text \<open>C35: Numbers below \<open>2\<^sup>5\<^sup>6\<close> survive the variable-length encoding, which the decoder reads completely.  Any
  larger number needs a ninth byte and makes the encoder panic.\<close>

theorem varint_correct:
  "if unat x < 2 ^ 56 then \<exists>bs. EncodeVarint x = Some bs \<and> DecodeVarint bs = (x, length bs) else EncodeVarint x = None"
  using varint_roundtrip [of x] varint_panics [of x] by simp

end
