(* ===== verification/Blockchain.thy ===== *)
theory Blockchain
  imports Chain_Store Processor
begin

text \<open>
  The canonical chain (\<open>blockchain/\<close>): importing a block, the current header, start-up and its self check, the gas
  limit and the average gas price, and the stream of events.  The database is that of \<open>Chain_Store\<close>; executing the
  transactions is \<open>Processor\<close>.  What the node is configured with and what the transaction tries and the contract
  upgrades compute are parameters.  An outer \<open>None\<close> is a panic.
\<close>

section \<open>Configuration\<close>

record Genesis =
  gn_Nonce :: "byte list"
  gn_Timestamp :: u64
  gn_ExtraData :: "byte list"
  gn_GasLimit :: u64
  gn_Difficulty :: u64
  gn_Mixhash :: hash
  gn_Coinbase :: address
  gn_StateRoot :: hash
  gn_Number :: u64
  gn_GasUsed :: u64
  gn_ParentHash :: hash

definition GenesisGasLimit :: u64 where
  "GenesisGasLimit = 4712388"

definition GenesisDifficulty :: u64 where
  "GenesisDifficulty = 131072"

definition GenesisHeader :: "Genesis \<Rightarrow> Header" where
  "GenesisHeader g =
     (let stateRoot = (if gn_StateRoot g \<noteq> 0 then gn_StateRoot g else EmptyRootHash);
          head = emptyHeader\<lparr>hd_Number := gn_Number g, hd_Nonce := gn_Nonce g, hd_Timestamp := gn_Timestamp g,
            hd_ParentHash := gn_ParentHash g, hd_ExtraData := gn_ExtraData g, hd_GasLimit := gn_GasLimit g,
            hd_GasUsed := gn_GasUsed g, hd_Difficulty := gn_Difficulty g, hd_MixHash := gn_Mixhash g,
            hd_Miner := gn_Coinbase g, hd_StateRoot := stateRoot, hd_Sha3Uncles := EmptyUncleHash,
            hd_ReceiptsRoot := EmptyRootHash, hd_TxRoot := EmptyRootHash\<rparr>;
          head = (if gn_GasLimit g = 0 then head\<lparr>hd_GasLimit := GenesisGasLimit\<rparr> else head) in
      if gn_Difficulty g = 0 then head\<lparr>hd_Difficulty := GenesisDifficulty\<rparr> else head)"

definition Genesis_Hash :: "'v Fastrlp \<Rightarrow> Crypto \<Rightarrow> Genesis \<Rightarrow> hash" where
  "Genesis_Hash F K g = hd_Hash (ComputeHash F K (GenesisHeader g))"

text \<open>The upgrade of a system contract at a fork (\<open>contracts/upgrader\<close>): new code, storage slots to set and, on test
  networks, balances.  Code that is not hexadecimal makes the upgrade panic.  The tables of upgrades are data.\<close>

record UpgradeConfig =
  uc_ContractAddr :: address
  uc_Code :: "byte list option"
  uc_DefaultInitStorage :: "(hash \<times> hash) list"
  uc_Rebalance :: "(address \<times> int) list"

datatype network = MainNet | DevNet

record UpgradeTables =
  prePortlandUpgrade :: "network \<Rightarrow> UpgradeConfig list option"
  portlandUpgrade :: "network \<Rightarrow> UpgradeConfig list option"
  detroitUpgrade :: "network \<Rightarrow> UpgradeConfig list option"

definition upgradeContract ::
  "('s, 't, 'n, 'v) TxnEnv \<Rightarrow> ForksInTime \<Rightarrow> UpgradeConfig \<Rightarrow> ('t, 'n) Txn \<Rightarrow> ('t, 'n) Txn option" where
  "upgradeContract E forksInTime cfg T =
     (case uc_Code cfg of
        None \<Rightarrow> None
      | Some newContractCode \<Rightarrow>
          let T = SetCode E (uc_ContractAddr cfg) newContractCode T;
              T = fold (\<lambda>(k, v) T. snd (Txn_SetStorage E (uc_ContractAddr cfg) k v forksInTime T)) (uc_DefaultInitStorage cfg) T
          in Some (fold (\<lambda>(account, balance) T. SetBalance E account balance T) (uc_Rebalance cfg) T))"

fun applySystemContractUpgrade ::
  "('s, 't, 'n, 'v) TxnEnv \<Rightarrow> ForksInTime \<Rightarrow> UpgradeConfig list \<Rightarrow> ('t, 'n) Txn \<Rightarrow> ('t, 'n) Txn option" where
  "applySystemContractUpgrade E forksInTime [] T = Some T"
| "applySystemContractUpgrade E forksInTime (cfg # cfgs) T =
     Option.bind (upgradeContract E forksInTime cfg T) (applySystemContractUpgrade E forksInTime cfgs)"

definition upgradeAt ::
  "('s, 't, 'n, 'v) TxnEnv \<Rightarrow> Forks \<Rightarrow> u64 \<Rightarrow> bool \<Rightarrow> UpgradeConfig list option \<Rightarrow> ('t, 'n) Txn \<Rightarrow> ('t, 'n) Txn option" where
  "upgradeAt E forks blockNumber on up T =
     (case up of
        Some cfgs \<Rightarrow> if on then applySystemContractUpgrade E (Forks_At forks blockNumber) cfgs T else Some T
      | None \<Rightarrow> Some T)"

definition UpgradeSystem ::
  "('s, 't, 'n, 'v) TxnEnv \<Rightarrow> UpgradeTables \<Rightarrow> int \<Rightarrow> Forks \<Rightarrow> u64 \<Rightarrow> ('t, 'n) Txn \<Rightarrow> ('t, 'n) Txn option" where
  "UpgradeSystem E tables chainID forks blockNumber T =
     (if blockNumber = 0 then Some T
      else
        let network = (if chainID = 668 then DevNet else MainNet) in
        Option.bind (upgradeAt E forks blockNumber (forks_on (Preportland_fork forks) blockNumber) (prePortlandUpgrade tables network) T) (\<lambda>T.
        Option.bind (upgradeAt E forks blockNumber (forks_on (Portland_fork forks) blockNumber) (portlandUpgrade tables network) T) (\<lambda>T.
        upgradeAt E forks blockNumber (forks_on (Detroit_fork forks) blockNumber) (detroitUpgrade tables network) T)))"

text \<open>\<open>ce_nodes\<close> are the trie nodes a commit writes; \<open>ce_isDeposit\<close> and \<open>ce_isSlash\<close> recognise the input of the two system transactions.\<close>

record ('s, 't, 'n, 'v, 'k) ChainEnv =
  ce_platform :: "('s, 't, 'n, 'v, 'k) Platform"
  ce_executor :: "('t, 'n) Executor"
  ce_txRoot :: "Transaction list \<Rightarrow> hash"
  ce_receiptsRoot :: "Receipt list \<Rightarrow> hash"
  ce_upgrades :: UpgradeTables
  ce_nodes :: "('t, 'n) Transition \<Rightarrow> (byte list \<times> byte list) list"
  ce_isDeposit :: "byte list \<Rightarrow> bool"
  ce_isSlash :: "byte list \<Rightarrow> bool"
  ce_Genesis :: Genesis
  ce_BlockGasTarget :: u64

definition AddrValidatorSetContract :: address where
  "AddrValidatorSetContract = 0x1001"

abbreviation ce_rlp :: "('s, 't, 'n, 'v, 'k) ChainEnv \<Rightarrow> 'v Fastrlp" where
  "ce_rlp W \<equiv> env_rlp (pf_env (ce_platform W))"

abbreviation ce_crypto :: "('s, 't, 'n, 'v, 'k) ChainEnv \<Rightarrow> Crypto" where
  "ce_crypto W \<equiv> env_crypto (pf_env (ce_platform W))"

section \<open>Events\<close>

datatype EventType = EventHead | EventReorg | EventFork

record Event =
  ev_OldChain :: "Header list"
  ev_NewChain :: "Header list"
  ev_Difficulty :: "int option"
  ev_Type :: EventType
  ev_Source :: string

definition emptyEvent :: Event where
  "emptyEvent = \<lparr>ev_OldChain = [], ev_NewChain = [], ev_Difficulty = None, ev_Type = EventHead, ev_Source = []\<rparr>"

definition Header_Copy :: "Header \<Rightarrow> Header" where
  "Header_Copy h = h"

definition Event_Header :: "Event \<Rightarrow> Header option" where
  "Event_Header e = (if ev_NewChain e = [] then None else Some (ev_NewChain e ! (length (ev_NewChain e) - 1)))"

definition SetDifficulty :: "int \<Rightarrow> Event \<Rightarrow> Event" where
  "SetDifficulty b e = e\<lparr>ev_Difficulty := Some b\<rparr>"

definition AddNewHeader :: "Header \<Rightarrow> Event \<Rightarrow> Event" where
  "AddNewHeader newHeader e = e\<lparr>ev_NewChain := ev_NewChain e @ [Header_Copy newHeader]\<rparr>"

definition AddOldHeader :: "Header \<Rightarrow> Event \<Rightarrow> Event" where
  "AddOldHeader oldHeader e = e\<lparr>ev_OldChain := ev_OldChain e @ [Header_Copy oldHeader]\<rparr>"

text \<open>A subscriber has a channel with room for one event; an event for which there is no room is dropped.\<close>

type_synonym eventStream = "Event option list"

definition stream_subscribe :: "eventStream \<Rightarrow> nat \<times> eventStream" where
  "stream_subscribe e = (length e, e @ [None])"

definition stream_push :: "Event \<Rightarrow> eventStream \<Rightarrow> eventStream" where
  "stream_push event e = map (\<lambda>update. case update of None \<Rightarrow> Some event | Some waiting \<Rightarrow> Some waiting) e"

text \<open>Taking an event: \<open>None\<close> while there is none, which is when the caller waits.\<close>

definition GetEvent :: "nat \<Rightarrow> eventStream \<Rightarrow> (Event \<times> eventStream) option" where
  "GetEvent i e = map_option (\<lambda>ev. (ev, e[i := None])) (e ! i)"

section \<open>The chain\<close>

datatype chain_error = ErrNoBlock | ErrParentNotFound | ErrInvalidTxRoot | ErrClosed | ErrExistBlock
  | errReceiptRoot | errTxRoot | errStateRoot | errDB db_error | errSeal | errBegin | errProcess apply_error
  | errNotFoundBlock | errParentHeader | errUnexpectedHeader | errSelfCheck | errGenesisHash | errGenesisMismatch | errHeader

record Blockchain =
  bc_db :: Database
  bc_header :: "Header option"
  bc_difficulty :: "int option"
  bc_genesis :: hash
  bc_stopped :: bool
  bc_price :: int
  bc_count :: int
  bc_stream :: eventStream

definition NewBlockchain :: "Database \<Rightarrow> Blockchain" where
  "NewBlockchain db = \<lparr>bc_db = db, bc_header = None, bc_difficulty = None, bc_genesis = 0, bc_stopped = False,
     bc_price = 0, bc_count = 0, bc_stream = stream_push emptyEvent []\<rparr>"

text \<open>Steps that may fail or panic, one after the other.\<close>

fun steps :: "('s \<Rightarrow> ('e option \<times> 's) option) list \<Rightarrow> 's \<Rightarrow> ('e option \<times> 's) option" where
  "steps [] s = Some (None, s)"
| "steps (f # fs) s =
     (case f s of
        None \<Rightarrow> None
      | Some (Some e, s) \<Rightarrow> Some (Some e, s)
      | Some (None, s) \<Rightarrow> steps fs s)"

definition on_db :: "(Database \<Rightarrow> (db_error option \<times> Database) option) \<Rightarrow> Blockchain \<Rightarrow> (chain_error option \<times> Blockchain) option" where
  "on_db f b = map_option (\<lambda>(e, db). (map_option errDB e, b\<lparr>bc_db := db\<rparr>)) (f (bc_db b))"

definition setCurHeader :: "Header \<Rightarrow> u64 \<Rightarrow> Blockchain \<Rightarrow> Blockchain" where
  "setCurHeader header diff b = b\<lparr>bc_header := Some (Header_Copy header), bc_difficulty := Some (sint diff)\<rparr>"

definition advanceHead :: "Header \<Rightarrow> Blockchain \<Rightarrow> (chain_error option \<times> Blockchain) option" where
  "advanceHead newHeader =
     steps [on_db (\<lambda>db. Some (WriteHeadHash (hd_Hash newHeader) db)),
            on_db (WriteHeadNumber (hd_Number newHeader)),
            on_db (WriteCanonicalHash (hd_Number newHeader) (hd_Hash newHeader)),
            on_db (WriteTD (hd_Hash newHeader) (hd_Difficulty newHeader)),
            (\<lambda>b. Some (None, setCurHeader newHeader (hd_Difficulty newHeader) b))]"

definition WriteHeader :: "'v Fastrlp \<Rightarrow> Header \<Rightarrow> Blockchain \<Rightarrow> (chain_error option \<times> Blockchain) option" where
  "WriteHeader F header =
     steps [on_db (\<lambda>db. Some (WriteHeader_db F header db)), advanceHead header,
            (\<lambda>b. Some (None, b\<lparr>bc_stream := stream_push (AddNewHeader header emptyEvent) (bc_stream b)\<rparr>))]"

definition writeGenesis :: "'v Fastrlp \<Rightarrow> Crypto \<Rightarrow> Genesis \<Rightarrow> Blockchain \<Rightarrow> (chain_error option \<times> Blockchain) option" where
  "writeGenesis F K genesis b =
     (let header = ComputeHash F K (GenesisHeader genesis) in
      steps [on_db (WriteTD (hd_Hash header) 1), WriteHeader F header] (b\<lparr>bc_genesis := hd_Hash header\<rparr>))"

section \<open>Reading\<close>

definition GetHeaderByHash :: "'v Fastrlp \<Rightarrow> Crypto \<Rightarrow> Database \<Rightarrow> hash \<Rightarrow> Header option" where
  "GetHeaderByHash F K db h = (case ReadHeader F K db h of Inl _ \<Rightarrow> None | Inr header \<Rightarrow> Some header)"

definition GetHeaderByNumber :: "'v Fastrlp \<Rightarrow> Crypto \<Rightarrow> Database \<Rightarrow> u64 \<Rightarrow> Header option option" where
  "GetHeaderByNumber F K db n =
     map_option (\<lambda>h. Option.bind h (GetHeaderByHash F K db)) (ReadCanonicalHash db n)"

fun readReceipts :: "'v Fastrlp \<Rightarrow> Database \<Rightarrow> hash list \<Rightarrow> db_error + Receipt list" where
  "readReceipts F db [] = Inr []"
| "readReceipts F db (tx # txs) =
     (case ReadReceipt F db tx of
        Inl e \<Rightarrow> Inl e
      | Inr r \<Rightarrow> map_sum id ((#) r) (readReceipts F db txs))"

definition GetReceiptsByHash :: "'v Fastrlp \<Rightarrow> Database \<Rightarrow> hash \<Rightarrow> db_error + Receipt list" where
  "GetReceiptsByHash F db h = (case ReadBody db h of Inl e \<Rightarrow> Inl e | Inr bodies \<Rightarrow> readReceipts F db bodies)"

fun readTransactions :: "'v Fastrlp \<Rightarrow> Crypto \<Rightarrow> Database \<Rightarrow> hash list \<Rightarrow> db_error + Transaction list" where
  "readTransactions F K db [] = Inr []"
| "readTransactions F K db (h # hs) =
     (case ReadTransaction F K db h of
        Inl e \<Rightarrow> Inl e
      | Inr tx \<Rightarrow> map_sum id ((#) tx) (readTransactions F K db hs))"

text \<open>The flag is false although the body was found.\<close>

definition GetBodyByHash :: "'v Fastrlp \<Rightarrow> Crypto \<Rightarrow> Database \<Rightarrow> hash \<Rightarrow> Body option \<times> bool" where
  "GetBodyByHash F K db h =
     (case ReadBody db h of
        Inl _ \<Rightarrow> (None, False)
      | Inr bodies \<Rightarrow>
          (case readTransactions F K db bodies of
             Inl _ \<Rightarrow> (None, False)
           | Inr txes \<Rightarrow> (Some \<lparr>body_Transactions = txes, body_Uncles = []\<rparr>, False)))"

definition GetBlockByHash :: "'v Fastrlp \<Rightarrow> Crypto \<Rightarrow> Database \<Rightarrow> hash \<Rightarrow> bool \<Rightarrow> Block option" where
  "GetBlockByHash F K db blkHash full =
     (case ReadHeader F K db blkHash of
        Inl _ \<Rightarrow> None
      | Inr header \<Rightarrow>
          let block = \<lparr>bl_Header = header, bl_Transactions = [], bl_Uncles = []\<rparr> in
          if \<not> full \<or> hd_Number header = 0 then Some block
          else (case ReadBody db blkHash of
              Inl _ \<Rightarrow> Some block
            | Inr body \<Rightarrow>
                (case readTransactions F K db body of
                   Inl _ \<Rightarrow> Some block
                 | Inr txs \<Rightarrow> Some (block\<lparr>bl_Transactions := txs\<rparr>))))"

definition GetBlockByNumber :: "'v Fastrlp \<Rightarrow> Crypto \<Rightarrow> Database \<Rightarrow> u64 \<Rightarrow> bool \<Rightarrow> Block option option" where
  "GetBlockByNumber F K db blockNumber full =
     map_option (\<lambda>h. Option.bind h (\<lambda>blkHash. GetBlockByHash F K db blkHash full)) (ReadCanonicalHash db blockNumber)"

definition GetParent :: "'v Fastrlp \<Rightarrow> Crypto \<Rightarrow> Database \<Rightarrow> Header \<Rightarrow> Header option" where
  "GetParent F K db header = GetHeaderByHash F K db (hd_ParentHash header)"

definition GetTxnByHash :: "'v Fastrlp \<Rightarrow> Crypto \<Rightarrow> Database \<Rightarrow> hash \<Rightarrow> Transaction option" where
  "GetTxnByHash F K db h = (case ReadTransaction F K db h of Inl _ \<Rightarrow> None | Inr tx \<Rightarrow> Some tx)"

definition ReadTxLookup :: "Database \<Rightarrow> hash \<Rightarrow> hash option option" where
  "ReadTxLookup db txHash =
     (case ReadTxLookUp db txHash of
        None \<Rightarrow> Some None
      | Some blockNum \<Rightarrow> ReadCanonicalHash db blockNum)"

text \<open>The slice is created with its full length and then appended to, so it starts with nil pointers.\<close>

definition readBody :: "'v Fastrlp \<Rightarrow> Crypto \<Rightarrow> Database \<Rightarrow> hash \<Rightarrow> Transaction option list option" where
  "readBody F K db h =
     (case ReadBody db h of
        Inl _ \<Rightarrow> None
      | Inr txsHash \<Rightarrow>
          Some (replicate (length txsHash) None @
            map (\<lambda>txHash. case ReadTransaction F K db txHash of Inl _ \<Rightarrow> Some emptyTransaction | Inr tx \<Rightarrow> Some tx) txsHash))"

text \<open>The hash of an earlier block for the machine: the loop follows the parents down from the header.\<close>

fun GetHash_loop :: "'v Fastrlp \<Rightarrow> Crypto \<Rightarrow> Database \<Rightarrow> nat \<Rightarrow> nat \<Rightarrow> hash \<Rightarrow> hash" where
  "GetHash_loop F K db i num h =
     (if num = i then h
      else (case GetHeaderByHash F K db h of
          None \<Rightarrow> 0
        | Some x \<Rightarrow> (case num of 0 \<Rightarrow> 0 | Suc m \<Rightarrow> GetHash_loop F K db i m (hd_ParentHash x))))"

declare GetHash_loop.simps [simp del]

definition GetHashHelper :: "'v Fastrlp \<Rightarrow> Crypto \<Rightarrow> Database \<Rightarrow> Header \<Rightarrow> u64 \<Rightarrow> hash" where
  "GetHashHelper F K db header i = GetHash_loop F K db (unat i) (unat (hd_Number header - 1)) (hd_ParentHash header)"

section \<open>Gas price and gas limit\<close>

definition calcArithmeticAverage :: "int list \<Rightarrow> int \<Rightarrow> Blockchain \<Rightarrow> Blockchain" where
  "calcArithmeticAverage newValues summed b =
     (let newAverageCount = int (length newValues) in b\<lparr>bc_price := summed div newAverageCount, bc_count := newAverageCount\<rparr>)"

definition calcRollingAverage :: "int list \<Rightarrow> int \<Rightarrow> Blockchain \<Rightarrow> Blockchain" where
  "calcRollingAverage newValues summed b =
     (let oldCount = bc_count b; oldAverage = bc_price b; inputSetCount = int (length newValues);
          newAverage = (oldAverage * (oldCount - inputSetCount)) div oldCount + summed div oldCount
      in b\<lparr>bc_price := newAverage, bc_count := inputSetCount + oldCount\<rparr>)"

text \<open>\<open>Uint64\<close> of the count is its low 64 bits.\<close>

definition updateGasPriceAvg :: "int list \<Rightarrow> Blockchain \<Rightarrow> Blockchain" where
  "updateGasPriceAvg newValues b =
     (let summed = sum_list newValues in
      if (word_of_int (bc_count b) :: u64) = 0 then calcArithmeticAverage newValues summed b
      else calcRollingAverage newValues summed b)"

text \<open>A transaction without a price makes the sum panic.\<close>

definition updateGasPriceAvgWithBlock :: "Block \<Rightarrow> Blockchain \<Rightarrow> Blockchain option" where
  "updateGasPriceAvgWithBlock block b =
     (if length (bl_Transactions block) < 1 then Some b
      else map_option (\<lambda>gasPrices. updateGasPriceAvg gasPrices b) (those (map tx_GasPrice (bl_Transactions block))))"

definition BlockGasTargetDivisor :: u64 where
  "BlockGasTargetDivisor = 1024"

definition calculateGasLimit :: "u64 \<Rightarrow> u64 \<Rightarrow> u64" where
  "calculateGasLimit blockGasTarget parentGasLimit =
     (if blockGasTarget = 0 then parentGasLimit
      else if parentGasLimit = blockGasTarget then blockGasTarget
      else
        let delta = parentGasLimit * 1 div BlockGasTargetDivisor in
        if parentGasLimit < blockGasTarget then min blockGasTarget (parentGasLimit + delta)
        else max blockGasTarget (max (parentGasLimit - delta) 0))"

definition CalculateGasLimit :: "('s, 't, 'n, 'v, 'k) ChainEnv \<Rightarrow> Blockchain \<Rightarrow> u64 \<Rightarrow> u64 option option" where
  "CalculateGasLimit W b number =
     map_option (map_option (\<lambda>parent. calculateGasLimit (ce_BlockGasTarget W) (hd_GasLimit parent)))
       (GetHeaderByNumber (ce_rlp W) (ce_crypto W) (bc_db b) (number - 1))"

section \<open>Executing and importing a block\<close>

definition ecrecoverFromHeader :: "'v Fastrlp \<Rightarrow> Crypto \<Rightarrow> 'k Btcec \<Rightarrow> Header \<Rightarrow> address option" where
  "ecrecoverFromHeader F K C h =
     (case GetIbftExtra F h of
        None \<Rightarrow> None
      | Some extra \<Rightarrow>
          (case CalculateHeaderHash F K h of
             None \<Rightarrow> None
           | Some message \<Rightarrow>
               (case RecoverPubkey C (ie_Seal extra) (hash_bytes (Keccak256 K (hash_bytes message))) of
                  Inl _ \<Rightarrow> None
                | Inr pub \<Rightarrow> Some (PubKeyToAddress K pub))))"

definition systemTx :: "('s, 't, 'n, 'v, 'k) ChainEnv \<Rightarrow> (byte list \<Rightarrow> bool) \<Rightarrow> u64 \<Rightarrow> address \<Rightarrow> Transaction \<Rightarrow> bool option" where
  "systemTx W isMethod height coinbase tx =
     (if tx_To tx \<noteq> Some AddrValidatorSetContract then Some False
      else if \<not> isMethod (tx_Input tx) then Some False
      else
        let signer = NewSigner (Forks_At (ex_forks (ce_executor W)) height) (word_of_int (ex_chainID (ce_executor W))) in
        (case Sender (ce_rlp W) (pf_curve (ce_platform W)) (ce_crypto W) signer tx of
           Inl goPanic \<Rightarrow> None
         | Inl _ \<Rightarrow> Some False
         | Inr from \<Rightarrow> Some (from = coinbase)))"

definition isDepositTx :: "('s, 't, 'n, 'v, 'k) ChainEnv \<Rightarrow> u64 \<Rightarrow> address \<Rightarrow> Transaction \<Rightarrow> bool option" where
  "isDepositTx W = systemTx W (ce_isDeposit W)"

definition isSlashTx :: "('s, 't, 'n, 'v, 'k) ChainEnv \<Rightarrow> u64 \<Rightarrow> address \<Rightarrow> Transaction \<Rightarrow> bool option" where
  "isSlashTx W = systemTx W (ce_isSlash W)"

definition IsSystemTransaction :: "('s, 't, 'n, 'v, 'k) ChainEnv \<Rightarrow> u64 \<Rightarrow> address \<Rightarrow> Transaction \<Rightarrow> bool option" where
  "IsSystemTransaction W height coinbase tx =
     (if \<not> Detroit (Forks_At (ex_forks (ce_executor W)) height) then Some False
      else Option.bind (isDepositTx W height coinbase tx) (\<lambda>deposit.
        if deposit then Some True else isSlashTx W height coinbase tx))"

fun splitSystemTxs ::
  "('s, 't, 'n, 'v, 'k) ChainEnv \<Rightarrow> u64 \<Rightarrow> address \<Rightarrow> Transaction list \<Rightarrow> (Transaction list \<times> Transaction list) option" where
  "splitSystemTxs W height coinbase [] = Some ([], [])"
| "splitSystemTxs W height coinbase (tx # txs) =
     Option.bind (IsSystemTransaction W height coinbase tx) (\<lambda>isSystem.
     map_option (\<lambda>(normalTxs, systemTxs). if isSystem then (normalTxs, tx # systemTxs) else (tx # normalTxs, systemTxs))
       (splitSystemTxs W height coinbase txs))"

record BlockResult =
  br_Root :: hash
  br_Receipts :: "Receipt list"
  br_TotalGas :: u64

text \<open>The result with the trie nodes of the commit; \<open>stopNow\<close> tells whether the chain was closed during the
  execution.\<close>

definition executeBlockTransactions ::
  "('s, 't, 'n, 'v, 'k) ChainEnv \<Rightarrow> bool \<Rightarrow> Block \<Rightarrow> Blockchain \<Rightarrow>
   (chain_error + BlockResult \<times> (byte list \<times> byte list) list) option" where
  "executeBlockTransactions W stopNow block b =
     (if bc_stopped b then Some (Inl ErrClosed)
      else
        let header = bl_Header block; N = ce_platform W; x = ce_executor W; E = pf_env N in
        (case ReadHeader (ce_rlp W) (ce_crypto W) (bc_db b) (hd_ParentHash header) of
           Inl _ \<Rightarrow> Some (Inl ErrParentNotFound)
         | Inr parent \<Rightarrow>
             (case ecrecoverFromHeader (ce_rlp W) (ce_crypto W) (pf_curve N) header of
                None \<Rightarrow> Some (Inl errSeal)
              | Some blockCreator \<Rightarrow>
                  (case BeginTxn N x (hd_StateRoot parent) header blockCreator of
                     None \<Rightarrow> Some (Inl errBegin)
                   | Some t \<Rightarrow>
                       Option.bind (UpgradeSystem E (ce_upgrades W) (ex_chainID x) (ex_forks x) (hd_Number header) (tr_state t)) (\<lambda>T.
                       Option.bind (splitSystemTxs W (hd_Number header) blockCreator (bl_Transactions block)) (\<lambda>(normalTxs, systemTxs).
                       Option.bind (ProcessTransactions N x 0 (hd_GasLimit header) normalTxs (t\<lparr>tr_state := T\<rparr>)) (\<lambda>r.
                       case r of
                         Inl e \<Rightarrow> Some (Inl (errProcess e))
                       | Inr t \<Rightarrow>
                           Option.bind (ProcessTransactions N x 0 (hd_GasLimit header) systemTxs t) (\<lambda>r.
                           case r of
                             Inl e \<Rightarrow> Some (Inl (errProcess e))
                           | Inr t \<Rightarrow>
                               if stopNow then Some (Inl ErrClosed)
                               else map_option (\<lambda>(_, root).
                                   Inr (\<lparr>br_Root = root, br_Receipts = tr_receipts t, br_TotalGas = tr_totalGas t\<rparr>, ce_nodes W t))
                                 (Transition_Commit E t)))))))))"

definition writeBody :: "'v Fastrlp \<Rightarrow> Crypto \<Rightarrow> Block \<Rightarrow> Blockchain \<Rightarrow> (chain_error option \<times> Blockchain) option" where
  "writeBody F K block =
     steps [on_db (\<lambda>db. Some (WriteTransactions F K (bl_Transactions block) db)),
            on_db (\<lambda>db. Some (WriteBody F K (hd_Hash (bl_Header block)) (bl_Transactions block) db)),
            on_db (\<lambda>db. map_option (Pair None) (WriteTxLookUp F K (hd_Number (bl_Header block)) (bl_Transactions block) db))]"

text \<open>The block's header is shared: its hash is recomputed before it is written.\<close>

definition WriteBlock ::
  "('s, 't, 'n, 'v, 'k) ChainEnv \<Rightarrow> bool \<Rightarrow> Block \<Rightarrow> Blockchain \<Rightarrow> (chain_error option \<times> Blockchain) option" where
  "WriteBlock W stopNow block b =
     (if bc_stopped b then Some (Some ErrClosed, b)
      else
        (case bc_header b of
           None \<Rightarrow> None
         | Some current \<Rightarrow>
             let header = bl_Header block; F = ce_rlp W; K = ce_crypto W in
             if hd_Number header \<le> hd_Number current then Some (None, b)
             else
               steps [writeBody F K block,
                 (\<lambda>b. case executeBlockTransactions W stopNow block b of
                    None \<Rightarrow> None
                  | Some (Inl e) \<Rightarrow> Some (Some e, b)
                  | Some (Inr (blockResult, nodes)) \<Rightarrow>
                      steps [on_db (\<lambda>db. Some (None, snd (db_Batch_Write (map (Pair TrieDBI) nodes) db))),
                        (\<lambda>b. Some (
                          if ce_receiptsRoot W (br_Receipts blockResult) \<noteq> hd_ReceiptsRoot header then Some errReceiptRoot
                          else if ce_txRoot W (bl_Transactions block) \<noteq> hd_TxRoot header then Some errTxRoot
                          else if br_Root blockResult \<noteq> hd_StateRoot header then Some errStateRoot
                          else None, b)),
                        on_db (\<lambda>db. Some (WrteReceipts F (br_Receipts blockResult) db)),
                        WriteHeader F (ComputeHash F K header),
                        (\<lambda>b. map_option (Pair None) (updateGasPriceAvgWithBlock block b))] b)] b))"

section \<open>Verifying a block\<close>

definition VerifyHeader :: "'v Fastrlp \<Rightarrow> Crypto \<Rightarrow> Header \<Rightarrow> Blockchain \<Rightarrow> chain_error option option" where
  "VerifyHeader F K header b =
     (if hd_Number header - 1 = 0 then Some None
      else
        map_option (\<lambda>h. case h of
            None \<Rightarrow> Some errNotFoundBlock
          | Some h \<Rightarrow>
              (case ReadHeader F K (bc_db b) h of
                 Inl _ \<Rightarrow> Some errParentHeader
               | Inr parent \<Rightarrow>
                   if hd_Hash parent \<noteq> hd_ParentHash header then Some errUnexpectedHeader
                   else if hd_Hash header \<noteq> defHeaderHash F K header then Some errSelfCheck
                   else None))
          (ReadCanonicalHash (bc_db b) (hd_Number header - 1)))"

definition VerifyFinalizedBlock ::
  "('s, 't, 'n, 'v, 'k) ChainEnv \<Rightarrow> Block option \<Rightarrow> Blockchain \<Rightarrow> chain_error option option" where
  "VerifyFinalizedBlock W blk b =
     (if bc_stopped b then Some (Some ErrClosed)
      else
        (case blk of
           None \<Rightarrow> Some (Some ErrNoBlock)
         | Some block \<Rightarrow>
             let (latest, ok) = ReadHeadNumber (bc_db b) in
             if ok \<and> latest > hd_Number (bl_Header block) then Some (Some ErrExistBlock)
             else
               map_option (\<lambda>e. case e of
                   Some _ \<Rightarrow> Some errHeader
                 | None \<Rightarrow> if ce_txRoot W (bl_Transactions block) \<noteq> hd_TxRoot (bl_Header block) then Some ErrInvalidTxRoot else None)
                 (VerifyHeader (ce_rlp W) (ce_crypto W) (bl_Header block) b)))"

section \<open>Start-up\<close>

text \<open>The second loop of the self check, from an index down to 1: \<open>newheader\<close> is what the variable holds.\<close>

fun SelfCheck_loop :: "'v Fastrlp \<Rightarrow> Crypto \<Rightarrow> Database \<Rightarrow> nat \<Rightarrow> Header option \<Rightarrow> Header option option" where
  "SelfCheck_loop F K db 0 newheader = Some newheader"
| "SelfCheck_loop F K db (Suc i) newheader =
     Option.bind (GetHeaderByNumber F K db (word_of_nat (Suc i))) (\<lambda>h.
       case h of
         None \<Rightarrow> SelfCheck_loop F K db i None
       | Some x \<Rightarrow> (case ReadState db (hd_StateRoot x) of Inr _ \<Rightarrow> Some (Some x) | Inl _ \<Rightarrow> SelfCheck_loop F K db i (Some x)))"

text \<open>The first loop only looks for a header when the latest one is not canonical; the second one overwrites the
  variable unless the latest number is 0.  A nil header is dereferenced, which panics.  Its loop from \<open>Number - 1\<close>
  down is entered only then, and its result used only when the second loop does not run.\<close>

fun SelfCheck_first :: "'v Fastrlp \<Rightarrow> Crypto \<Rightarrow> Database \<Rightarrow> nat \<Rightarrow> Header option option" where
  "SelfCheck_first F K db 0 = Some None"
| "SelfCheck_first F K db (Suc i) =
     Option.bind (GetHeaderByNumber F K db (word_of_nat (Suc i))) (\<lambda>h.
       case h of None \<Rightarrow> SelfCheck_first F K db i | Some x \<Rightarrow> Some (Some x))"

definition SelfCheck :: "'v Fastrlp \<Rightarrow> Crypto \<Rightarrow> Database \<Rightarrow> Database option" where
  "SelfCheck F K db =
     (let (latest, ok) = ReadHeadHash db in
      if \<not> ok then None
      else
        (case ReadHeader F K db latest of
           Inl _ \<Rightarrow> None
         | Inr header \<Rightarrow>
             Option.bind (ReadCanonicalHash db (hd_Number header)) (\<lambda>canonical.
             Option.bind (if canonical = None then SelfCheck_first F K db (unat (hd_Number header - 1)) else Some None) (\<lambda>newheader.
             Option.bind (SelfCheck_loop F K db (unat (hd_Number header)) newheader) (\<lambda>newheader.
             Option.bind newheader (\<lambda>newheader.
               let db = snd (WriteHeadHash (hd_Hash newheader) db) in
               map_option snd (WriteHeadNumber (hd_Number newheader) db)))))))"

text \<open>The head is read before the self check repairs it.\<close>

definition HandleGenesis ::
  "('s, 't, 'n, 'v, 'k) ChainEnv \<Rightarrow> Blockchain \<Rightarrow> (chain_error option \<times> Blockchain) option" where
  "HandleGenesis W b =
     (let F = ce_rlp W; K = ce_crypto W; (head, ok) = ReadHeadHash (bc_db b) in
      if ok then
        Option.bind (SelfCheck F K (bc_db b)) (\<lambda>db.
        Option.bind (ReadCanonicalHash db 0) (\<lambda>genesis.
          let b = b\<lparr>bc_db := db\<rparr> in
          (case genesis of
             None \<Rightarrow> Some (Some errGenesisHash, b)
           | Some genesis \<Rightarrow>
               if genesis \<noteq> Genesis_Hash F K (ce_Genesis W) then Some (Some errGenesisMismatch, b)
               else (case ReadHeader F K db head of
                   Inl e \<Rightarrow> Some (Some (errDB e), b)
                 | Inr header \<Rightarrow> Some (None, setCurHeader header (hd_Difficulty header) b)))))
      else writeGenesis F K (ce_Genesis W) b)"

end
