(* ===== verification/Gas_Limit.thy ===== *)
theory Gas_Limit
  imports Blockchain
begin

text \<open>
  The gas limit of the chain moves to its target (\<open>calculateGasLimit\<close>).
\<close>

lemma unat_min: "unat (min a b) = min (unat a) (unat (b :: 'a::len word))"
  by (simp add: min_def word_le_nat_alt)

lemma unat_max: "unat (max a b) = max (unat a) (unat (b :: 'a::len word))"
  by (simp add: max_def word_le_nat_alt)

lemma gas_limit_up:
  assumes "p < t" "unat t \<le> 2 ^ 63"
  shows "unat (calculateGasLimit t p) = min (unat t) (unat p + unat p div 1024)"
proof -
  have p: "unat p < unat t" using assms(1) by (simp add: word_less_nat_alt)
  have d: "unat (p div 1024) = unat p div 1024" by (simp add: unat_div)
  have "unat p + unat p div 1024 < 2 ^ 64" using p assms(2) by simp
  then have "unat p + unat (p div 1024) < 2 ^ LENGTH(64)" using d by simp
  then have "unat (p + p div 1024) = unat p + unat p div 1024" unfolding d [symmetric] by (rule unat_add_lem [THEN iffD1])
  moreover have "t \<noteq> 0" "p \<noteq> t" using p by auto
  ultimately show ?thesis using assms(1) by (simp add: calculateGasLimit_def BlockGasTargetDivisor_def unat_min Let_def)
qed

lemma gas_limit_down:
  assumes "t < p" "t \<noteq> 0"
  shows "unat (calculateGasLimit t p) = max (unat t) (unat p - unat p div 1024)"
proof -
  have d: "unat (p div 1024) = unat p div 1024" by (simp add: unat_div)
  then have "unat (p - p div 1024) = unat p - unat p div 1024" by (subst unat_sub) (simp_all add: word_le_nat_alt)
  moreover have "p \<noteq> t" "\<not> p < t" using assms(1) by auto
  ultimately show ?thesis using assms by (simp add: calculateGasLimit_def BlockGasTargetDivisor_def unat_max Let_def)
qed

abbreviation gas_distance :: "u64 \<Rightarrow> u64 \<Rightarrow> nat" where
  "gas_distance t p \<equiv> nat \<bar>int (unat p) - int (unat t)\<bar>"

lemma towards_up: "a < b \<Longrightarrow> 1 \<le> d \<Longrightarrow> m = min b (a + d) \<Longrightarrow>
    a \<le> m \<and> \<bar>int m - int a\<bar> \<le> int d \<and> nat \<bar>int m - int b\<bar> < nat \<bar>int a - int b\<bar>" for a b d m :: nat
  by (auto simp: min_def)

lemma towards_down: "b < a \<Longrightarrow> 1 \<le> d \<Longrightarrow> d \<le> a \<Longrightarrow> m = max b (a - d) \<Longrightarrow>
    b \<le> m \<and> \<bar>int m - int a\<bar> \<le> int d \<and> nat \<bar>int m - int b\<bar> < nat \<bar>int a - int b\<bar>" for a b d m :: nat
  by (auto simp: max_def)

lemma gas_limit_step:
  assumes "1024 \<le> unat t" "unat t \<le> 2 ^ 63" "1024 \<le> unat p"
  shows "1024 \<le> unat (calculateGasLimit t p)"
    "\<bar>int (unat (calculateGasLimit t p)) - int (unat p)\<bar> \<le> int (unat p div 1024)"
    "p \<noteq> t \<Longrightarrow> gas_distance t (calculateGasLimit t p) < gas_distance t p"
    "calculateGasLimit t t = t"
proof -
  have t: "t \<noteq> 0" using assms(1) by auto
  have div: "1 \<le> unat p div 1024" "unat p div 1024 \<le> unat p" using assms(3) by simp_all
  have "1024 \<le> unat (calculateGasLimit t p) \<and> \<bar>int (unat (calculateGasLimit t p)) - int (unat p)\<bar> \<le> int (unat p div 1024) \<and>
    (p \<noteq> t \<longrightarrow> gas_distance t (calculateGasLimit t p) < gas_distance t p)"
  proof (cases p t rule: linorder_cases)
    case less
    then have "unat p < unat t" by (simp add: word_less_nat_alt)
    then show ?thesis using towards_up [OF _ div(1) gas_limit_up [OF less assms(2)]] assms(3) by auto
  next
    case equal
    then show ?thesis using assms t by (simp add: calculateGasLimit_def)
  next
    case greater
    then have "unat t < unat p" by (simp add: word_less_nat_alt)
    then show ?thesis using towards_down [OF _ div gas_limit_down [OF greater t]] assms(1) by auto
  qed
  then show "1024 \<le> unat (calculateGasLimit t p)"
    "\<bar>int (unat (calculateGasLimit t p)) - int (unat p)\<bar> \<le> int (unat p div 1024)"
    "p \<noteq> t \<Longrightarrow> gas_distance t (calculateGasLimit t p) < gas_distance t p" by blast+
  show "calculateGasLimit t t = t" using t by (simp add: calculateGasLimit_def)
qed

lemma gas_limit_stays: "t \<noteq> 0 \<Longrightarrow> (calculateGasLimit t ^^ m) t = t"
  by (induction m) (simp_all add: calculateGasLimit_def)

lemma gas_limit_reaches:
  assumes "1024 \<le> unat t" "unat t \<le> 2 ^ 63" "1024 \<le> unat p"
  shows "\<exists>n. (calculateGasLimit t ^^ n) p = t"
  using assms(3)
proof (induction "gas_distance t p" arbitrary: p rule: less_induct)
  case less
  show ?case
  proof (cases "p = t")
    case True
    then show ?thesis by (intro exI [of _ 0]) simp
  next
    case False
    then obtain n where "(calculateGasLimit t ^^ n) (calculateGasLimit t p) = t"
      using less(1) [of "calculateGasLimit t p"] gas_limit_step [OF assms(1,2) less(2)] by auto
    then show ?thesis by (intro exI [of _ "Suc n"]) (simp add: funpow_swap1)
  qed
qed

lemma gas_limit_invariant:
  assumes "1024 \<le> unat t" "unat t \<le> 2 ^ 63" "1024 \<le> unat p"
  shows "1024 \<le> unat ((calculateGasLimit t ^^ k) p)"
  using assms(3) by (induction k) (simp_all add: gas_limit_step(1) [OF assms(1,2)])



text \<open>Below 1024 the limit does not move at all.\<close>

lemma gas_limit_stuck: "unat p < 1024 \<Longrightarrow> p < t \<Longrightarrow> unat t \<le> 2 ^ 63 \<Longrightarrow> calculateGasLimit t p = p"
  using gas_limit_up [of p t] by (simp add: word_less_nat_alt word_unat_eq_iff)

end
