(* ===== verification/Spec2Isabelle.thy ===== *)
theory Spec2Isabelle
  imports Ledger Tx_Order Dial Gas_Limit
begin

text \<open>
  A verification library for \<open>dogesyncer\<close>, the syncing node of the Dogechain network (Go, \<open>src/\<close>).  The node
  downloads blocks from its peers, executes their transactions on the world state, checks the results against the
  headers and serves the chain over JSON-RPC.

  \<^bold>\<open>The parts and their theories.\<close>

  \<^item> The Ethereum virtual machine, \<open>state/runtime/evm\<close>.  \<open>Runtime\<close> has the types shared with the executor
    (\<open>state/runtime/runtime.go\<close>), among them the host interface as a record of functions over a host state;
    \<open>EVM_State\<close> the interpreter state, stack, memory and jump analysis (\<open>state.go\<close>, \<open>bitmap.go\<close>); \<open>EVM_Arith\<close>,
    \<open>EVM_Env\<close> and \<open>EVM_Control\<close> the handlers of \<open>instructions.go\<close>; \<open>EVM_Opcodes\<close> and \<open>EVM_Run\<close> the opcodes, the
    dispatch table and the run loop (\<open>opcodes.go\<close>, \<open>dispatch_table.go\<close>, \<open>evm.go\<close>).  The operands are \<open>int\<close>, as the
    code computes on \<open>big.Int\<close>; gas is a \<open>64 word\<close> and wraps; a Go panic sets a flag of the state.  \<open>EVM_Step\<close> and
    \<open>EVM_Host\<close> have the locales \<open>host_rel\<close> and \<open>vm_host\<close>: what the machine relies on in its host, and that every
    instruction and every run keeps it.
  \<^item> The world state of a transaction, \<open>state/txn.go\<close> and \<open>state/state.go\<close>: \<open>Txn\<close> has all reads and writes, the
    snapshots and the commit over a radix tree that is a parameter (\<open>env_tree\<close>, laws \<open>radix_laws\<close>); \<open>Txn_Laws\<close> has
    what is read after what is written, reverting and deleting, and \<open>totalSupply\<close>.
  \<^item> The executor, \<open>state/executor.go\<close>: \<open>Executor\<close> has calls and creations, which run the machine with the executor
    itself as the host; \<open>Executor_Host\<close> interprets the two locales on it; \<open>Processor\<close> has the checks, the purchase and
    settlement of gas, the bridge logs, the receipts and the loop over a block; \<open>Processor_Laws\<close>, \<open>Supply\<close> and
    \<open>Ledger\<close> the accounting of gas and money.  \<open>Precompiled\<close> dispatches the precompiled contracts
    (\<open>state/runtime/precompiled\<close>), \<open>Bridge\<close> parses the events of the bridge (\<open>contracts/bridge\<close>), \<open>Forks\<close> is the
    schedule of forks (\<open>chain/params.go\<close>).
  \<^item> The types, \<open>types/\<close>: \<open>Rlp\<close> is the interface of the fastrlp package with its laws; \<open>Receipts\<close>, \<open>Tx_Types\<close> and
    \<open>Headers\<close> have receipts with bloom filters, transactions, headers and blocks with both encodings; \<open>Signer\<close> the
    signatures and senders (\<open>crypto/\<close>).
  \<^item> Heaps: \<open>Go_Heap\<close> has the algorithms of the standard library's container/heap and the locale \<open>go_heap\<close>, which
    carries their correctness to a collection; it is interpreted for the transactions by price and time (\<open>Tx_Order\<close>,
    \<open>types/transaction.go\<close>) and the dial tasks (\<open>Dial\<close>, \<open>network/dial\<close>).
  \<^item> The chain: \<open>Chain_Store\<close> has the tables of the database and their keys (\<open>rawdb/\<close>, \<open>helper/varint.go\<close>) over an
    abstract key-value store in which every write can be made to fail; \<open>Blockchain\<close> has the import and verification of
    blocks, start-up, lookups, events and contract upgrades (\<open>blockchain/\<close>, \<open>chain/chain.go\<close>, \<open>contracts/upgrader\<close>);
    \<open>Gas_Limit\<close> the movement of the gas limit to its target.

  \<^bold>\<open>What is shown.\<close>  Execution of a transaction ends, whatever code it runs, within the gas it was given
  (\<open>calls_terminate\<close>); static calls change nothing, failed calls and creations leave nothing behind; neither a message
  nor a block creates money but what the bridge brings in; the gas of receipts, pool and header adds up.  The
  instructions on \<open>big.Int\<close> compute the operations on 256-bit words, with the exception of BYTE at huge indexes.
  Reads return what was written, snapshots restore, encodings round trip, signatures recover their signer.  The
  transaction order and the dial queue hand out everything they are given in the promised order.  The gas limit
  reaches its target, and the numbers in the keys of the database are read back, below the bound from which the
  encoder panics.

  \<^bold>\<open>Loops.\<close>  The interpreter loop is \<open>partial_function (option)\<close>; \<open>calls_terminate\<close> shows that it returns.  Nested
  calls take a fuel \<open>callFuel\<close> of the call depth limit, which is enough because the depth of every call is checked
  before it runs.

  \<^bold>\<open>Parameters.\<close>  Code outside the repository is an argument: the radix tree of \<open>state/txn.go\<close>, fastrlp, the hash
  functions and the curve, the ABI decoder, the precompiled contracts' arithmetic.  What the theorems use of it are
  hypotheses such as \<open>radix_laws\<close> and \<open>rlp_laws\<close>, each satisfied by a concrete instance in the witnesses.

  \<^bold>\<open>Not modelled.\<close>  Goroutines around network connections and gRPC, generated protocol code, the database engines,
  command line and configuration, JSON and HTTP handling, GraphQL, the stores of secrets, and the tracers, which
  observe the machine and do not influence it.
\<close>

end
